(* ===== verification/Prelude.thy ===== *)
theory Prelude
  imports Main "HOL-Library.Word" "HOL-Library.AList"
begin

text \<open>
  Shared vocabulary of the development.

  \<^item> The integer widths the C++ sources use, as words.
  \<^item> Control flow of an imperative C++ function as a value: a block either falls through
    (\<open>Next\<close>), returns from the enclosing function (\<open>Return\<close>) or leaves it by an exception
    (\<open>Throw\<close>); one round of a loop either continues or stops with such a value. \<open>loop\<close> is the
    \<open>while (true)\<close> of the language: \<open>None\<close> is a loop that never stops.
  \<^item> A small program logic for these blocks (partial correctness, termination, divergence).
  \<^item> Decimal printing, little-endian bytes and JSON objects, which several components share.
\<close>

named_theorems ops "defining equations of straight-line operations"
named_theorems frame "what an operation leaves unchanged"

section \<open>Integer widths\<close>

type_synonym byte = "8 word"
type_synonym u16 = "16 word"
type_synonym u32 = "32 word"
type_synonym u64 = "64 word"

lemma unat_ucast_32_64: "unat (ucast (w :: u32) :: u64) = unat w"
proof -
  have "unat w < 2 ^ 64" by (rule order_less_trans [OF unsigned_less]) simp
  then show ?thesis unfolding unsigned_ucast_eq by (simp add: take_bit_nat_eq_self_iff)
qed

lemma unat_ucast_64_32: "unat (w :: u64) < 2 ^ 32 \<Longrightarrow> unat (ucast w :: u32) = unat w"
  unfolding unsigned_ucast_eq by (simp add: take_bit_nat_eq_self_iff)

lemma ucast_32_64_eq_0: "(ucast (w :: u32) :: u64) = 0 \<longleftrightarrow> w = 0"
  unfolding unat_0_iff [symmetric] unat_ucast_32_64 ..

section \<open>Control flow\<close>

datatype 's flow = Next 's | Return 's | Throw 's

fun flow_state :: "'s flow \<Rightarrow> 's" where
  "flow_state (Next s) = s"
| "flow_state (Return s) = s"
| "flow_state (Throw s) = s"

datatype 's iter = Continue 's | Stop "'s flow"

partial_function (option) loop :: "('s \<Rightarrow> 's iter option) \<Rightarrow> 's \<Rightarrow> 's flow option" where
  "loop body s = Option.bind (body s)
     (\<lambda>i. case i of Continue s' \<Rightarrow> loop body s' | Stop f \<Rightarrow> Some f)"

definition then_do :: "'s flow option \<Rightarrow> ('s \<Rightarrow> 's flow option) \<Rightarrow> 's flow option" where
  "then_do m k = Option.bind m
     (\<lambda>f. case f of Next s \<Rightarrow> k s | Return s \<Rightarrow> Some (Return s) | Throw s \<Rightarrow> Some (Throw s))"

definition in_body :: "'s flow option \<Rightarrow> ('s \<Rightarrow> 's iter option) \<Rightarrow> 's iter option" where
  "in_body m k = Option.bind m
     (\<lambda>f. case f of Next s \<Rightarrow> k s | Return s \<Rightarrow> Some (Stop (Return s)) | Throw s \<Rightarrow> Some (Stop (Throw s)))"

lemma then_do_simps [simp]:
  "then_do None k = None"
  "then_do (Some (Next s)) k = k s"
  "then_do (Some (Return s)) k = Some (Return s)"
  "then_do (Some (Throw s)) k = Some (Throw s)"
  by (simp_all add: then_do_def)

lemma in_body_simps [simp]:
  "in_body None k = None"
  "in_body (Some (Next s)) k = k s"
  "in_body (Some (Return s)) k = Some (Stop (Return s))"
  "in_body (Some (Throw s)) k = Some (Stop (Throw s))"
  by (simp_all add: in_body_def)

lemma then_do_assoc: "then_do (then_do m k) l = then_do m (\<lambda>s. then_do (k s) l)"
  by (simp add: then_do_def split: bind_split flow.split)

lemma loop_Continue: "body s = Some (Continue s') \<Longrightarrow> loop body s = loop body s'"
  by (subst loop.simps) simp

lemma loop_Stop: "body s = Some (Stop f) \<Longrightarrow> loop body s = Some f"
  by (subst loop.simps) simp

subsection \<open>Postconditions\<close>

definition flow_post :: "('s \<Rightarrow> bool) \<Rightarrow> ('s \<Rightarrow> bool) \<Rightarrow> ('s \<Rightarrow> bool) \<Rightarrow> 's flow \<Rightarrow> bool" where
  "flow_post N R T f = (case f of Next s \<Rightarrow> N s | Return s \<Rightarrow> R s | Throw s \<Rightarrow> T s)"

definition post :: "('s \<Rightarrow> bool) \<Rightarrow> ('s \<Rightarrow> bool) \<Rightarrow> ('s \<Rightarrow> bool) \<Rightarrow> 's flow option \<Rightarrow> bool" where
  "post N R T m = (case m of None \<Rightarrow> True | Some f \<Rightarrow> flow_post N R T f)"

definition iter_post ::
  "('s \<Rightarrow> bool) \<Rightarrow> ('s \<Rightarrow> bool) \<Rightarrow> ('s \<Rightarrow> bool) \<Rightarrow> ('s \<Rightarrow> bool) \<Rightarrow> 's iter option \<Rightarrow> bool" where
  "iter_post C N R T m = (case m of None \<Rightarrow> True
     | Some (Continue s) \<Rightarrow> C s | Some (Stop f) \<Rightarrow> flow_post N R T f)"

lemma post_simps [simp]:
  "post N R T None"
  "post N R T (Some (Next s)) = N s"
  "post N R T (Some (Return s)) = R s"
  "post N R T (Some (Throw s)) = T s"
  by (simp_all add: post_def flow_post_def)

lemma iter_post_simps [simp]:
  "iter_post C N R T None"
  "iter_post C N R T (Some (Continue s)) = C s"
  "iter_post C N R T (Some (Stop (Next s))) = N s"
  "iter_post C N R T (Some (Stop (Return s))) = R s"
  "iter_post C N R T (Some (Stop (Throw s))) = T s"
  by (simp_all add: iter_post_def flow_post_def)

lemma post_flow_state: "post P P P m \<Longrightarrow> m = Some f \<Longrightarrow> P (flow_state f)"
  by (cases f) simp_all

lemma post_mono:
  assumes "post N R T m"
    and "\<And>s. N s \<Longrightarrow> N' s" "\<And>s. R s \<Longrightarrow> R' s" "\<And>s. T s \<Longrightarrow> T' s"
  shows "post N' R' T' m"
  using assms by (auto simp: post_def flow_post_def split: option.splits flow.splits)

lemma post_conj:
  assumes "post N R T m" and "post N' R' T' m"
    and "\<And>s. N s \<Longrightarrow> N' s \<Longrightarrow> A s" "\<And>s. R s \<Longrightarrow> R' s \<Longrightarrow> B s" "\<And>s. T s \<Longrightarrow> T' s \<Longrightarrow> C s"
  shows "post A B C m"
  using assms by (auto simp: post_def flow_post_def split: option.splits flow.splits)

lemma post_here: "post N R T m \<Longrightarrow> post (\<lambda>s. N s \<and> m = Some (Next s)) R T m"
  by (auto simp: post_def flow_post_def split: option.splits flow.splits)

lemma iter_post_mono:
  assumes "iter_post C N R T m"
    and "\<And>s. C s \<Longrightarrow> C' s" "\<And>s. N s \<Longrightarrow> N' s" "\<And>s. R s \<Longrightarrow> R' s" "\<And>s. T s \<Longrightarrow> T' s"
  shows "iter_post C' N' R' T' m"
  using assms by (auto simp: iter_post_def flow_post_def split: option.splits iter.splits flow.splits)

lemma post_then_do:
  assumes "post M R T m" and "\<And>s. M s \<Longrightarrow> post N R T (k s)"
  shows "post N R T (then_do m k)"
proof (cases m)
  case (Some f)
  with assms show ?thesis by (cases f) simp_all
qed simp

lemma iter_post_in_body:
  assumes "post M R T m" and "\<And>s. M s \<Longrightarrow> iter_post C N R T (k s)"
  shows "iter_post C N R T (in_body m k)"
proof (cases m)
  case (Some f)
  with assms show ?thesis by (cases f) simp_all
qed simp

lemma iter_post_Stop: "iter_post C N R T (map_option Stop m) = post N R T m"
  by (cases m) (simp_all add: iter_post_def post_def)

text \<open>The loop rule: an invariant kept by every round that continues.\<close>

lemma loop_post:
  assumes body: "\<And>s. I s \<Longrightarrow> iter_post I N R T (body s)" and init: "I s"
  shows "post N R T (loop body s)"
proof (cases "loop body s")
  case (Some f)
  have "body = body \<longrightarrow> I s \<longrightarrow> flow_post N R T f"
  proof (rule loop.raw_induct [where P = "\<lambda>b s f. b = body \<longrightarrow> I s \<longrightarrow> flow_post N R T f",
        OF _ Some], intro impI)
    fix lp b s f
    assume IH: "\<And>s b f. lp s b = Some f \<Longrightarrow> s = body \<longrightarrow> I b \<longrightarrow> flow_post N R T f"
      and eq: "Option.bind (b s) (\<lambda>i. case i of Continue s' \<Rightarrow> lp b s' | Stop f \<Rightarrow> Some f) = Some f"
      and b: "b = body" and "I s"
    from body [OF \<open>I s\<close>] eq IH show "flow_post N R T f"
      by (cases "body s") (auto simp: b iter_post_def split: iter.splits)
  qed
  with init Some show ?thesis by (simp add: post_def)
qed simp

text \<open>
  The rounds a loop makes: the states it passes through, each at the start of a round. The loop rule with
  an invariant that only the rounds the loop really makes have to keep; from the start of any of its rounds
  the loop goes on as a loop of its own.
\<close>

inductive makes_round :: "('s \<Rightarrow> 's iter option) \<Rightarrow> 's \<Rightarrow> 's \<Rightarrow> bool" for body s where
  first_round: "makes_round body s s"
| later_round: "makes_round body s s' \<Longrightarrow> body s' = Some (Continue s'') \<Longrightarrow> makes_round body s s''"

lemma loop_post_rounds:
  assumes "\<And>s'. makes_round body s s' \<Longrightarrow> I s' \<Longrightarrow> iter_post I N R T (body s')" and "I s"
  shows "post N R T (loop body s)"
proof (rule loop_post [where I = "\<lambda>s'. makes_round body s s' \<and> I s'"])
  fix s' assume s': "makes_round body s s' \<and> I s'"
  then have "iter_post I N R T (body s')" using assms(1) by blast
  moreover have "makes_round body s s''" if "body s' = Some (Continue s'')" for s''
    using s' that by (blast intro: later_round)
  ultimately show "iter_post (\<lambda>s'. makes_round body s s' \<and> I s') N R T (body s')"
    by (auto simp: iter_post_def split: option.split iter.split)
qed (simp add: assms(2) first_round)

lemma rounds_keep:
  assumes "makes_round body s s'" and round: "\<And>s. I s \<Longrightarrow> iter_post I N R T (body s)" and "I s"
  shows "I s'"
  using assms(1)
proof induction
  case (later_round s' s'')
  from round [OF later_round.IH] later_round.hyps(2) show ?case by simp
qed (rule assms(3))

lemma loop_from_round: "makes_round body s s' \<Longrightarrow> loop body s = loop body s'"
  by (induction rule: makes_round.induct) (simp_all add: loop_Continue)

subsection \<open>Termination and divergence\<close>

definition returns :: "'s flow option \<Rightarrow> bool" where
  "returns m \<longleftrightarrow> m \<noteq> None"

lemma returns_simps [simp]: "returns (Some f)" "\<not> returns None"
  by (simp_all add: returns_def)

lemma returns_then_do:
  assumes "returns m" and "post P Q U m" and "\<And>s. P s \<Longrightarrow> returns (k s)"
  shows "returns (then_do m k)"
  using assms
  by (auto simp: returns_def then_do_def post_def flow_post_def split: flow.splits)

lemma loop_returns_wf:
  assumes "wf r" and body: "\<And>s. I s \<Longrightarrow> \<exists>i. body s = Some i \<and> (\<forall>s'. i = Continue s' \<longrightarrow> I s' \<and> (s', s) \<in> r)"
    and "I s"
  shows "returns (loop body s)"
  using \<open>wf r\<close> \<open>I s\<close>
proof (induction s rule: wf_induct_rule)
  case (less s)
  from body [OF less.prems] obtain i where i: "body s = Some i"
    and next_round: "\<And>s'. i = Continue s' \<Longrightarrow> I s' \<and> (s', s) \<in> r" by blast
  show ?case
  proof (cases i)
    case (Continue s')
    with less.IH next_round have "returns (loop body s')" by blast
    with i Continue show ?thesis by (simp add: loop_Continue)
  next
    case (Stop f)
    with i show ?thesis by (simp add: loop_Stop)
  qed
qed

lemma loop_returns:
  fixes m :: "'s \<Rightarrow> nat"
  assumes "\<And>s. I s \<Longrightarrow> \<exists>i. body s = Some i \<and> (\<forall>s'. i = Continue s' \<longrightarrow> I s' \<and> m s' < m s)" and "I s"
  shows "returns (loop body s)"
  by (rule loop_returns_wf [OF wf_measure [of m], where I = I]) (use assms in simp_all)

lemma loop_diverges:
  assumes body: "\<And>s. I s \<Longrightarrow> \<exists>s'. body s = Some (Continue s') \<and> I s'" and "I s"
  shows "loop body s = None"
proof (rule ccontr)
  assume "loop body s \<noteq> None"
  then obtain f where f: "loop body s = Some f" by auto
  have "body = body \<longrightarrow> \<not> I s"
  proof (rule loop.raw_induct [where P = "\<lambda>b s f. b = body \<longrightarrow> \<not> I s", OF _ f], intro impI notI)
    fix lp b s f
    assume IH: "\<And>s b f. lp s b = Some f \<Longrightarrow> s = body \<longrightarrow> \<not> I b"
      and eq: "Option.bind (b s) (\<lambda>i. case i of Continue s' \<Rightarrow> lp b s' | Stop f \<Rightarrow> Some f) = Some f"
      and b: "b = body" and "I s"
    from body [OF \<open>I s\<close>] obtain s' where "body s = Some (Continue s')" "I s'" by blast
    with eq b IH show False by auto
  qed
  with \<open>I s\<close> show False by simp
qed

subsection \<open>Views of the state\<close>

text \<open>
  A block that commutes with a map of the state does so through sequencing and loops: the loop of the
  mapped state makes the mapped steps, so it stops exactly when the other does.
\<close>

abbreviation flow_map :: "('s \<Rightarrow> 't) \<Rightarrow> 's flow option \<Rightarrow> 't flow option" where
  "flow_map h \<equiv> map_option (map_flow h)"

abbreviation iter_map :: "('s \<Rightarrow> 't) \<Rightarrow> 's iter option \<Rightarrow> 't iter option" where
  "iter_map h \<equiv> map_option (map_iter h)"

lemma then_do_map:
  assumes "\<And>s. k' (h s) = flow_map h (k s)"
  shows "then_do (flow_map h m) k' = flow_map h (then_do m k)"
proof (cases m)
  case (Some f)
  with assms show ?thesis by (cases f) simp_all
qed simp

lemma in_body_map:
  assumes "\<And>s. k' (h s) = iter_map h (k s)"
  shows "in_body (flow_map h m) k' = iter_map h (in_body m k)"
proof (cases m)
  case (Some f)
  with assms show ?thesis by (cases f) simp_all
qed simp

lemma loop_map_Some:
  assumes round: "\<And>s. body' (h s) = iter_map h (body s)" and "loop body s = Some f"
  shows "loop body' (h s) = Some (map_flow h f)"
proof -
  have "body = body \<longrightarrow> loop body' (h s) = Some (map_flow h f)"
  proof (rule loop.raw_induct [where P = "\<lambda>b s f. b = body \<longrightarrow> loop body' (h s) = Some (map_flow h f)",
        OF _ assms(2)], intro impI)
    fix lp b s f
    assume IH: "\<And>b s f. lp b s = Some f \<Longrightarrow> b = body \<longrightarrow> loop body' (h s) = Some (map_flow h f)"
      and eq: "Option.bind (b s) (\<lambda>i. case i of Continue s' \<Rightarrow> lp b s' | Stop f \<Rightarrow> Some f) = Some f"
      and b: "b = body"
    from eq obtain i where i: "body s = Some i" by (cases "body s") (auto simp: b)
    then show "loop body' (h s) = Some (map_flow h f)"
      using eq b IH round [of s] by (cases i) (simp_all add: loop_Continue loop_Stop)
  qed
  then show ?thesis by simp
qed

lemma loop_map_returns:
  assumes round: "\<And>s. body' (h s) = iter_map h (body s)" and "loop body' t = Some f" and "t = h s"
  shows "loop body s \<noteq> None"
proof -
  have "body' = body' \<longrightarrow> (\<forall>s. t = h s \<longrightarrow> loop body s \<noteq> None)"
  proof (rule loop.raw_induct [where P = "\<lambda>b t f. b = body' \<longrightarrow> (\<forall>s. t = h s \<longrightarrow> loop body s \<noteq> None)",
        OF _ assms(2)], intro impI allI)
    fix lp b t f s
    assume IH: "\<And>b t f. lp b t = Some f \<Longrightarrow> b = body' \<longrightarrow> (\<forall>s. t = h s \<longrightarrow> loop body s \<noteq> None)"
      and eq: "Option.bind (b t) (\<lambda>i. case i of Continue s' \<Rightarrow> lp b s' | Stop f \<Rightarrow> Some f) = Some f"
      and b: "b = body'" and t: "t = h s"
    obtain i where i: "body s = Some i" using eq round [of s] by (cases "body s") (auto simp: b t)
    then show "loop body s \<noteq> None"
      using eq IH round [of s] by (cases i) (auto simp: b t loop_Continue loop_Stop)
  qed
  with assms(3) show ?thesis by simp
qed

lemma loop_map:
  assumes "\<And>s. body' (h s) = iter_map h (body s)"
  shows "loop body' (h s) = flow_map h (loop body s)"
proof (cases "loop body s")
  case None
  have "loop body' (h s) \<noteq> Some f" for f using loop_map_returns [where body' = body' and body = body and h = h and t = "h s", OF assms] None by blast
  then have "loop body' (h s) = None" by (cases "loop body' (h s)") auto
  with None show ?thesis by simp
next
  case (Some f)
  with loop_map_Some [where body' = body' and body = body and h = h, OF assms] show ?thesis by simp
qed

section \<open>Decimal numbers\<close>

text \<open>\<open>std::to_string\<close> of a non-negative number, and the reading of a digit string.\<close>

definition digit :: "nat \<Rightarrow> char" where
  "digit d = char_of (48 + d)"

definition is_digit :: "char \<Rightarrow> bool" where
  "is_digit c \<longleftrightarrow> 48 \<le> (of_char c :: nat) \<and> (of_char c :: nat) \<le> 57"

definition digit_val :: "char \<Rightarrow> nat" where
  "digit_val c = of_char c - 48"

fun dec :: "nat \<Rightarrow> string" where
  "dec n = (if n < 10 then [digit n] else dec (n div 10) @ [digit (n mod 10)])"

declare dec.simps [simp del]

fun undec :: "nat \<Rightarrow> string \<Rightarrow> nat" where
  "undec acc [] = acc"
| "undec acc (c # cs) = undec (acc * 10 + digit_val c) cs"

lemma of_char_digit: "d < 10 \<Longrightarrow> (of_char (digit d) :: nat) = 48 + d"
  by (simp add: digit_def)

lemma is_digit_digit [simp]: "d < 10 \<Longrightarrow> is_digit (digit d)"
  by (simp add: is_digit_def of_char_digit)

lemma digit_val_digit [simp]: "d < 10 \<Longrightarrow> digit_val (digit d) = d"
  by (simp add: digit_val_def of_char_digit)

lemma undec_append [simp]: "undec acc (xs @ ys) = undec (undec acc xs) ys"
  by (induction xs arbitrary: acc) auto

lemma dec_digits: "list_all is_digit (dec n)"
proof (induction n rule: dec.induct)
  case (1 n)
  then show ?case by (subst dec.simps) auto
qed

lemma dec_nonempty [simp]: "dec n \<noteq> []"
  by (subst dec.simps) simp

lemma undec_dec: "undec 0 (dec n) = n"
proof (induction n rule: dec.induct)
  case (1 n)
  show ?case
  proof (cases "n < 10")
    case True
    then show ?thesis by (subst dec.simps) simp
  next
    case False
    with 1 have "undec 0 (dec (n div 10)) = n div 10" by simp
    with False show ?thesis by (subst dec.simps) simp
  qed
qed

lemma dec_inject: "dec m = dec n \<longleftrightarrow> m = n"
  by (metis undec_dec)

text \<open>White space of the C locale (\<open>isspace\<close>).\<close>

definition is_space :: "char \<Rightarrow> bool" where
  "is_space c \<longleftrightarrow> c = CHR '' '' \<or> (9 \<le> (of_char c :: nat) \<and> (of_char c :: nat) \<le> 13)"

text \<open>Fallible code: \<open>Inl\<close> is the error that stops it.\<close>

definition bindE :: "'e + 'a \<Rightarrow> ('a \<Rightarrow> 'e + 'b) \<Rightarrow> 'e + 'b" where
  "bindE m k = (case m of Inl e \<Rightarrow> Inl e | Inr a \<Rightarrow> k a)"

lemma bindE_simps [simp]: "bindE (Inl e) k = Inl e" "bindE (Inr a) k = k a"
  by (simp_all add: bindE_def)

lemma bindE_Inr: "bindE m k = Inr b \<longleftrightarrow> (\<exists>a. m = Inr a \<and> k a = Inr b)"
  by (cases m) simp_all

lemma bindE_Inl: "bindE m k = Inl e \<longleftrightarrow> m = Inl e \<or> (\<exists>a. m = Inr a \<and> k a = Inl e)"
  by (cases m) simp_all

section \<open>Little-endian bytes\<close>

definition le16 :: "u16 \<Rightarrow> byte list" where
  "le16 w = [ucast w, ucast (drop_bit 8 w)]"

definition le32 :: "u32 \<Rightarrow> byte list" where
  "le32 w = [ucast w, ucast (drop_bit 8 w), ucast (drop_bit 16 w), ucast (drop_bit 24 w)]"

definition of_le :: "byte list \<Rightarrow> nat" where
  "of_le bs = foldr (\<lambda>b acc. unat b + 256 * acc) bs 0"

lemma length_le [simp]: "length (le16 v) = 2" "length (le32 w) = 4"
  by (simp_all add: le16_def le32_def)

lemma unat_byte_of: "unat (ucast (drop_bit k w :: 'a::len word) :: byte) = unat w div 2 ^ k mod 256"
proof -
  have "unat (drop_bit k w) = unat w div 2 ^ k"
    unfolding unat_drop_bit_eq by (rule drop_bit_eq_div)
  then show ?thesis by (simp only: unsigned_ucast_eq take_bit_eq_mod) (simp only: len_num1 len_num0 len_bit0 len_bit1, simp)
qed

lemma unat_byte_of_0: "unat (ucast (w :: 'a::len word) :: byte) = unat w mod 256"
  using unat_byte_of [of 0 w] by simp

lemma of_le_le16 [simp]: "of_le (le16 w) = unat w"
proof -
  have "unat w < 65536" by (rule order_less_le_trans [OF unsigned_less]) simp
  then have "unat w div 2 ^ 8 mod 256 = unat w div 256" by simp
  then show ?thesis
    unfolding of_le_def le16_def foldr.simps o_apply unat_byte_of
    unfolding unat_byte_of_0 by simp
qed

lemma horner_256:
  fixes n :: nat
  assumes "n = 256 * q1 + a" "q1 = 256 * q2 + b" "q2 = 256 * d + c"
  shows "a + 256 * (b + 256 * (c + 256 * d)) = n"
  using assms by simp

lemma bytes_of_nat:
  fixes n :: nat
  assumes "n < 4294967296"
  shows "n mod 256 + 256 * (n div 2 ^ 8 mod 256 + 256 * (n div 2 ^ 16 mod 256
    + 256 * (n div 2 ^ 24 mod 256))) = n"
proof (rule horner_256)
  show "n = 256 * (n div 2 ^ 8) + n mod 256" by simp
  show "n div 2 ^ 8 = 256 * (n div 2 ^ 16) + n div 2 ^ 8 mod 256"
    using div_mult2_eq [of n 256 256] by simp
  show "n div 2 ^ 16 = 256 * (n div 2 ^ 24 mod 256) + n div 2 ^ 16 mod 256"
    using div_mult2_eq [of n 65536 256] assms by simp
qed

lemma of_le_le32 [simp]: "of_le (le32 w) = unat w"
proof -
  have "unat w < 4294967296" by (rule order_less_le_trans [OF unsigned_less]) simp
  from bytes_of_nat [OF this] show ?thesis
    unfolding of_le_def le32_def foldr.simps o_apply unat_byte_of
    unfolding unat_byte_of_0 by (simp only: id_apply mult_0_right add_0_right)
qed
section \<open>JSON objects\<close>

text \<open>
  The part of \<open>nlohmann::json\<close> the sources use: an object filled by \<open>j[key] = value\<close>, as an
  association list. Its text (\<open>dump\<close>) belongs to the library and stays a parameter.
\<close>

datatype json = JStr string | JInt int | JBool bool

type_synonym json_obj = "(string \<times> json) list"

abbreviation json_set :: "string \<Rightarrow> json \<Rightarrow> json_obj \<Rightarrow> json_obj" where
  "json_set k v j \<equiv> AList.update k v j"

abbreviation json_get :: "json_obj \<Rightarrow> string \<Rightarrow> json option" where
  "json_get j k \<equiv> map_of j k"

end
