(* ===== verification/Args.thy ===== *)
theory Args
  imports Prelude
begin

text \<open>
  \<open>src/args.h\<close> and \<open>src/args.cpp\<close>: the configuration, its redacted printing, and the command-line
  parser. The option library (CLI11) is the parameter \<open>app_parse\<close>: given the arguments and the
  initial values of the bound variables it either stops with the exit status of \<open>app.exit\<close> or
  yields the values after parsing, with the number of occurrences of \<open>--sip-port\<close>. The process
  environment is the parameter \<open>env\<close> (\<open>getenv\<close>). \<open>std::exit\<close> and an uncaught exception are values
  of an error type.
\<close>

section \<open>Configuration\<close>

datatype transport = UDP | TCP | TLS

datatype mode = CLI | SERVER

record audio_source =
  source_type :: string
  path_or_text :: string

record config =
  mode :: mode
  sip_host :: string
  sip_port :: u16
  sip_transport :: transport
  sip_user :: string
  sip_pass :: string
  destination :: string
  caller_id :: string
  answer_delay_s :: u32
  answer_timeout_s :: u32
  silence_s :: u32
  record_flag :: bool
  record_dir :: string
  grpc_listen :: string
  idle_shutdown_s :: u32
  log_level :: int
  silence_threshold :: int
  audio_source :: audio_source

definition Config :: config where
  "Config = \<lparr>mode = CLI, sip_host = '''', sip_port = 5060, sip_transport = UDP, sip_user = '''',
     sip_pass = '''', destination = '''', caller_id = '''', answer_delay_s = 1,
     answer_timeout_s = 30, silence_s = 10, record_flag = True, record_dir = ''./recordings'',
     grpc_listen = ''0.0.0.0:50051'', idle_shutdown_s = 300, log_level = 3, silence_threshold = 10,
     audio_source = \<lparr>source_type = '''', path_or_text = ''''\<rparr>\<rparr>"

definition transport_name :: "transport \<Rightarrow> string" where
  "transport_name t = (case t of UDP \<Rightarrow> ''udp'' | TCP \<Rightarrow> ''tcp'' | TLS \<Rightarrow> ''tls'')"

text \<open>The part of a path after its last slash (\<open>rfind('/')\<close> and \<open>substr\<close>).\<close>

definition basename :: "string \<Rightarrow> string" where
  "basename d = (if CHR ''/'' \<in> set d then rev (takeWhile (\<lambda>c. c \<noteq> CHR ''/'') (rev d)) else d)"

definition toString_obj :: "config \<Rightarrow> json_obj" where
  "toString_obj c =
    (let j = json_set ''mode'' (JStr (if mode c = CLI then ''cli'' else ''server'')) [];
         j = json_set ''sip_host'' (JStr (sip_host c)) j;
         j = json_set ''sip_port'' (JInt (uint (sip_port c))) j;
         j = json_set ''sip_transport'' (JStr (if sip_transport c = UDP then ''udp''
               else if sip_transport c = TCP then ''tcp'' else ''tls'')) j;
         j = json_set ''sip_user'' (JStr (sip_user c)) j;
         j = json_set ''sip_pass'' (JStr ''[REDACTED]'') j;
         j = json_set ''destination'' (JStr (destination c)) j;
         j = json_set ''caller_id'' (JStr (caller_id c)) j;
         j = json_set ''answer_delay_s'' (JInt (uint (answer_delay_s c))) j;
         j = json_set ''answer_timeout_s'' (JInt (uint (answer_timeout_s c))) j;
         j = json_set ''silence_s'' (JInt (uint (silence_s c))) j;
         j = json_set ''record'' (JBool (record_flag c)) j;
         j = json_set ''record_dir'' (JStr (record_dir c)) j;
         j = json_set ''grpc_listen'' (JStr (grpc_listen c)) j;
         j = json_set ''idle_shutdown_s'' (JInt (uint (idle_shutdown_s c))) j;
         j = json_set ''log_level'' (JInt (log_level c)) j;
         j = json_set ''silence_threshold'' (JInt (silence_threshold c)) j
     in if source_type (audio_source c) \<noteq> [] then
          json_set ''audio_source'' (JStr (basename (path_or_text (audio_source c))
            @ '' ('' @ source_type (audio_source c) @ '')'')) j
        else json_set ''audio_source'' (JStr ''(none)'') j)"

definition toString :: "(json_obj \<Rightarrow> string) \<Rightarrow> config \<Rightarrow> string" where
  "toString dump c = dump (toString_obj c)"

section \<open>Environment and numbers\<close>

definition envOr :: "(string \<Rightarrow> string option) \<Rightarrow> string \<Rightarrow> string \<Rightarrow> string" where
  "envOr env name fallback = (case env name of Some v \<Rightarrow> v | None \<Rightarrow> fallback)"

datatype cpp_exception = Invalid_Argument | Out_Of_Range

text \<open>
  \<open>std::stoi\<close> in base 10: leading white space, an optional sign, the longest run of digits; what
  follows is ignored. No digit is \<open>std::invalid_argument\<close>, a value outside \<open>int\<close> is
  \<open>std::out_of_range\<close>.
\<close>

definition stoi :: "string \<Rightarrow> cpp_exception + int" where
  "stoi s = (let r = dropWhile is_space s;
       neg = (r \<noteq> [] \<and> hd r = CHR ''-'');
       ds = takeWhile is_digit (if r \<noteq> [] \<and> hd r \<in> {CHR ''-'', CHR ''+''} then tl r else r);
       v = (if neg then - int (undec 0 ds) else int (undec 0 ds))
     in if ds = [] then Inl Invalid_Argument
        else if v < - (2 ^ 31) \<or> 2 ^ 31 \<le> v then Inl Out_Of_Range else Inr v)"

section \<open>The parser\<close>

datatype parse_error = Exit int "string list" | Uncaught cpp_exception

record cli_vals =
  cli_mode :: string
  cli_sip_host :: string
  cli_sip_port :: int
  cli_sip_port_count :: nat
  cli_sip_transport :: string
  cli_sip_user :: string
  cli_dest :: string
  cli_caller_id :: string
  cli_answer_delay :: u32
  cli_answer_timeout :: u32
  cli_silence_timeout :: u32
  cli_record :: bool
  cli_record_dir :: string
  cli_grpc_listen :: string
  cli_idle_shutdown :: u32
  cli_log_level :: int
  cli_silence_threshold :: int

text \<open>The variables the options are bound to, before parsing.\<close>

definition cli_defaults :: cli_vals where
  "cli_defaults = \<lparr>cli_mode = ''cli'', cli_sip_host = '''', cli_sip_port = 5060, cli_sip_port_count = 0,
     cli_sip_transport = ''udp'', cli_sip_user = '''', cli_dest = '''',
     cli_caller_id = caller_id Config, cli_answer_delay = answer_delay_s Config,
     cli_answer_timeout = answer_timeout_s Config, cli_silence_timeout = silence_s Config,
     cli_record = record_flag Config, cli_record_dir = record_dir Config,
     cli_grpc_listen = grpc_listen Config, cli_idle_shutdown = idle_shutdown_s Config,
     cli_log_level = log_level Config, cli_silence_threshold = 10\<rparr>"

definition en_dash :: string where
  "en_dash = [CHR 0xE2, CHR 0x80, CHR 0x93]"

definition quoted :: "string \<Rightarrow> string" where
  "quoted s = CHR 0x27 # s @ [CHR 0x27]"

definition parse_mode :: "string \<Rightarrow> parse_error + mode" where
  "parse_mode mode_str =
    (if mode_str = ''server'' then Inr SERVER
     else if mode_str = ''cli'' then Inr CLI
     else Inl (Exit 2 [''error: --mode must be '' @ quoted ''cli'' @ '' or '' @ quoted ''server''
            @ '' (got '' @ quoted mode_str @ '')'']))"

definition required_errors :: "string \<Rightarrow> string \<Rightarrow> string \<Rightarrow> string \<Rightarrow> string list" where
  "required_errors host user pass dest =
     (if host = [] then [''error: --sip-host (or AGENT_SIP_HOST) is required in cli mode''] else [])
   @ (if user = [] then [''error: --sip-user (or AGENT_SIP_USER) is required in cli mode''] else [])
   @ (if pass = [] then [''error: AGENT_SIP_PASS is required in cli mode''] else [])
   @ (if dest = [] then [''error: --dest (or AGENT_DEST) is required in cli mode''] else [])"

definition parse_transport :: "string \<Rightarrow> parse_error + transport" where
  "parse_transport t =
    (if t = ''udp'' then Inr UDP else if t = ''tcp'' then Inr TCP else if t = ''tls'' then Inr TLS
     else Inl (Exit 2 [''error: --sip-transport must be udp, tcp, or tls'']))"

definition parse_audio :: "string \<Rightarrow> parse_error + audio_source" where
  "parse_audio stdin_line =
    (if stdin_line \<noteq> [] then
       if take 4 stdin_line = ''wav:'' then
         Inr \<lparr>source_type = ''wav'', path_or_text = drop 4 stdin_line\<rparr>
       else if take 5 stdin_line = ''text:'' then
         Inr \<lparr>source_type = ''text'', path_or_text = drop 5 stdin_line\<rparr>
       else Inl (Exit 2 [''error: invalid audio source; must start with ''
              @ quoted ''wav:'' @ '' or '' @ quoted ''text:''])
     else Inr (audio_source Config))"

definition check :: "bool \<Rightarrow> string list \<Rightarrow> parse_error + unit" where
  "check ok msgs = (if ok then Inr () else Inl (Exit 2 msgs))"

definition env_port :: "(string \<Rightarrow> string option) \<Rightarrow> cli_vals \<Rightarrow> parse_error + int" where
  "env_port env v =
    (if cli_sip_port_count v = 0 then
       (case env ''AGENT_SIP_PORT'' of
          Some port_env \<Rightarrow> (case stoi port_env of Inl e \<Rightarrow> Inl (Uncaught e) | Inr p \<Rightarrow> Inr p)
        | None \<Rightarrow> Inr (cli_sip_port v))
     else Inr (cli_sip_port v))"

definition or_env :: "(string \<Rightarrow> string option) \<Rightarrow> string \<Rightarrow> string \<Rightarrow> string" where
  "or_env env s name = (if s = [] then envOr env name '''' else s)"

definition parse ::
  "(string list \<Rightarrow> cli_vals \<Rightarrow> int + cli_vals) \<Rightarrow> (string \<Rightarrow> string option)
    \<Rightarrow> string list \<Rightarrow> string \<Rightarrow> parse_error + config" where
  "parse app_parse env argv stdin_line =
    bindE (case app_parse argv cli_defaults of Inl code \<Rightarrow> Inl (Exit code []) | Inr v \<Rightarrow> Inr v) (\<lambda>v.
    bindE (parse_mode (cli_mode v)) (\<lambda>m.
    let host = or_env env (cli_sip_host v) ''AGENT_SIP_HOST'';
        user = or_env env (cli_sip_user v) ''AGENT_SIP_USER'';
        pass = or_env env '''' ''AGENT_SIP_PASS'';
        dest = or_env env (cli_dest v) ''AGENT_DEST'' in
    bindE (env_port env v) (\<lambda>port.
    bindE (check (m = CLI \<longrightarrow> required_errors host user pass dest = [])
             (required_errors host user pass dest)) (\<lambda>_.
    bindE (check (\<not> (port < 1 \<or> port > 65535))
             [''error: --sip-port must be 1'' @ en_dash @ ''65535'']) (\<lambda>_.
    bindE (parse_transport (cli_sip_transport v)) (\<lambda>t.
    bindE (check (\<not> (cli_log_level v < 0 \<or> cli_log_level v > 5))
             [''error: --log-level must be 0'' @ en_dash @ ''5'']) (\<lambda>_.
    bindE (parse_audio stdin_line) (\<lambda>src.
    Inr \<lparr>mode = m, sip_host = host, sip_port = word_of_int port, sip_transport = t, sip_user = user,
         sip_pass = pass, destination = dest, caller_id = cli_caller_id v,
         answer_delay_s = cli_answer_delay v, answer_timeout_s = cli_answer_timeout v,
         silence_s = cli_silence_timeout v, record_flag = cli_record v,
         record_dir = cli_record_dir v, grpc_listen = cli_grpc_listen v,
         idle_shutdown_s = cli_idle_shutdown v, log_level = cli_log_level v,
         silence_threshold = cli_silence_threshold v, audio_source = src\<rparr>))))))))"

section \<open>Properties\<close>

subsection \<open>Printing hides the password\<close>

text \<open>
  The printed configuration does not depend on the password: two configurations that differ only
  in it print the same text, whatever the JSON library does, and the member says so.
\<close>

lemma toString_redacts_password:
  "toString dump (c\<lparr>sip_pass := p\<rparr>) = toString dump c
   \<and> json_get (toString_obj c) ''sip_pass'' = Some (JStr ''[REDACTED]'')"
proof
  show "toString dump (c\<lparr>sip_pass := p\<rparr>) = toString dump c"
    by (cases c) (simp only: toString_def toString_obj_def config.select_convs config.update_convs)
  show "json_get (toString_obj c) ''sip_pass'' = Some (JStr ''[REDACTED]'')"
    unfolding toString_obj_def Let_def by (simp add: update_conv' del: AList.update.simps)
qed

lemma basename_no_slash: "CHR ''/'' \<notin> set (basename d)"
proof (cases "CHR ''/'' \<in> set d")
  case True
  have "CHR ''/'' \<notin> set (takeWhile (\<lambda>c. c \<noteq> CHR ''/'') (rev d))"
    by (auto dest: set_takeWhileD)
  with True show ?thesis by (simp add: basename_def)
qed (simp add: basename_def)

lemma basename_of_path: "CHR ''/'' \<notin> set f \<Longrightarrow> basename (dir @ ''/'' @ f) = f"
  by (simp add: basename_def takeWhile_append)

subsection \<open>Numbers\<close>

lemma digit_not_space: "is_digit c \<Longrightarrow> \<not> is_space c"
  by (auto simp: is_digit_def is_space_def)

lemma digit_not_sign: "is_digit c \<Longrightarrow> c \<noteq> CHR ''-'' \<and> c \<noteq> CHR ''+''"
  by (auto simp: is_digit_def)

lemma stoi_digits:
  assumes "ds \<noteq> []" and "list_all is_digit ds" and "r \<noteq> [] \<Longrightarrow> \<not> is_digit (hd r)"
    and "list_all is_space sp"
  shows "stoi (sp @ ds @ r) = (if undec 0 ds < 2 ^ 31 then Inr (int (undec 0 ds)) else Inl Out_Of_Range)"
proof -
  obtain d ds' where ds: "ds = d # ds'" using assms(1) by (cases ds) auto
  with assms(2) have d: "\<not> is_space d" "d \<noteq> CHR ''-''" "d \<noteq> CHR ''+''"
    using digit_not_space digit_not_sign by auto
  have "dropWhile is_space (sp @ ds @ r) = ds @ r"
    using assms(4) d(1) ds by (simp add: dropWhile_append list_all_iff)
  moreover have "takeWhile is_digit (ds @ r) = ds"
    using assms(2,3) by (cases r) (simp_all add: list_all_iff takeWhile_append)
  ultimately show ?thesis using d ds
    by (simp add: stoi_def Let_def del: takeWhile.simps)
qed

text \<open>
  Reading a port from the environment inverts printing one: every number below 2^31 that
  \<open>std::to_string\<close> wrote is read back exactly, with leading spaces skipped and trailing text ignored.
\<close>

lemma stoi_to_string:
  assumes "n < 2 ^ 31" and "list_all is_space sp" and "r = [] \<or> \<not> is_digit (hd r)"
  shows "stoi (sp @ dec n @ r) = Inr (int n)"
  using stoi_digits [of "dec n" r sp] assms dec_digits [of n] by (auto simp: undec_dec)

subsection \<open>The parsed configuration\<close>

lemma check_Inr [simp]: "check ok msgs = Inr u \<longleftrightarrow> ok"
  by (simp add: check_def)

lemma check_Inl [simp]: "check ok msgs = Inl e \<longleftrightarrow> \<not> ok \<and> e = Exit 2 msgs"
  by (auto simp: check_def)

lemma parse_audio_Inr:
  "parse_audio l = Inr a \<longleftrightarrow>
    (l = '''' \<and> a = \<lparr>source_type = '''', path_or_text = ''''\<rparr>)
    \<or> (\<exists>r. l = ''wav:'' @ r \<and> a = \<lparr>source_type = ''wav'', path_or_text = r\<rparr>)
    \<or> (\<exists>r. l = ''text:'' @ r \<and> a = \<lparr>source_type = ''text'', path_or_text = r\<rparr>)"
proof -
  have pre: "take (length p) l = p \<longleftrightarrow> (\<exists>r. l = p @ r)" for p :: string
    by (metis append_eq_conv_conj append_take_drop_id)
  have wav: "take 4 l = ''wav:'' \<longleftrightarrow> (\<exists>r. l = ''wav:'' @ r)" using pre [of "''wav:''"] by (simp add: numeral_eq_Suc)
  have tex: "take 5 l = ''text:'' \<longleftrightarrow> (\<exists>r. l = ''text:'' @ r)" using pre [of "''text:''"] by (simp add: numeral_eq_Suc)
  consider "l = ''''" | r where "l = ''wav:'' @ r" | r where "l = ''text:'' @ r"
    | "l \<noteq> ''''" "\<nexists>r. l = ''wav:'' @ r" "\<nexists>r. l = ''text:'' @ r" by blast
  then show ?thesis
  proof cases
    case 4
    then show ?thesis by (simp add: parse_audio_def wav tex)
  qed (auto simp: parse_audio_def Config_def)
qed

text \<open>A successful parse, unfolded once for all properties of the result.\<close>

lemma parse_Inr:
  assumes "parse app_parse env argv l = Inr c"
  obtains v where "app_parse argv cli_defaults = Inr v"
    and "parse_mode (cli_mode v) = Inr (mode c)"
    and "sip_host c = or_env env (cli_sip_host v) ''AGENT_SIP_HOST''"
    and "sip_user c = or_env env (cli_sip_user v) ''AGENT_SIP_USER''"
    and "sip_pass c = envOr env ''AGENT_SIP_PASS'' ''''"
    and "destination c = or_env env (cli_dest v) ''AGENT_DEST''"
    and "mode c = CLI \<Longrightarrow> required_errors (sip_host c) (sip_user c) (sip_pass c) (destination c) = []"
    and "env_port env v = Inr (uint (sip_port c))" and "1 \<le> uint (sip_port c)"
    and "parse_transport (cli_sip_transport v) = Inr (sip_transport c)"
    and "log_level c = cli_log_level v" and "0 \<le> log_level c" and "log_level c \<le> 5"
    and "parse_audio l = Inr (audio_source c)"
proof -
  from assms obtain v p where v: "app_parse argv cli_defaults = Inr v"
    and m: "parse_mode (cli_mode v) = Inr (mode c)"
    and p: "env_port env v = Inr p" "1 \<le> p" "p \<le> 65535" "sip_port c = word_of_int p"
    and rest: "sip_host c = or_env env (cli_sip_host v) ''AGENT_SIP_HOST''"
      "sip_user c = or_env env (cli_sip_user v) ''AGENT_SIP_USER''"
      "sip_pass c = or_env env '''' ''AGENT_SIP_PASS''"
      "destination c = or_env env (cli_dest v) ''AGENT_DEST''"
      "mode c = CLI \<longrightarrow> required_errors (sip_host c) (sip_user c) (sip_pass c) (destination c) = []"
      "parse_transport (cli_sip_transport v) = Inr (sip_transport c)"
      "log_level c = cli_log_level v" "0 \<le> log_level c" "log_level c \<le> 5"
      "parse_audio l = Inr (audio_source c)"
    by (auto simp: parse_def bindE_Inr Let_def split: sum.splits)
  have "uint (sip_port c) = p" using p by (simp add: uint_word_of_int)
  with that v m p rest show thesis by (simp add: or_env_def)
qed

lemma parsed_config:
  assumes "parse app_parse env argv l = Inr c"
  shows "sip_port c \<noteq> 0 \<and> log_level c \<in> {0..5}
    \<and> source_type (audio_source c) \<in> {'''', ''wav'', ''text''}
    \<and> (mode c = SERVER \<or> (sip_host c \<noteq> [] \<and> sip_user c \<noteq> [] \<and> sip_pass c \<noteq> [] \<and> destination c \<noteq> []))"
  using assms
proof (rule parse_Inr)
  fix v
  assume "mode c = CLI \<Longrightarrow> required_errors (sip_host c) (sip_user c) (sip_pass c) (destination c) = []"
    and "1 \<le> uint (sip_port c)" and "0 \<le> log_level c" "log_level c \<le> 5"
    and "parse_audio l = Inr (audio_source c)"
  then show ?thesis
    by (cases "mode c") (auto simp: required_errors_def parse_audio_Inr split: if_splits)
qed

text \<open>
  C34: a configuration that leaves the parser is usable: the port is between 1 and 65535, the log
  level is between 0 and 5, the audio source is absent, a WAV path or a text, and in CLI mode the server,
  the user, the password and the destination are all present.
\<close>

theorem parse_valid:
  assumes "parse app_parse env argv l = Inr c"
  shows "sip_port c \<noteq> 0 \<and> log_level c \<in> {0..5}
    \<and> source_type (audio_source c) \<in> {'''', ''wav'', ''text''}
    \<and> (mode c = SERVER \<or> (sip_host c \<noteq> [] \<and> sip_user c \<noteq> [] \<and> sip_pass c \<noteq> [] \<and> destination c \<noteq> []))"
  using assms by (rule parsed_config)

text \<open>A command line and an environment for the closed instances below.\<close>

definition demo_env :: "string \<Rightarrow> string option" where
  "demo_env = (\<lambda>_. None)(''AGENT_SIP_HOST'' := Some ''env-host'', ''AGENT_SIP_USER'' := Some ''u'',
     ''AGENT_SIP_PASS'' := Some ''p'', ''AGENT_SIP_PORT'' := Some ''5070'')"

definition demo_app :: "string list \<Rightarrow> cli_vals \<Rightarrow> int + cli_vals" where
  "demo_app argv v = (if argv = [''prog'', ''--dest'', ''200''] then Inr (v\<lparr>cli_dest := ''200''\<rparr>) else Inl 106)"

definition demo_config :: config where
  "demo_config = Config\<lparr>sip_host := ''env-host'', sip_user := ''u'', sip_pass := ''p'',
     sip_port := 5070, destination := ''200'', audio_source := \<lparr>source_type = ''wav'', path_or_text = ''/a.wav''\<rparr>\<rparr>"

lemma stoi_5070: "stoi ''5070'' = Inr 5070"
  by (simp add: stoi_def is_space_def is_digit_def digit_val_def)

lemma demo_parse: "parse demo_app demo_env [''prog'', ''--dest'', ''200''] ''wav:/a.wav'' = Inr demo_config"
  by (simp add: parse_def demo_app_def demo_env_def cli_defaults_def parse_mode_def or_env_def envOr_def
      env_port_def stoi_5070 check_def required_errors_def parse_transport_def parse_audio_def
      demo_config_def Config_def)

theorem parse_valid_witness: "sip_port demo_config \<noteq> 0 \<and> sip_host demo_config \<noteq> []"
  using parse_valid [OF demo_parse] by (simp add: demo_config_def Config_def)

text \<open>
  Precedence: a value given on the command line wins over the environment, and the environment
  wins over the default; for the port this is decided by whether the option occurred at all.
\<close>

lemma parse_precedence:
  assumes "parse app_parse env argv l = Inr c" and "app_parse argv cli_defaults = Inr v"
  shows "sip_host c = (if cli_sip_host v \<noteq> [] then cli_sip_host v else envOr env ''AGENT_SIP_HOST'' '''')
    \<and> sip_user c = (if cli_sip_user v \<noteq> [] then cli_sip_user v else envOr env ''AGENT_SIP_USER'' '''')
    \<and> destination c = (if cli_dest v \<noteq> [] then cli_dest v else envOr env ''AGENT_DEST'' '''')
    \<and> Inr (uint (sip_port c)) = (if cli_sip_port_count v > 0 then Inr (cli_sip_port v)
        else case env ''AGENT_SIP_PORT'' of None \<Rightarrow> Inr (cli_sip_port v) | Some s \<Rightarrow> stoi s)"
  using assms(1)
proof (rule parse_Inr)
  fix v'
  assume v': "app_parse argv cli_defaults = Inr v'"
    "sip_host c = or_env env (cli_sip_host v') ''AGENT_SIP_HOST''"
    "sip_user c = or_env env (cli_sip_user v') ''AGENT_SIP_USER''"
    "destination c = or_env env (cli_dest v') ''AGENT_DEST''"
    "env_port env v' = Inr (uint (sip_port c))"
  with assms(2) have "v' = v" by simp
  with v' show ?thesis
    by (auto simp: or_env_def env_port_def split: if_splits option.splits sum.splits)
qed

text \<open>
  The password comes from the environment variable alone: whatever the command line and the
  option library do, the parsed password is \<open>AGENT_SIP_PASS\<close>, or empty where that is not set.
\<close>

lemma parse_password_from_env:
  assumes "parse app_parse env argv l = Inr c"
  shows "sip_pass c = envOr env ''AGENT_SIP_PASS'' ''''"
  using assms by (rule parse_Inr)

text \<open>
  C35: how parsing fails: with the option library's own exit status, with status 2 and at least one
  message, or by the exception of \<open>std::stoi\<close>. The exception needs an \<open>AGENT_SIP_PORT\<close> that is not
  a number in range and no \<open>--sip-port\<close>.
\<close>

theorem parse_failures:
  assumes "parse app_parse env argv l = Inl e"
  shows "(\<exists>code. app_parse argv cli_defaults = Inl code \<and> e = Exit code [])
    \<or> (\<exists>m ms. e = Exit 2 (m # ms))
    \<or> (\<exists>v s x. app_parse argv cli_defaults = Inr v \<and> cli_sip_port_count v = 0
        \<and> env ''AGENT_SIP_PORT'' = Some s \<and> stoi s = Inl x \<and> e = Uncaught x)"
proof -
  have stage: "(\<exists>m ms. e = Exit 2 (m # ms))"
    if "parse_mode x = Inl e \<or> parse_transport y = Inl e \<or> parse_audio z = Inl e
      \<or> (msgs \<noteq> [] \<and> e = Exit 2 msgs)" for x y z msgs
    using that by (auto simp: parse_mode_def parse_transport_def parse_audio_def neq_Nil_conv
        simp del: take.simps split: if_splits)
  have port: "cli_sip_port_count v = 0 \<and> (\<exists>s x. env ''AGENT_SIP_PORT'' = Some s \<and> stoi s = Inl x \<and> e = Uncaught x)"
    if "env_port env v = Inl e" for v
    using that by (auto simp: env_port_def split: if_splits option.splits sum.splits)
  show ?thesis
  proof (cases "app_parse argv cli_defaults")
    case (Inl code)
    with assms show ?thesis by (simp add: parse_def)
  next
    case (Inr v)
    with assms have "(\<exists>x y z msgs. parse_mode x = Inl e \<or> parse_transport y = Inl e \<or> parse_audio z = Inl e
        \<or> (msgs \<noteq> [] \<and> e = Exit 2 msgs)) \<or> env_port env v = Inl e"
      unfolding parse_def Inr Let_def by (simp only: bindE_Inl check_Inl sum.case) blast
    with stage port Inr show ?thesis by blast
  qed
qed

theorem parse_failures_witness:
  "parse demo_app (demo_env(''AGENT_SIP_PORT'' := Some ''sip'')) [''prog'', ''--dest'', ''200''] ''''
     = Inl (Uncaught Invalid_Argument)
   \<and> stoi ''sip'' = Inl Invalid_Argument"
proof -
  have "parse demo_app (demo_env(''AGENT_SIP_PORT'' := Some ''sip'')) [''prog'', ''--dest'', ''200''] ''''
     = Inl (Uncaught Invalid_Argument)"
    by (simp add: parse_def demo_app_def demo_env_def cli_defaults_def parse_mode_def
        env_port_def stoi_def is_space_def is_digit_def)
  with parse_failures [OF this] show ?thesis by (auto simp: demo_env_def)
qed

text \<open>
  The audio source on standard input: an empty line means none, a line \<open>wav:P\<close> the file \<open>P\<close>, a
  line \<open>text:T\<close> the text \<open>T\<close>, verbatim; any other line stops the program with status 2.
\<close>

lemma parse_audio_cases:
  "parse_audio '''' = Inr \<lparr>source_type = '''', path_or_text = ''''\<rparr>
   \<and> parse_audio (''wav:'' @ p) = Inr \<lparr>source_type = ''wav'', path_or_text = p\<rparr>
   \<and> parse_audio (''text:'' @ t) = Inr \<lparr>source_type = ''text'', path_or_text = t\<rparr>
   \<and> ((\<nexists>a. parse_audio l = Inr a) = (l \<noteq> '''' \<and> take 4 l \<noteq> ''wav:'' \<and> take 5 l \<noteq> ''text:''))"
proof (intro conjI)
  show "(\<nexists>a. parse_audio l = Inr a) = (l \<noteq> '''' \<and> take 4 l \<noteq> ''wav:'' \<and> take 5 l \<noteq> ''text:'')"
    unfolding parse_audio_def by (simp only: if_split_eq1) blast
qed (simp_all add: parse_audio_def Config_def)

end
