(* ===== verification/Interfaces.thy ===== *)
theory Interfaces
  imports Prelude
begin

text \<open>
  The interfaces between components, as locales: the operations one side calls, the laws the
  other side keeps, and what follows for every client. Each is interpreted on the model's own
  definitions in the theory of the component that provides them.
\<close>

section \<open>First-in first-out queues\<close>

text \<open>
  Two threads talk through a \<open>std::deque\<close> in this program: PJSIP callbacks push internal events
  for the executor (\<open>SipAgent\<close>), the executor pushes agent events for the RPC thread
  (\<open>ExecuteCall\<close>). One consumer pops single elements, the other swaps the whole queue out.
\<close>

locale queue_base =
  fixes put :: "'e \<Rightarrow> 'q \<Rightarrow> 'q"
    and items :: "'q \<Rightarrow> 'e list"
  assumes items_put: "items (put x q) = items q @ [x]"
begin

lemma items_fold_put: "items (fold put xs q) = items q @ xs"
  by (induction xs arbitrary: q) (simp_all add: items_put)

end

datatype 'e queue_op = Put 'e | Take

fun puts :: "'e queue_op list \<Rightarrow> 'e list" where
  "puts [] = []"
| "puts (Put x # ops) = x # puts ops"
| "puts (Take # ops) = puts ops"

fun serve :: "('e \<Rightarrow> 'q \<Rightarrow> 'q) \<Rightarrow> ('q \<Rightarrow> 'e list \<times> 'q) \<Rightarrow> 'e queue_op list \<Rightarrow> 'q \<Rightarrow> 'e list \<times> 'q" where
  "serve pt tk [] q = ([], q)"
| "serve pt tk (Put x # ops) q = serve pt tk ops (pt x q)"
| "serve pt tk (Take # ops) q =
     (let (xs, q1) = tk q; (ys, q2) = serve pt tk ops q1 in (xs @ ys, q2))"

locale fifo = queue_base put items
  for put :: "'e \<Rightarrow> 'q \<Rightarrow> 'q" and items :: "'q \<Rightarrow> 'e list" +
  fixes take :: "'q \<Rightarrow> 'e list \<times> 'q"
  assumes take_items: "take q = (xs, q') \<Longrightarrow> xs @ items q' = items q"
    and take_progress: "items q \<noteq> [] \<Longrightarrow> fst (take q) \<noteq> []"
begin

text \<open>No element is lost, duplicated or reordered, whatever the interleaving of puts and takes.\<close>

lemma served_in_order:
  "serve put take ops q = (ys, q') \<Longrightarrow> ys @ items q' = items q @ puts ops"
proof (induction ops arbitrary: q ys)
  case Nil
  then show ?case by simp
next
  case (Cons op ops)
  show ?case
  proof (cases op)
    case (Put x)
    with Cons.prems Cons.IH [of "put x q" ys] show ?thesis by (simp add: items_put)
  next
    case Take
    obtain xs q1 where t: "take q = (xs, q1)" by fastforce
    obtain zs where "serve put take ops q1 = (zs, q')" and ys: "ys = xs @ zs"
      using Cons.prems Take t by (auto split: prod.splits)
    then have "zs @ items q' = items q1 @ puts ops" by (blast intro: Cons.IH)
    with take_items [OF t, symmetric] Take ys show ?thesis by simp
  qed
qed

lemma take_empty: "items q = [] \<Longrightarrow> fst (take q) = []"
  by (metis Nil_is_append_conv prod.collapse take_items)

end

section \<open>One-shot detectors\<close>

text \<open>What the executor relies on when it polls the silence detector: one trigger per arming.\<close>

fun feeds :: "('d \<Rightarrow> 'x \<Rightarrow> bool \<times> 'd) \<Rightarrow> 'd \<Rightarrow> 'x list \<Rightarrow> bool list" where
  "feeds fd d [] = []"
| "feeds fd d (x # xs) = (case fd d x of (b, d') \<Rightarrow> b # feeds fd d' xs)"

locale one_shot =
  fixes arm :: "'d \<Rightarrow> 'd"
    and feed :: "'d \<Rightarrow> 'x \<Rightarrow> bool \<times> 'd"
    and armed :: "'d \<Rightarrow> bool"
  assumes arm_armed: "armed (arm d)"
    and feed_unarmed: "\<not> armed d \<Longrightarrow> feed d x = (False, d)"
    and feed_trigger: "feed d x = (True, d') \<Longrightarrow> \<not> armed d'"
begin

lemma unarmed_silent: "\<not> armed d \<Longrightarrow> feeds feed d xs = replicate (length xs) False"
  by (induction xs) (simp_all add: feed_unarmed)

lemma at_most_one_trigger: "length (filter id (feeds feed d xs)) \<le> 1"
proof (induction xs arbitrary: d)
  case (Cons x xs)
  obtain b d' where f: "feed d x = (b, d')" by fastforce
  show ?case
  proof (cases b)
    case True
    with f have "\<not> armed d'" by (simp add: feed_trigger)
    with f True show ?thesis by (simp add: unarmed_silent)
  next
    case False
    with f Cons.IH [of d'] show ?thesis by simp
  qed
qed simp

end

section \<open>An exclusive slot\<close>

text \<open>
  The single-call rule of the gRPC service: a slot that one caller at a time may hold, taken by a
  compare-and-exchange and given back by a guard.
\<close>

locale exclusive_slot =
  fixes held :: "'s \<Rightarrow> bool"
    and acquire :: "'s \<Rightarrow> bool \<times> 's"
    and release :: "'s \<Rightarrow> 's"
  assumes acquire_free: "\<not> held s \<Longrightarrow> fst (acquire s) \<and> held (snd (acquire s))"
    and acquire_held: "held s \<Longrightarrow> acquire s = (False, s)"
    and release_free: "\<not> held (release s)"
begin

lemma acquire_success: "fst (acquire s) \<longleftrightarrow> \<not> held s"
  using acquire_free acquire_held by (metis fst_conv)

lemma held_after_acquire: "held (snd (acquire s))"
  using acquire_free acquire_held by (metis snd_conv)

end

section \<open>Front ends\<close>

text \<open>
  Agent events leave the program through two front ends (JSON lines, protobuf messages). Each has
  its own notion of a terminal message; both rely on the same law: exactly the events that carry a
  final outcome are encoded as one.
\<close>

locale front_end =
  fixes final :: "'e \<Rightarrow> bool"
    and encode :: "'e \<Rightarrow> 'm"
    and terminal :: "'m \<Rightarrow> bool"
  assumes terminal_encode: "terminal (encode e) \<longleftrightarrow> final e"
begin

lemma terminals: "filter terminal (map encode es) = map encode (filter final es)"
  by (induction es) (simp_all add: terminal_encode)

lemma one_terminal_last:
  assumes "\<forall>e \<in> set es. \<not> final e" and "final r"
  shows "filter terminal (map encode (es @ [r])) = [encode r]"
    and "terminal (last (map encode (es @ [r])))"
  using assms by (simp_all add: terminals terminal_encode)

end

end
