(* ===== verification/Calendar.thy ===== *)
theory Calendar
  imports Prelude
begin

text \<open>
  Wall-clock time. The sources read the clock as milliseconds since the epoch and print it in UTC
  (\<open>isoNow\<close> of \<open>src/events.cpp\<close>, with \<open>gmtime_r\<close> and \<open>std::put_time\<close>) or split it into the
  seconds and nanoseconds of a protobuf \<open>Timestamp\<close> (\<open>setTimestamp\<close> of \<open>src/grpc_server.cpp\<close>).
  Times before the epoch are not modelled. The lemmas show that both renderings lose nothing:
  the instant can be computed back from them.
\<close>

section \<open>The proleptic Gregorian calendar\<close>

definition leap_year :: "nat \<Rightarrow> bool" where
  "leap_year y \<longleftrightarrow> (y mod 4 = 0 \<and> y mod 100 \<noteq> 0) \<or> y mod 400 = 0"

definition days_in_year :: "nat \<Rightarrow> nat" where
  "days_in_year y = (if leap_year y then 366 else 365)"

definition month_lengths :: "nat \<Rightarrow> nat list" where
  "month_lengths y = [31, if leap_year y then 29 else 28, 31, 30, 31, 30, 31, 31, 30, 31, 30, 31]"

function civil_year :: "nat \<Rightarrow> nat \<Rightarrow> nat \<times> nat" where
  "civil_year y d = (if d < days_in_year y then (y, d) else civil_year (Suc y) (d - days_in_year y))"
  by pat_completeness auto
termination
  by (relation "measure snd") (auto simp: days_in_year_def)

declare civil_year.simps [simp del]

fun civil_month :: "nat list \<Rightarrow> nat \<Rightarrow> nat \<Rightarrow> nat \<times> nat" where
  "civil_month [] m d = (m, d)"
| "civil_month (l # ls) m d = (if d < l then (m, d) else civil_month ls (Suc m) (d - l))"

record civil_time =
  tm_year :: nat
  tm_mon :: nat
  tm_mday :: nat
  tm_hour :: nat
  tm_min :: nat
  tm_sec :: nat

text \<open>\<open>gmtime_r\<close>, with the year and the month as printed (the month counts from 1).\<close>

definition gmtime :: "nat \<Rightarrow> civil_time" where
  "gmtime t = (let (y, yd) = civil_year 1970 (t div 86400);
                   (m, md) = civil_month (month_lengths y) 1 yd;
                   s = t mod 86400
               in \<lparr>tm_year = y, tm_mon = m, tm_mday = Suc md,
                   tm_hour = s div 3600, tm_min = s mod 3600 div 60, tm_sec = s mod 60\<rparr>)"

text \<open>Back from the calendar to seconds.\<close>

definition days_before_year :: "nat \<Rightarrow> nat" where
  "days_before_year y = (\<Sum>k = 1970..<y. days_in_year k)"

definition timegm :: "civil_time \<Rightarrow> nat" where
  "timegm c = (days_before_year (tm_year c)
     + sum_list (take (tm_mon c - 1) (month_lengths (tm_year c))) + (tm_mday c - 1)) * 86400
     + tm_hour c * 3600 + tm_min c * 60 + tm_sec c"

lemma civil_year_days:
  "civil_year y d = (y', d') \<Longrightarrow> 1970 \<le> y \<Longrightarrow>
     y \<le> y' \<and> d' < days_in_year y' \<and> days_before_year y' + d' = days_before_year y + d"
proof (induction y d rule: civil_year.induct)
  case (1 y d)
  show ?case
  proof (cases "d < days_in_year y")
    case True
    with 1 show ?thesis by (simp add: civil_year.simps [of y d])
  next
    case False
    with 1 have "Suc y \<le> y' \<and> d' < days_in_year y'
      \<and> days_before_year y' + d' = days_before_year (Suc y) + (d - days_in_year y)"
      by (simp add: civil_year.simps [of y d])
    with False "1.prems" show ?thesis by (auto simp: days_before_year_def)
  qed
qed

lemma civil_month_days:
  "civil_month ls m d = (m', d') \<Longrightarrow> d < sum_list ls \<Longrightarrow>
     m \<le> m' \<and> m' - m < length ls \<and> d' < ls ! (m' - m)
     \<and> sum_list (take (m' - m) ls) + d' = d"
proof (induction ls m d rule: civil_month.induct)
  case (2 l ls m d)
  show ?case
  proof (cases "d < l")
    case True
    with 2 show ?thesis by simp
  next
    case False
    with 2 have "Suc m \<le> m' \<and> m' - Suc m < length ls \<and> d' < ls ! (m' - Suc m)
      \<and> sum_list (take (m' - Suc m) ls) + d' = d - l" by simp
    moreover from this have "m' - m = Suc (m' - Suc m)" by arith
    moreover from calculation False have "l + (sum_list (take (m' - Suc m) ls) + d') = d" by arith
    ultimately show ?thesis by (simp add: add.assoc)
  qed
qed simp

lemma sum_month_lengths: "sum_list (month_lengths y) = days_in_year y"
  by (simp add: month_lengths_def days_in_year_def)

lemma month_length_le: "i < 12 \<Longrightarrow> month_lengths y ! i \<le> 31"
  by (auto simp: month_lengths_def nth_Cons split: nat.splits)

lemma hms_of_seconds: "s div 3600 * 3600 + s mod 3600 div 60 * 60 + s mod 60 = s" for s :: nat
proof -
  have "s mod 60 = s mod 3600 mod 60" by (rule mod_mod_cancel [symmetric]) simp
  then show ?thesis by (simp only: add.assoc div_mult_mod_eq)
qed

lemma gmtime_fields:
  "tm_mon (gmtime t) \<in> {1..12} \<and> tm_mday (gmtime t) \<in> {1..31} \<and> 1970 \<le> tm_year (gmtime t)
   \<and> tm_hour (gmtime t) < 24 \<and> tm_min (gmtime t) < 60 \<and> tm_sec (gmtime t) < 60
   \<and> timegm (gmtime t) = t"
proof -
  define d s where "d = t div 86400" and "s = t mod 86400"
  have t: "d * 86400 + s = t" and s: "s < 86400" by (simp_all add: d_def s_def)
  obtain y yd where y: "civil_year 1970 d = (y, yd)" by fastforce
  obtain m md where m: "civil_month (month_lengths y) 1 yd = (m, md)" by fastforce
  from civil_year_days [OF y] have yd: "1970 \<le> y" "yd < days_in_year y"
    "days_before_year y + yd = d" by (simp_all add: days_before_year_def)
  from civil_month_days [OF m] yd(2) have md: "1 \<le> m" "m - 1 < 12"
    "md < month_lengths y ! (m - 1)" "sum_list (take (m - 1) (month_lengths y)) + md = yd"
    by (simp_all add: sum_month_lengths) (simp add: month_lengths_def)
  from md(2,3) have "md < 31" using month_length_le [of "m - 1" y] by simp
  moreover have g: "gmtime t = \<lparr>tm_year = y, tm_mon = m, tm_mday = Suc md,
      tm_hour = s div 3600, tm_min = s mod 3600 div 60, tm_sec = s mod 60\<rparr>"
    using y m by (simp only: gmtime_def d_def [symmetric] s_def [symmetric] Let_def prod.case)
  moreover have "timegm (gmtime t) = (days_before_year y + (sum_list (take (m - 1) (month_lengths y)) + md))
      * 86400 + (s div 3600 * 3600 + s mod 3600 div 60 * 60 + s mod 60)"
    unfolding g timegm_def by (simp only: civil_time.simps diff_Suc_1 add.assoc)
  moreover have "\<dots> = t" by (simp only: yd md(4) hms_of_seconds t)
  moreover have "s div 3600 < 24" "s mod 3600 div 60 < 60" using s
    by (simp_all add: less_mult_imp_div_less)
  moreover have "m \<le> 12" using md(1,2) by arith
  ultimately show ?thesis using yd md(1) by simp
qed

section \<open>ISO 8601 text\<close>

definition pad2 :: "nat \<Rightarrow> string" where
  "pad2 n = [digit (n div 10), digit (n mod 10)]"

definition pad3 :: "nat \<Rightarrow> string" where
  "pad3 n = [digit (n div 100), digit (n div 10 mod 10), digit (n mod 10)]"

definition isoNow :: "nat \<Rightarrow> string" where
  "isoNow now = (let t = now div 1000; ms = now mod 1000; tm = gmtime t in
     dec (tm_year tm) @ ''-'' @ pad2 (tm_mon tm) @ ''-'' @ pad2 (tm_mday tm) @ ''T''
     @ pad2 (tm_hour tm) @ '':'' @ pad2 (tm_min tm) @ '':'' @ pad2 (tm_sec tm) @ ''.''
     @ pad3 ms @ ''Z'')"

text \<open>A reader of that text: the year up to the first dash, then fixed columns.\<close>

definition iso_read :: "string \<Rightarrow> nat" where
  "iso_read s = (let y = takeWhile is_digit s; r = dropWhile is_digit s;
     col = (\<lambda>i n. undec 0 (take n (drop i r))) in
     timegm \<lparr>tm_year = undec 0 y, tm_mon = col 1 2, tm_mday = col 4 2,
             tm_hour = col 7 2, tm_min = col 10 2, tm_sec = col 13 2\<rparr> * 1000 + col 16 3)"

lemma length_pads [simp]: "length (pad2 n) = 2" "length (pad3 n) = 3"
  by (simp_all add: pad2_def pad3_def)

lemma undec_pad2: "n < 100 \<Longrightarrow> undec 0 (pad2 n) = n"
proof -
  assume "n < 100"
  then have "n div 10 < 10" by simp
  then show ?thesis by (simp add: pad2_def)
qed

lemma undec_pad3: "n < 1000 \<Longrightarrow> undec 0 (pad3 n) = n"
proof -
  assume "n < 1000"
  then have "n div 100 < 10" by simp
  moreover have "100 * (n div 100) + n div 10 mod 10 * 10 + n mod 10 = n"
  proof -
    have "n div 100 = n div 10 div 10" by (simp add: div_mult2_eq [symmetric])
    moreover have "100 * a + b * 10 + c = n" if "m = a * 10 + b" "n = m * 10 + c" for a b c m
      using that by simp
    ultimately show ?thesis by (metis div_mult_mod_eq)
  qed
  ultimately show ?thesis by (simp add: pad3_def)
qed

lemma dash_not_digit: "\<not> is_digit CHR ''-''"
  by (simp add: is_digit_def)

lemma takeWhile_dec: "takeWhile is_digit (dec n @ ''-'' @ r) = dec n"
  and dropWhile_dec: "dropWhile is_digit (dec n @ ''-'' @ r) = ''-'' @ r"
  using dec_digits [of n] by (simp_all add: list_all_iff dash_not_digit)

text \<open>C31: the time stamp of a JSON event determines its instant to the millisecond.\<close>

theorem isoNow_roundtrip: "iso_read (isoNow now) = now"
proof -
  let ?tm = "gmtime (now div 1000)"
  have bounds: "tm_mon ?tm < 100" "tm_mday ?tm < 100" "tm_hour ?tm < 100"
    "tm_min ?tm < 100" "tm_sec ?tm < 100" "now mod 1000 < 1000"
    using gmtime_fields [of "now div 1000"] by auto
  have "iso_read (isoNow now) = timegm ?tm * 1000 + now mod 1000"
    unfolding iso_read_def isoNow_def Let_def takeWhile_dec dropWhile_dec
    using bounds by (simp add: undec_dec undec_pad2 undec_pad3 drop_Cons' take_Cons' timegm_def)
  then show ?thesis using gmtime_fields [of "now div 1000"] by simp
qed

end
