(* ===== verification/Events.thy ===== *)
theory Events
  imports Interfaces Calendar
begin

text \<open>
  \<open>src/events.h\<close> and \<open>src/events.cpp\<close>: the public call statuses, the mapping from SIP codes to
  statuses and from statuses to exit codes, the event records that travel from PJSIP to the
  executor (\<open>InternalEvent\<close>) and from the executor to the front ends (\<open>AgentEvent\<close>), and the JSON
  rendering of the latter. Enumerators and fields keep the names of the source.
\<close>

section \<open>Call status\<close>

datatype call_status =
    REGISTERING | REGISTERED | DIALING | RINGING | ANSWERED | PLAYING | PLAYED | SILENCE_DETECTED
  | RECORDING_READY | BUSY | NO_ANSWER | CANCELLED | FAILED | HANGING_UP | DISCONNECTED

text \<open>The enumeration is finite: statements over all statuses are decided by evaluation.\<close>

instantiation call_status :: enum
begin

definition enum_call_status :: "call_status list" where
  "enum_call_status = [REGISTERING, REGISTERED, DIALING, RINGING, ANSWERED, PLAYING, PLAYED,
     SILENCE_DETECTED, RECORDING_READY, BUSY, NO_ANSWER, CANCELLED, FAILED, HANGING_UP, DISCONNECTED]"

definition enum_all_call_status :: "(call_status \<Rightarrow> bool) \<Rightarrow> bool" where
  "enum_all_call_status P = list_all P enum_class.enum"

definition enum_ex_call_status :: "(call_status \<Rightarrow> bool) \<Rightarrow> bool" where
  "enum_ex_call_status P = list_ex P enum_class.enum"

instance
proof
  show univ: "(UNIV :: call_status set) = set enum_class.enum"
  proof
    show "UNIV \<subseteq> set (enum_class.enum :: call_status list)"
    proof
      fix s :: call_status
      show "s \<in> set enum_class.enum" by (cases s) (simp_all add: enum_call_status_def)
    qed
  qed simp
  show "distinct (enum_class.enum :: call_status list)" by (simp add: enum_call_status_def)
  show "enum_class.enum_all P \<longleftrightarrow> Ball UNIV P" for P :: "call_status \<Rightarrow> bool"
    by (simp add: enum_all_call_status_def list_all_iff univ)
  show "enum_class.enum_ex P \<longleftrightarrow> Bex UNIV P" for P :: "call_status \<Rightarrow> bool"
    by (simp add: enum_ex_call_status_def list_ex_iff univ)
qed

end

definition callStatusToString :: "call_status \<Rightarrow> string" where
  "callStatusToString s = (case s of
      REGISTERING \<Rightarrow> ''REGISTERING''
    | REGISTERED \<Rightarrow> ''REGISTERED''
    | DIALING \<Rightarrow> ''DIALING''
    | RINGING \<Rightarrow> ''RINGING''
    | ANSWERED \<Rightarrow> ''ANSWERED''
    | PLAYING \<Rightarrow> ''PLAYING''
    | PLAYED \<Rightarrow> ''PLAYED''
    | SILENCE_DETECTED \<Rightarrow> ''SILENCE_DETECTED''
    | RECORDING_READY \<Rightarrow> ''RECORDING_READY''
    | BUSY \<Rightarrow> ''BUSY''
    | NO_ANSWER \<Rightarrow> ''NO_ANSWER''
    | CANCELLED \<Rightarrow> ''CANCELLED''
    | FAILED \<Rightarrow> ''FAILED''
    | HANGING_UP \<Rightarrow> ''HANGING_UP''
    | DISCONNECTED \<Rightarrow> ''DISCONNECTED'')"

definition statusToExitCode :: "call_status \<Rightarrow> int" where
  "statusToExitCode s = (case s of
      ANSWERED \<Rightarrow> 0
    | BUSY \<Rightarrow> 3
    | NO_ANSWER \<Rightarrow> 4
    | FAILED \<Rightarrow> 5
    | CANCELLED \<Rightarrow> 6
    | _ \<Rightarrow> 1)"

definition sipCodeToCallStatus :: "int \<Rightarrow> call_status" where
  "sipCodeToCallStatus sip_code =
    (if sip_code = 200 then ANSWERED
     else if sip_code = 486 \<or> sip_code = 600 \<or> sip_code = 603 then BUSY
     else if sip_code = 408 \<or> sip_code = 480 \<or> sip_code = 487 then NO_ANSWER
     else FAILED)"

text \<open>The statuses a finished call may have.\<close>

definition outcome_status :: "call_status \<Rightarrow> bool" where
  "outcome_status s \<longleftrightarrow> s \<in> {ANSWERED, BUSY, NO_ANSWER, CANCELLED, FAILED}"

lemma outcome_status_simps [simp]:
  "outcome_status ANSWERED" "outcome_status BUSY" "outcome_status NO_ANSWER"
  "outcome_status CANCELLED" "outcome_status FAILED"
  by (simp_all add: outcome_status_def)

lemma sipCode_outcome [simp]: "outcome_status (sipCodeToCallStatus c)"
  by (simp add: sipCodeToCallStatus_def)

lemma sipCode_not_cancelled [simp]: "sipCodeToCallStatus c \<noteq> CANCELLED"
  by (simp add: sipCodeToCallStatus_def)

section \<open>Agent events\<close>

record agent_event =
  status :: call_status
  call_id :: string
  recording_path :: string
  billing_seconds :: u32
  sip_code :: int
  reason :: string
  is_result :: bool

text \<open>The final outcome of a call (\<open>CallResult\<close>), with the defaults of its members.\<close>

record call_result =
  res_status :: call_status
  res_sip_code :: int
  res_reason :: string
  res_billing_seconds :: u32
  res_recording_path :: string

definition CallResult :: call_result where
  "CallResult = \<lparr>res_status = FAILED, res_sip_code = 0, res_reason = '''', res_billing_seconds = 0,
     res_recording_path = ''''\<rparr>"

text \<open>
  The aggregate initialisation \<open>AgentEvent{status, call_id, path, seconds, code, reason}\<close> leaves
  \<open>is_result\<close> at its default \<open>false\<close>.
\<close>

abbreviation AgentEvent :: "call_status \<Rightarrow> string \<Rightarrow> string \<Rightarrow> u32 \<Rightarrow> int \<Rightarrow> string \<Rightarrow> agent_event" where
  "AgentEvent s cid path secs code why \<equiv>
     \<lparr>status = s, call_id = cid, recording_path = path, billing_seconds = secs,
      sip_code = code, reason = why, is_result = False\<rparr>"

text \<open>The test of \<open>toJson\<close> for a terminal event.\<close>

definition result_event :: "agent_event \<Rightarrow> bool" where
  "result_event e \<longleftrightarrow> is_result e \<or> status e = BUSY \<or> status e = NO_ANSWER
     \<or> status e = CANCELLED \<or> status e = FAILED"

definition toJson_obj :: "agent_event \<Rightarrow> nat \<Rightarrow> json_obj" where
  "toJson_obj e now =
    (if result_event e then
       let j = json_set ''event'' (JStr ''result'') [];
           j = json_set ''status'' (JStr (callStatusToString (status e))) j;
           j = json_set ''sip_code'' (JInt (sip_code e)) j;
           j = (if reason e \<noteq> [] then json_set ''reason'' (JStr (reason e)) j else j);
           j = json_set ''billing_seconds'' (JInt (uint (billing_seconds e))) j;
           j = (if recording_path e \<noteq> [] then json_set ''recording'' (JStr (recording_path e)) j else j);
           j = json_set ''call_id'' (JStr (call_id e)) j
       in json_set ''ts'' (JStr (isoNow now)) j
     else if status e = RECORDING_READY then
       let j = json_set ''event'' (JStr ''recording_ready'') [];
           j = json_set ''uri'' (JStr (recording_path e)) j;
           j = json_set ''duration'' (JInt (uint (billing_seconds e))) j;
           j = json_set ''call_id'' (JStr (call_id e)) j
       in json_set ''ts'' (JStr (isoNow now)) j
     else
       let j = json_set ''event'' (JStr ''state'') [];
           j = json_set ''state'' (JStr (callStatusToString (status e))) j;
           j = json_set ''call_id'' (JStr (call_id e)) j
       in json_set ''ts'' (JStr (isoNow now)) j)"

definition toJson :: "(json_obj \<Rightarrow> string) \<Rightarrow> agent_event \<Rightarrow> nat \<Rightarrow> string" where
  "toJson dump e now = dump (toJson_obj e now)"

section \<open>Internal events\<close>

datatype internal_type =
  REG_STATE | CALL_STATE | MEDIA_STATE | PLAYBACK_EOF | TIMEOUT | CANCEL | HANGUP_DONE

record internal_event =
  ev_type :: internal_type
  ev_connected :: bool
  ev_sip_code :: int
  ev_reason :: string
  ev_call_state :: int
  ev_media_active :: bool
  ev_timeout_id :: u32

text \<open>\<open>InternalEvent ev; ev.type = t;\<close> with the default of every other member.\<close>

definition InternalEvent :: "internal_type \<Rightarrow> internal_event" where
  "InternalEvent t = \<lparr>ev_type = t, ev_connected = False, ev_sip_code = 0, ev_reason = '''',
     ev_call_state = 0, ev_media_active = False, ev_timeout_id = 0\<rparr>"

definition INV_STATE_NULL :: int where "INV_STATE_NULL = 0"
definition INV_STATE_CALLING :: int where "INV_STATE_CALLING = 1"
definition INV_STATE_INCOMING :: int where "INV_STATE_INCOMING = 2"
definition INV_STATE_EARLY :: int where "INV_STATE_EARLY = 3"
definition INV_STATE_CONNECTING :: int where "INV_STATE_CONNECTING = 4"
definition INV_STATE_CONFIRMED :: int where "INV_STATE_CONFIRMED = 5"
definition INV_STATE_DISCONNECTED :: int where "INV_STATE_DISCONNECTED = 6"

lemmas inv_state_defs = INV_STATE_NULL_def INV_STATE_CALLING_def INV_STATE_INCOMING_def
  INV_STATE_EARLY_def INV_STATE_CONNECTING_def INV_STATE_CONFIRMED_def INV_STATE_DISCONNECTED_def

text \<open>The test of the executor's loops for the end of the call.\<close>

definition is_disconnect :: "internal_event \<Rightarrow> bool" where
  "is_disconnect ev \<longleftrightarrow> ev_type ev = CALL_STATE \<and> ev_call_state ev = INV_STATE_DISCONNECTED"

section \<open>Properties\<close>

text \<open>A reader of the status names, for the round trip.\<close>

definition status_of_string :: "string \<Rightarrow> call_status option" where
  "status_of_string str = find (\<lambda>s. callStatusToString s = str) enum_class.enum"

lemma status_string_roundtrip: "status_of_string (callStatusToString s) = Some s"
  by (cases s) (simp_all add: status_of_string_def enum_call_status_def callStatusToString_def)

lemma callStatusToString_inject [simp]:
  "callStatusToString s = callStatusToString t \<longleftrightarrow> s = t"
  by (metis option.inject status_string_roundtrip)

definition json_terminal :: "json_obj \<Rightarrow> bool" where
  "json_terminal j \<longleftrightarrow> json_get j ''event'' = Some (JStr ''result'')"

lemma json_event_kind:
  "json_get (toJson_obj e now) ''event'' = Some (JStr
     (if result_event e then ''result'' else if status e = RECORDING_READY then ''recording_ready''
      else ''state''))"
  by (simp add: toJson_obj_def Let_def update_conv')

interpretation json_lines: front_end result_event "\<lambda>e. toJson_obj e now" json_terminal for now
  by unfold_locales (simp add: json_terminal_def json_event_kind)

lemma sip_mapping_table:
  "sipCodeToCallStatus c = ANSWERED \<longleftrightarrow> c = 200"
  "sipCodeToCallStatus c = BUSY \<longleftrightarrow> c \<in> {486, 600, 603}"
  "sipCodeToCallStatus c = NO_ANSWER \<longleftrightarrow> c \<in> {408, 480, 487}"
  "sipCodeToCallStatus c = FAILED \<longleftrightarrow> c \<notin> {200, 486, 600, 603, 408, 480, 487}"
  by (auto simp: sipCodeToCallStatus_def)

lemma exit_code_outcome: "outcome_status s \<longleftrightarrow> statusToExitCode s \<noteq> 1"
  by (cases s) (simp_all add: outcome_status_def statusToExitCode_def)

text \<open>
  A JSON result line can be read back: the outcome, the code, the reason, the billed seconds, the
  recording and the call id, the optional members absent exactly when they are empty.
\<close>

lemma json_result_fields:
  assumes "result_event e"
  shows "json_get (toJson_obj e now) ''status'' = Some (JStr (callStatusToString (status e)))"
    and "json_get (toJson_obj e now) ''sip_code'' = Some (JInt (sip_code e))"
    and "json_get (toJson_obj e now) ''billing_seconds'' = Some (JInt (uint (billing_seconds e)))"
    and "json_get (toJson_obj e now) ''reason''
      = (if reason e = [] then None else Some (JStr (reason e)))"
    and "json_get (toJson_obj e now) ''recording''
      = (if recording_path e = [] then None else Some (JStr (recording_path e)))"
    and "json_get (toJson_obj e now) ''call_id'' = Some (JStr (call_id e))"
    and "json_get (toJson_obj e now) ''ts'' = Some (JStr (isoNow now))"
  using assms by (simp_all add: toJson_obj_def Let_def update_conv')

lemma json_state_fields:
  assumes "\<not> result_event e" and "status e \<noteq> RECORDING_READY"
  shows "map fst (toJson_obj e now) = [''event'', ''state'', ''call_id'', ''ts'']"
    and "json_get (toJson_obj e now) ''state'' = Some (JStr (callStatusToString (status e)))"
  using assms by (simp_all add: toJson_obj_def Let_def)

end
