(* ===== verification/Sip_Agent.thy ===== *)
theory Sip_Agent
  imports Args Events
begin

text \<open>
  \<open>src/sip_agent.h\<close> and \<open>src/sip_agent.cpp\<close>: the owner of the PJSIP objects and of the event queue
  between PJSIP's threads and the executor.

  PJSIP itself is a parameter (\<open>pj\<close>): for every call the agent makes, it decides from the history
  of calls whether this one throws, and which audio level a poll reads. Every call is recorded in
  \<open>sa_log\<close>, so statements about what the program asks of the SIP stack are statements about this
  log. A function that an exception leaves returns \<open>Threw\<close> with the state at that point; a
  \<open>try { ... } catch (...) {}\<close> is \<open>caught\<close>. Owning pointers are booleans (does the object exist).
\<close>

section \<open>Calls into PJSIP\<close>

datatype pj_op =
    LibCreate | LibInit int nat nat | TransportCreateUdp | LibStart | SetNullDev
  | AccountCreate string string string string
  | LibRegisterThread string
  | MakeCall string | Hangup int
  | CreatePlayer string | PlayerTransmit
  | CreateRecorder string | RecorderTransmit
  | GetAudioMedia | GetRxLevel
  | DestroyPlayer | DestroyRecorder | DestroyCall | AccountShutdown | DestroyAccount
  | LibDestroy | DestroyEndpoint

record pj =
  pj_fails :: "pj_op list \<Rightarrow> pj_op \<Rightarrow> bool"
  pj_level :: "pj_op list \<Rightarrow> u32"

record sip_agent =
  sa_config :: config
  sa_ep :: bool
  sa_account :: bool
  sa_call :: bool
  sa_player :: bool
  sa_recorder :: bool
  sa_registered :: bool
  sa_last_sip_code :: int
  sa_call_start_ms :: u64
  sa_call_id :: string
  sa_queue :: "internal_event list"
  sa_dispatcher_wake :: bool
  sa_thread_registered :: bool
  sa_log :: "pj_op list"

datatype ('r, 's) attempt = Done 'r 's | Threw 's

fun attempt_then :: "('r, 's) attempt \<Rightarrow> ('s \<Rightarrow> ('q, 's) attempt) \<Rightarrow> ('q, 's) attempt" where
  "attempt_then (Done r s) k = k s"
| "attempt_then (Threw s) k = Threw s"

fun caught :: "('r, 's) attempt \<Rightarrow> 's" where
  "caught (Done r s) = s"
| "caught (Threw s) = s"

definition pj_log :: "pj_op \<Rightarrow> sip_agent \<Rightarrow> sip_agent" where
  "pj_log op a = a\<lparr>sa_log := sa_log a @ [op]\<rparr>"

definition pj_do :: "pj \<Rightarrow> pj_op \<Rightarrow> sip_agent \<Rightarrow> (unit, sip_agent) attempt" where
  "pj_do w op a = (if pj_fails w (sa_log a) op then Threw (pj_log op a) else Done () (pj_log op a))"

fun pj_seq :: "pj \<Rightarrow> pj_op list \<Rightarrow> sip_agent \<Rightarrow> (unit, sip_agent) attempt" where
  "pj_seq w [] a = Done () a"
| "pj_seq w (op # ops) a = attempt_then (pj_do w op a) (pj_seq w ops)"

section \<open>Construction and initialisation\<close>

definition SipAgent :: "config \<Rightarrow> sip_agent" where
  "SipAgent c = \<lparr>sa_config = c, sa_ep = False, sa_account = False, sa_call = False, sa_player = False,
     sa_recorder = False, sa_registered = False, sa_last_sip_code = 0, sa_call_start_ms = 0,
     sa_call_id = destination c @ ''@'' @ sip_host c, sa_queue = [], sa_dispatcher_wake = False,
     sa_thread_registered = False, sa_log = []\<rparr>"

definition libRegisterThread :: "pj \<Rightarrow> string \<Rightarrow> sip_agent \<Rightarrow> (unit, sip_agent) attempt" where
  "libRegisterThread w name a =
    (if \<not> sa_thread_registered a then
       attempt_then (pj_do w (LibRegisterThread name) a) (\<lambda>a. Done () (a\<lparr>sa_thread_registered := True\<rparr>))
     else Done () a)"

text \<open>The registrar URI assembled in \<open>init\<close> and the request URI assembled in \<open>placeCall\<close>.\<close>

definition registrar_uri :: "config \<Rightarrow> string" where
  "registrar_uri c = ''sip:'' @ sip_host c
     @ (if sip_port c \<noteq> 5060 then '':'' @ dec (unat (sip_port c)) else '''')
     @ '';transport='' @ transport_name (sip_transport c)"

definition dest_uri :: "config \<Rightarrow> string" where
  "dest_uri c = ''sip:'' @ destination c @ ''@'' @ sip_host c
     @ (if sip_port c \<noteq> 5060 then '':'' @ dec (unat (sip_port c)) else '''')
     @ '';transport='' @ transport_name (sip_transport c)"

definition init :: "pj \<Rightarrow> sip_agent \<Rightarrow> (bool, sip_agent) attempt" where
  "init w a =
    (let c = sa_config a in
     attempt_then (pj_seq w [LibCreate, LibInit (log_level c) 8000 8000, TransportCreateUdp, LibStart,
         SetNullDev] (a\<lparr>sa_ep := True\<rparr>))
       (\<lambda>a. attempt_then (pj_do w (AccountCreate (''sip:'' @ sip_user c @ ''@'' @ sip_host c)
              (registrar_uri c) (sip_user c) (sip_pass c)) (a\<lparr>sa_account := True\<rparr>))
         (\<lambda>a. Done True a)))"

section \<open>The event queue\<close>

definition pushEvent :: "internal_event \<Rightarrow> sip_agent \<Rightarrow> sip_agent" where
  "pushEvent ev a = a\<lparr>sa_queue := sa_queue a @ [ev]\<rparr>"

text \<open>
  \<open>waitEvent\<close> clears the wake flag, waits until the queue is non-empty or the flag is set, or until
  the timeout, and pops the front. What the other threads do during the wait is the argument
  \<open>during\<close>; it plays no role when the condition already holds, since the lock is then never released.
\<close>

definition blocks :: "sip_agent \<Rightarrow> bool" where
  "blocks a \<longleftrightarrow> \<not> (sa_queue a \<noteq> [] \<or> sa_dispatcher_wake a)"

definition waitEvent ::
  "(sip_agent \<Rightarrow> sip_agent) \<Rightarrow> sip_agent \<Rightarrow> internal_event option \<times> sip_agent" where
  "waitEvent during a =
    (let a1 = a\<lparr>sa_dispatcher_wake := False\<rparr>;
         a2 = (if blocks a1 then during a1 else a1)
     in case sa_queue a2 of [] \<Rightarrow> (None, a2) | ev # q \<Rightarrow> (Some ev, a2\<lparr>sa_queue := q\<rparr>))"

definition wakeDispatcher :: "sip_agent \<Rightarrow> sip_agent" where
  "wakeDispatcher a = a\<lparr>sa_dispatcher_wake := True\<rparr>"

section \<open>Call control\<close>

text \<open>Assigning or resetting an owning pointer destroys the object it held.\<close>

definition drop_call :: "sip_agent \<Rightarrow> sip_agent" where
  "drop_call a = (if sa_call a then pj_log DestroyCall (a\<lparr>sa_call := False\<rparr>) else a)"

definition drop_player :: "sip_agent \<Rightarrow> sip_agent" where
  "drop_player a = (if sa_player a then pj_log DestroyPlayer (a\<lparr>sa_player := False\<rparr>) else a)"

definition stopRecorder :: "sip_agent \<Rightarrow> sip_agent" where
  "stopRecorder a = (if sa_recorder a then pj_log DestroyRecorder (a\<lparr>sa_recorder := False\<rparr>) else a)"

definition placeCall :: "pj \<Rightarrow> sip_agent \<Rightarrow> (unit, sip_agent) attempt" where
  "placeCall w a = attempt_then (libRegisterThread w ''pjcppagent-executor'' a)
     (\<lambda>a. pj_do w (MakeCall (dest_uri (sa_config a))) ((drop_call a)\<lparr>sa_call := True\<rparr>))"

definition hangup :: "pj \<Rightarrow> sip_agent \<Rightarrow> (unit, sip_agent) attempt" where
  "hangup w a = attempt_then (libRegisterThread w ''pjcppagent-executor'' a)
     (\<lambda>a. if sa_call a then Done () (caught (pj_do w (Hangup 603) a)) else Done () a)"

definition startPlayer :: "pj \<Rightarrow> string \<Rightarrow> sip_agent \<Rightarrow> (unit, sip_agent) attempt" where
  "startPlayer w wav_path a = attempt_then (libRegisterThread w ''pjcppagent-executor'' a)
     (\<lambda>a. attempt_then (pj_do w (CreatePlayer wav_path) ((drop_player a)\<lparr>sa_player := True\<rparr>))
       (\<lambda>a. if sa_call a then Done () (caught (pj_seq w [GetAudioMedia, PlayerTransmit] a)) else Done () a))"

definition startRecorder :: "pj \<Rightarrow> string \<Rightarrow> sip_agent \<Rightarrow> (unit, sip_agent) attempt" where
  "startRecorder w wav_path a = attempt_then (libRegisterThread w ''pjcppagent-executor'' a)
     (\<lambda>a. attempt_then (pj_do w (CreateRecorder wav_path) ((stopRecorder a)\<lparr>sa_recorder := True\<rparr>))
       (\<lambda>a. if sa_call a then Done () (caught (pj_seq w [GetAudioMedia, RecorderTransmit] a)) else Done () a))"

definition getRxLevel :: "pj \<Rightarrow> sip_agent \<Rightarrow> (u32, sip_agent) attempt" where
  "getRxLevel w a = attempt_then (libRegisterThread w ''pjcppagent-executor'' a)
     (\<lambda>a. if \<not> sa_call a then Done 0 a
          else case pj_seq w [GetAudioMedia, GetRxLevel] a of
                 Done _ a' \<Rightarrow> Done (pj_level w (sa_log a')) a'
               | Threw a' \<Rightarrow> Done 0 a')"

definition setCallStartTime :: "u64 \<Rightarrow> sip_agent \<Rightarrow> sip_agent" where
  "setCallStartTime t a = a\<lparr>sa_call_start_ms := t\<rparr>"

text \<open>The accessors of the header.\<close>

definition callStartTime :: "sip_agent \<Rightarrow> u64" where
  "callStartTime a = sa_call_start_ms a"

definition lastSipCode :: "sip_agent \<Rightarrow> int" where
  "lastSipCode a = sa_last_sip_code a"

definition isRegistered :: "sip_agent \<Rightarrow> bool" where
  "isRegistered a = sa_registered a"

text \<open>The destructor: every exception of the library is swallowed.\<close>

definition destroy :: "pj \<Rightarrow> sip_agent \<Rightarrow> sip_agent" where
  "destroy w a0 =
    (let a = (if sa_ep a0 then caught (pj_do w (LibRegisterThread ''pjcppagent-destroy'') a0) else a0);
         a = drop_call (stopRecorder (drop_player a));
         a = (if sa_account a then caught (pj_do w AccountShutdown a) else a);
         a = (if sa_account a then pj_log DestroyAccount (a\<lparr>sa_account := False\<rparr>) else a);
         a = (if sa_ep a then caught (pj_do w LibDestroy a) else a)
     in if sa_ep a then pj_log DestroyEndpoint (a\<lparr>sa_ep := False\<rparr>) else a)"

section \<open>Callbacks\<close>

text \<open>
  PJSIP calls these from its own threads. \<open>getInfo()\<close> may throw: its answer is an option.
\<close>

record media_info =
  mi_audio :: bool
  mi_active :: bool

record call_info =
  ci_state :: int
  ci_lastStatusCode :: int
  ci_lastReason :: string
  ci_media :: "media_info list"

definition onRegState :: "int \<Rightarrow> string \<Rightarrow> sip_agent \<Rightarrow> sip_agent" where
  "onRegState code why a = pushEvent ((InternalEvent REG_STATE)
     \<lparr>ev_connected := (code \<ge> 200 \<and> code < 300), ev_sip_code := code, ev_reason := why\<rparr>) a"

definition onCallState :: "call_info option \<Rightarrow> sip_agent \<Rightarrow> sip_agent" where
  "onCallState info a = (let ev = InternalEvent CALL_STATE in
    case info of
      None \<Rightarrow> pushEvent (ev\<lparr>ev_call_state := INV_STATE_DISCONNECTED, ev_sip_code := 0,
                 ev_reason := ''call destroyed''\<rparr>) a
    | Some ci \<Rightarrow>
        (let ev = ev\<lparr>ev_call_state := ci_state ci, ev_sip_code := ci_lastStatusCode ci,
                    ev_reason := ci_lastReason ci\<rparr>;
             a = (if ci_state ci = INV_STATE_DISCONNECTED
                  then a\<lparr>sa_last_sip_code := ci_lastStatusCode ci\<rparr> else a)
         in pushEvent ev a))"

fun any_active_audio :: "media_info list \<Rightarrow> bool" where
  "any_active_audio [] = False"
| "any_active_audio (m # ms) = (if mi_audio m \<and> mi_active m then True else any_active_audio ms)"

definition onCallMediaState :: "call_info option \<Rightarrow> sip_agent \<Rightarrow> sip_agent" where
  "onCallMediaState info a =
    (case info of None \<Rightarrow> pushEvent (InternalEvent MEDIA_STATE) a
     | Some ci \<Rightarrow> pushEvent ((InternalEvent MEDIA_STATE)\<lparr>ev_media_active := any_active_audio (ci_media ci)\<rparr>) a)"

definition onEof2 :: "sip_agent \<Rightarrow> sip_agent" where
  "onEof2 a = pushEvent (InternalEvent PLAYBACK_EOF) a"

datatype callback =
    OnRegState int string | OnCallState "call_info option" | OnCallMediaState "call_info option" | OnEof2

fun run_callback :: "callback \<Rightarrow> sip_agent \<Rightarrow> sip_agent" where
  "run_callback (OnRegState code why) = onRegState code why"
| "run_callback (OnCallState info) = onCallState info"
| "run_callback (OnCallMediaState info) = onCallMediaState info"
| "run_callback OnEof2 = onEof2"

section \<open>Properties\<close>

subsection \<open>The queue\<close>

definition poll :: "sip_agent \<Rightarrow> internal_event list \<times> sip_agent" where
  "poll a = (case waitEvent id a of (r, a') \<Rightarrow> (case r of None \<Rightarrow> [] | Some ev \<Rightarrow> [ev], a'))"

lemma waitEvent_queue:
  "waitEvent during a = (r, a') \<Longrightarrow>
     (case r of None \<Rightarrow> [] | Some ev \<Rightarrow> [ev]) @ sa_queue a'
       = sa_queue (if sa_queue a = [] then during (a\<lparr>sa_dispatcher_wake := False\<rparr>) else a)
     \<and> (r = None \<longrightarrow> sa_queue a = [])"
  by (auto simp: waitEvent_def blocks_def Let_def split: list.splits if_splits)

interpretation agent_queue: fifo pushEvent sa_queue poll
proof unfold_locales
  show "sa_queue (pushEvent x q) = sa_queue q @ [x]" for x q by (simp add: pushEvent_def)
  show "xs @ sa_queue q' = sa_queue q" if "poll q = (xs, q')" for q xs q'
    using that waitEvent_queue [of id q]
    by (auto simp: poll_def split: prod.splits option.splits if_splits)
  show "fst (poll q) \<noteq> []" if "sa_queue q \<noteq> []" for q
    using that waitEvent_queue [of id q]
    by (auto simp: poll_def split: prod.splits option.splits)
qed

text \<open>
  C38: the event queue neither loses, duplicates nor reorders: whatever the interleaving of callbacks
  pushing events and the executor polling, what was polled followed by what is still queued is what
  was queued at first followed by what was pushed, in that order.
\<close>

theorem queue_in_order:
  assumes "serve pushEvent poll ops a = (polled, a')"
  shows "polled @ sa_queue a' = sa_queue a @ puts ops"
  using assms by (rule agent_queue.served_in_order)

theorem queue_in_order_witness:
  "fst (serve pushEvent poll [Put (InternalEvent CANCEL), Take, Put (InternalEvent TIMEOUT), Take, Take]
      (SipAgent Config)) = [InternalEvent CANCEL, InternalEvent TIMEOUT]"
proof -
  let ?ops = "[Put (InternalEvent CANCEL), Take, Put (InternalEvent TIMEOUT), Take, Take]"
  obtain polled a' where r: "serve pushEvent poll ?ops (SipAgent Config) = (polled, a')" by fastforce
  then have "sa_queue a' = []"
    by (auto simp: pushEvent_def poll_def waitEvent_def blocks_def SipAgent_def Let_def)
  with queue_in_order [OF r] r show ?thesis by (simp add: SipAgent_def)
qed

text \<open>
  A wake-up that arrives before the wait is lost: \<open>waitEvent\<close> clears the flag first, so waiting
  after \<open>wakeDispatcher()\<close> behaves exactly as waiting without it, and only the timeout bounds the
  delay with which a cancellation is noticed. A wake-up during the wait does end it.
\<close>

lemma wake_before_wait_is_lost:
  "waitEvent during (wakeDispatcher a) = waitEvent during a \<and> \<not> blocks (wakeDispatcher a)"
  by (simp add: waitEvent_def wakeDispatcher_def blocks_def Let_def)

subsection \<open>URIs\<close>

lemma uri_port: "sip_port c \<noteq> 5060 \<Longrightarrow> undec 0 (dec (unat (sip_port c))) = unat (sip_port c)"
  by (rule undec_dec)

text \<open>
  The registration and the call go to the same server: both URIs end in the same host, port and
  transport; the port is left out exactly when it is the SIP default 5060, and configurations with
  the same host and transport but different ports never share a URI.
\<close>

lemma uris_agree:
  "dest_uri c = ''sip:'' @ destination c @ ''@'' @ drop 4 (registrar_uri c)
   \<and> take 4 (registrar_uri c) = ''sip:''
   \<and> ((registrar_uri c = registrar_uri (c\<lparr>sip_port := p\<rparr>)) = (p = sip_port c))"
proof -
  have sep: "(if p = 5060 then '''' else '':'' @ dec (unat p)) = (if q = 5060 then '''' else '':'' @ dec (unat q))
    \<longleftrightarrow> p = q" for p q :: u16
    by (auto simp: dec_inject word_unat_eq_iff)
  have "registrar_uri c = registrar_uri (c\<lparr>sip_port := p\<rparr>) \<longleftrightarrow>
      (if sip_port c = 5060 then '''' else '':'' @ dec (unat (sip_port c)))
      = (if p = 5060 then '''' else '':'' @ dec (unat p))"
    by (auto simp: registrar_uri_def)
  then show ?thesis unfolding sep by (auto simp: registrar_uri_def dest_uri_def)
qed

subsection \<open>Thread registration\<close>

lemma libRegisterThread_registers:
  "libRegisterThread w name a = Done r a' \<Longrightarrow> sa_thread_registered a'"
  by (cases "sa_thread_registered a")
    (auto simp: libRegisterThread_def pj_do_def split: if_splits)

lemma registered_noop: "sa_thread_registered a \<Longrightarrow> libRegisterThread w name a = Done () a"
  by (simp add: libRegisterThread_def)

lemma pj_log_fields [simp]:
  "sa_thread_registered (pj_log op a) = sa_thread_registered a"
  "sa_config (pj_log op a) = sa_config a" "sa_call_id (pj_log op a) = sa_call_id a"
  "sa_call (pj_log op a) = sa_call a" "sa_queue (pj_log op a) = sa_queue a"
  "sa_log (pj_log op a) = sa_log a @ [op]"
  "sa_ep (pj_log op a) = sa_ep a" "sa_account (pj_log op a) = sa_account a"
  "sa_player (pj_log op a) = sa_player a" "sa_recorder (pj_log op a) = sa_recorder a"
  by (simp_all add: pj_log_def)

text \<open>
  Once the call has been placed the executor's thread is registered with PJSIP, and from then on
  hanging up cannot throw: it issues at most the one BYE/CANCEL request and registers nothing again.
\<close>

lemma hangup_after_placeCall:
  assumes "placeCall w a = Done r a1" and "sa_thread_registered a1 \<Longrightarrow> sa_thread_registered a2"
  shows "\<exists>a3. hangup w a2 = Done () a3 \<and> sa_log a3 = sa_log a2 @ (if sa_call a2 then [Hangup 603] else [])"
proof -
  from assms(1) have "sa_thread_registered a1"
    by (auto simp: placeCall_def libRegisterThread_def pj_do_def drop_call_def split: if_splits)
  with assms(2) show ?thesis
    by (auto simp: hangup_def registered_noop pj_do_def)
qed

text \<open>A PJSIP in which every call succeeds and every poll reads silence.\<close>

definition quiet_pj :: pj where
  "quiet_pj = \<lparr>pj_fails = (\<lambda>_ _. False), pj_level = (\<lambda>_. 0)\<rparr>"

subsection \<open>Destruction\<close>

text \<open>
  The destructor never throws, leaves no object behind, and destroys them in the order their
  dependencies need: player, recorder and call before the account, the account before the library.
\<close>

lemma destroy_complete:
  "sa_log (destroy w a) = sa_log a @ (if sa_ep a then [LibRegisterThread ''pjcppagent-destroy''] else [])
      @ (if sa_player a then [DestroyPlayer] else []) @ (if sa_recorder a then [DestroyRecorder] else [])
      @ (if sa_call a then [DestroyCall] else [])
      @ (if sa_account a then [AccountShutdown, DestroyAccount] else [])
      @ (if sa_ep a then [LibDestroy, DestroyEndpoint] else [])
   \<and> \<not> sa_player (destroy w a) \<and> \<not> sa_recorder (destroy w a) \<and> \<not> sa_call (destroy w a)
   \<and> \<not> sa_account (destroy w a) \<and> \<not> sa_ep (destroy w a)"
proof -
  have c: "caught (pj_do w op b) = pj_log op b" for op b by (simp add: pj_do_def)
  show ?thesis
    unfolding destroy_def Let_def c
    by (cases "sa_ep a"; cases "sa_player a"; cases "sa_recorder a"; cases "sa_call a"; cases "sa_account a")
      (simp_all add: drop_call_def drop_player_def stopRecorder_def)
qed

subsection \<open>Callbacks\<close>

lemma any_active_audio_iff: "any_active_audio ms \<longleftrightarrow> (\<exists>m \<in> set ms. mi_audio m \<and> mi_active m)"
  by (induction ms) auto

text \<open>
  Every callback adds exactly one event, at the back of the queue. A registration answer counts as
  connected exactly for the 2xx codes; a call-state callback reports the end of the call exactly when
  the state is DISCONNECTED or the call is already gone; media counts as active exactly when some
  audio stream is.
\<close>

lemma callback_events:
  "\<exists>ev. sa_queue (run_callback cb a) = sa_queue a @ [ev] \<and>
    (case cb of
       OnRegState code why \<Rightarrow> ev_type ev = REG_STATE \<and> ev_sip_code ev = code
         \<and> ev_connected ev = (code div 100 = 2)
     | OnCallState info \<Rightarrow> ev_type ev = CALL_STATE
         \<and> is_disconnect ev = (case info of None \<Rightarrow> True | Some ci \<Rightarrow> ci_state ci = 6)
     | OnCallMediaState info \<Rightarrow> ev_type ev = MEDIA_STATE
         \<and> ev_media_active ev = (case info of None \<Rightarrow> False
             | Some ci \<Rightarrow> \<exists>m \<in> set (ci_media ci). mi_audio m \<and> mi_active m)
     | OnEof2 \<Rightarrow> ev_type ev = PLAYBACK_EOF)"
proof (cases cb)
  case (OnRegState code why)
  have "200 \<le> code \<and> code < 300 \<longleftrightarrow> code div 100 = 2" by presburger
  with OnRegState show ?thesis by (simp add: onRegState_def pushEvent_def InternalEvent_def)
next
  case (OnCallState info)
  then show ?thesis
    by (cases info) (simp_all add: onCallState_def pushEvent_def InternalEvent_def is_disconnect_def
        Let_def inv_state_defs)
next
  case (OnCallMediaState info)
  then show ?thesis
    by (cases info) (simp_all add: onCallMediaState_def pushEvent_def InternalEvent_def any_active_audio_iff)
qed (simp add: onEof2_def pushEvent_def InternalEvent_def)

text \<open>
  The last SIP code is that of the last end of a call PJSIP reported; a call that is already gone when its
  state is asked for leaves it alone, although the event then says code 0.
\<close>

lemma callback_sip_code:
  "lastSipCode (run_callback cb a) = (case cb of
     OnCallState (Some ci) \<Rightarrow> if ci_state ci = INV_STATE_DISCONNECTED then ci_lastStatusCode ci else lastSipCode a
   | _ \<Rightarrow> lastSipCode a)"
  by (cases cb; simp add: lastSipCode_def onRegState_def onCallState_def onCallMediaState_def onEof2_def
      pushEvent_def Let_def split: option.split)

end
