(* ===== verification/Silence.thy ===== *)
theory Silence
  imports Interfaces
begin

text \<open>
  \<open>src/silence.h\<close> and \<open>src/silence.cpp\<close>: the detector the executor feeds with received audio
  levels. The specification is stated on the list of samples (\<open>silence_spec\<close>); \<open>feed\<close> is shown to
  trigger at the first sample that satisfies it, and only there.
\<close>

record silence_detector =
  sd_threshold :: u32
  sd_timeout_ms :: u32
  sd_silence_start :: u64
  sd_armed :: bool
  sd_started :: bool

definition SilenceDetector :: "u32 \<Rightarrow> u32 \<Rightarrow> silence_detector" where
  "SilenceDetector threshold timeout_ms =
     \<lparr>sd_threshold = threshold, sd_timeout_ms = timeout_ms, sd_silence_start = 0,
      sd_armed = False, sd_started = False\<rparr>"

definition arm :: "silence_detector \<Rightarrow> silence_detector" where
  "arm sd = sd\<lparr>sd_armed := True, sd_started := False, sd_silence_start := 0\<rparr>"

text \<open>
  The level and the threshold are compared as 32-bit unsigned values; the elapsed time is a 64-bit
  unsigned subtraction, against the timeout widened to 64 bits.
\<close>

definition feed :: "silence_detector \<Rightarrow> u32 \<Rightarrow> u64 \<Rightarrow> bool \<times> silence_detector" where
  "feed sd level now_ms =
    (if \<not> sd_armed sd then (False, sd)
     else if level \<ge> sd_threshold sd then
       (False, sd\<lparr>sd_started := False, sd_silence_start := 0\<rparr>)
     else
       let sd1 = (if \<not> sd_started sd then sd\<lparr>sd_started := True, sd_silence_start := now_ms\<rparr> else sd) in
       if now_ms - sd_silence_start sd1 \<ge> ucast (sd_timeout_ms sd1) then
         (True, sd1\<lparr>sd_armed := False, sd_started := False, sd_silence_start := 0\<rparr>)
       else (False, sd1))"

definition getCurrentSilenceMs :: "silence_detector \<Rightarrow> u64 \<Rightarrow> u32" where
  "getCurrentSilenceMs sd now_ms =
    (if \<not> sd_armed sd \<or> \<not> sd_started sd then 0 else ucast (now_ms - sd_silence_start sd))"

definition getThreshold :: "silence_detector \<Rightarrow> u32" where
  "getThreshold sd = sd_threshold sd"

definition getTimeoutMs :: "silence_detector \<Rightarrow> u32" where
  "getTimeoutMs sd = sd_timeout_ms sd"

definition isArmed :: "silence_detector \<Rightarrow> bool" where
  "isArmed sd = sd_armed sd"

type_synonym sample = "u32 \<times> u64"

definition feed_sample :: "silence_detector \<Rightarrow> sample \<Rightarrow> bool \<times> silence_detector" where
  "feed_sample sd x = feed sd (fst x) (snd x)"

interpretation detector: one_shot arm feed_sample isArmed
  by unfold_locales
    (auto simp: arm_def feed_sample_def feed_def isArmed_def Let_def split: if_splits)

lemma feed_keeps_setting [simp]:
  "sd_threshold (snd (feed sd l n)) = sd_threshold sd"
  "sd_timeout_ms (snd (feed sd l n)) = sd_timeout_ms sd"
  by (simp_all add: feed_def Let_def)

section \<open>What silence means\<close>

text \<open>
  The samples since the last loud one, and the condition under which the latest sample completes
  a silence: it is quiet, and the quiet stretch it ends began at least the timeout ago.
\<close>

definition quiet_tail :: "u32 \<Rightarrow> sample list \<Rightarrow> sample list" where
  "quiet_tail threshold xs = rev (takeWhile (\<lambda>x. fst x < threshold) (rev xs))"

definition silence_spec :: "u32 \<Rightarrow> u32 \<Rightarrow> sample list \<Rightarrow> bool" where
  "silence_spec threshold timeout_ms xs \<longleftrightarrow>
     (case quiet_tail threshold xs of [] \<Rightarrow> False
      | first # _ \<Rightarrow> ucast timeout_ms \<le> snd (last xs) - snd first)"

definition feed_all :: "silence_detector \<Rightarrow> sample list \<Rightarrow> silence_detector" where
  "feed_all sd xs = fold (\<lambda>x d. snd (feed_sample d x)) xs sd"

lemma quiet_tail_snoc:
  "quiet_tail th (xs @ [x]) = (if fst x < th then quiet_tail th xs @ [x] else [])"
  by (simp add: quiet_tail_def)

lemma feed_all_snoc: "feed_all sd (xs @ [x]) = snd (feed_sample (feed_all sd xs) x)"
  by (simp add: feed_all_def)

text \<open>The detector's state while no silence has been completed: its fields summarise the tail.\<close>

definition tracks :: "silence_detector \<Rightarrow> sample list \<Rightarrow> bool" where
  "tracks d xs \<longleftrightarrow> sd_armed d \<and>
     (case quiet_tail (sd_threshold d) xs of [] \<Rightarrow> \<not> sd_started d
      | first # _ \<Rightarrow> sd_started d \<and> sd_silence_start d = snd first)"

lemma tracks_arm: "tracks (arm sd) []"
  by (simp add: tracks_def arm_def quiet_tail_def)

lemma feed_tracks:
  assumes "tracks d xs"
  shows "fst (feed_sample d x) \<longleftrightarrow> silence_spec (sd_threshold d) (sd_timeout_ms d) (xs @ [x])"
    and "\<not> fst (feed_sample d x) \<Longrightarrow> tracks (snd (feed_sample d x)) (xs @ [x])"
  using assms
  by (auto simp: tracks_def silence_spec_def feed_sample_def feed_def quiet_tail_snoc Let_def not_less
      split: list.splits if_splits)

lemma feed_all_setting [simp]:
  "sd_threshold (feed_all sd xs) = sd_threshold sd" "sd_timeout_ms (feed_all sd xs) = sd_timeout_ms sd"
  by (induction xs rule: rev_induct) (simp_all add: feed_all_def feed_sample_def)

lemma tracks_feed_all:
  "tracks d [] \<Longrightarrow> \<forall>j<length xs. \<not> silence_spec (sd_threshold d) (sd_timeout_ms d) (take (Suc j) xs)
    \<Longrightarrow> tracks (feed_all d xs) xs"
proof (induction xs rule: rev_induct)
  case Nil
  then show ?case by (simp add: feed_all_def)
next
  case (snoc x xs)
  have "\<not> silence_spec (sd_threshold d) (sd_timeout_ms d) (take (Suc j) xs)" if "j < length xs" for j
    using snoc.prems(2) [rule_format, of j] that by simp
  with snoc have IH: "tracks (feed_all d xs) xs" by simp
  moreover have "\<not> silence_spec (sd_threshold d) (sd_timeout_ms d) (xs @ [x])"
    using snoc.prems(2) [rule_format, of "length xs"] by simp
  ultimately show ?case using feed_tracks [OF IH, of x] by (simp add: feed_all_snoc)
qed

lemma feeds_append: "feeds feed_sample d (xs @ ys)
   = feeds feed_sample d xs @ feeds feed_sample (feed_all d xs) ys"
  by (induction xs arbitrary: d) (simp_all add: feed_all_def split: prod.splits)

lemma length_feeds [simp]: "length (feeds fd d xs) = length xs"
  by (induction xs arbitrary: d) (simp_all split: prod.splits)

lemma feeds_nth:
  assumes "i < length xs"
  shows "feeds feed_sample d xs ! i = fst (feed_sample (feed_all d (take i xs)) (xs ! i))"
proof -
  have "feeds feed_sample d xs = feeds feed_sample d (take i xs)
      @ feeds feed_sample (feed_all d (take i xs)) (xs ! i # drop (Suc i) xs)"
    by (subst id_take_nth_drop [OF assms]) (rule feeds_append)
  then show ?thesis using assms by (simp add: nth_append split: prod.splits)
qed

text \<open>
  Once a sample has completed a silence the detector is unarmed, whatever follows.
\<close>

lemma unarmed_after_trigger:
  assumes "tracks d []" and "j < length xs"
    and "silence_spec (sd_threshold d) (sd_timeout_ms d) (take (Suc j) xs)"
  shows "\<not> sd_armed (feed_all d xs)"
proof -
  define k where "k = (LEAST k. silence_spec (sd_threshold d) (sd_timeout_ms d) (take (Suc k) xs))"
  have k: "silence_spec (sd_threshold d) (sd_timeout_ms d) (take (Suc k) xs)"
    and least: "\<And>i. i < k \<Longrightarrow> \<not> silence_spec (sd_threshold d) (sd_timeout_ms d) (take (Suc i) xs)"
    using assms(3) by (auto simp: k_def intro: LeastI dest: not_less_Least)
  have "k \<le> j" unfolding k_def by (rule Least_le) (rule assms(3))
  then have len: "k < length xs" using assms(2) by simp
  have "\<not> silence_spec (sd_threshold d) (sd_timeout_ms d) (take (Suc i) (take k xs))"
    if "i < length (take k xs)" for i using least [of i] that len by (simp add: min_def)
  then have t: "tracks (feed_all d (take k xs)) (take k xs)"
    by (intro tracks_feed_all [OF assms(1)]) simp
  have snoc: "take (Suc k) xs = take k xs @ [xs ! k]" by (rule take_Suc_conv_app_nth [OF len])
  have "fst (feed_sample (feed_all d (take k xs)) (xs ! k))"
    using feed_tracks(1) [OF t, of "xs ! k"] k snoc by simp
  then have "\<not> sd_armed (feed_all d (take (Suc k) xs))"
    using detector.feed_trigger [of "feed_all d (take k xs)" "xs ! k"]
    by (metis feed_all_snoc isArmed_def prod.collapse snoc)
  moreover have "\<not> sd_armed d' \<Longrightarrow> \<not> sd_armed (feed_all d' ys)" for d' ys
    by (induction ys rule: rev_induct) (simp_all add: feed_all_def feed_sample_def feed_def)
  ultimately show ?thesis
    by (metis append_take_drop_id feed_all_def fold_append o_apply)
qed

text \<open>
  C8: fed with any samples after \<open>arm()\<close>, the detector answers true at exactly one place: the first
  sample that ends a quiet stretch at least the timeout long. No loud sample lies in that stretch,
  and no later sample triggers again.
\<close>

theorem feed_implements_spec:
  assumes "i < length xs"
  shows "feeds feed_sample (arm sd) xs ! i \<longleftrightarrow>
    silence_spec (sd_threshold sd) (sd_timeout_ms sd) (take (Suc i) xs)
    \<and> (\<forall>j<i. \<not> silence_spec (sd_threshold sd) (sd_timeout_ms sd) (take (Suc j) xs))"
proof -
  let ?d = "arm sd" and ?p = "take i xs"
  have par: "sd_threshold ?d = sd_threshold sd" "sd_timeout_ms ?d = sd_timeout_ms sd"
    by (simp_all add: arm_def)
  have snoc: "take (Suc i) xs = ?p @ [xs ! i]" by (rule take_Suc_conv_app_nth [OF assms])
  have pre: "take (Suc j) ?p = take (Suc j) xs" if "j < i" for j using that by (simp add: min_def)
  show ?thesis
  proof (cases "\<exists>j<i. silence_spec (sd_threshold sd) (sd_timeout_ms sd) (take (Suc j) xs)")
    case True
    then obtain j where j: "j < i" "silence_spec (sd_threshold sd) (sd_timeout_ms sd) (take (Suc j) xs)"
      by blast
    with assms have "\<not> sd_armed (feed_all ?d ?p)"
      by (intro unarmed_after_trigger [OF tracks_arm, of j]) (simp_all add: par pre)
    then show ?thesis using True assms
      by (auto simp: feeds_nth feed_sample_def feed_def)
  next
    case False
    then have t: "tracks (feed_all ?d ?p) ?p"
      using assms by (intro tracks_feed_all [OF tracks_arm]) (simp add: par pre)
    from feed_tracks(1) [OF t, of "xs ! i"] False assms show ?thesis
      by (simp add: feeds_nth snoc par)
  qed
qed

theorem feed_implements_spec_witness:
  "feeds feed_sample (arm (SilenceDetector 10 1000)) [(0, 100), (255, 400), (0, 500), (0, 1500)] ! 3
   \<longleftrightarrow> silence_spec 10 1000 [(0, 100), (255, 400), (0, 500), (0, 1500)]"
  using feed_implements_spec [of 3 "[(0, 100), (255, 400), (0, 500), (0, 1500)]" "SilenceDetector 10 1000"]
  by (simp add: SilenceDetector_def silence_spec_def quiet_tail_def less_Suc_eq numeral_3_eq_3)

text \<open>
  After a feed that does not trigger, the silence the detector reports for that instant is the
  exact length of the current quiet stretch, below the timeout: the cast to 32 bits loses nothing.
\<close>

lemma current_silence_exact:
  assumes "feed sd level now_ms = (False, sd')" and "sd_armed sd" and "level < sd_threshold sd"
  shows "unat (getCurrentSilenceMs sd' now_ms) = unat (now_ms - sd_silence_start sd')
    \<and> unat (getCurrentSilenceMs sd' now_ms) < unat (sd_timeout_ms sd)"
proof -
  let ?e = "now_ms - sd_silence_start sd'"
  from assms have sd': "sd_armed sd'" "sd_started sd'" "?e < ucast (sd_timeout_ms sd)"
    by (auto simp: feed_def Let_def not_le split: if_splits)
  then have lt: "unat ?e < unat (sd_timeout_ms sd)"
    by (simp add: word_less_nat_alt unat_ucast_32_64 del: unsigned_ucast_eq)
  also have "\<dots> < 2 ^ 32" by (rule order_less_le_trans [OF unsigned_less]) simp
  finally have "unat (ucast ?e :: u32) = unat ?e"
    by (simp add: unsigned_ucast_eq take_bit_nat_eq_self_iff)
  with sd' lt show ?thesis by (simp add: getCurrentSilenceMs_def)
qed

text \<open>
  With a non-zero timeout one sample never triggers; with a zero timeout the first quiet one does;
  with a zero threshold nothing ever does, because every level counts as loud.
\<close>

lemma feed_edge_settings:
  "fst (feed (arm (SilenceDetector th to)) level now_ms) \<longleftrightarrow> level < th \<and> to = 0"
  by (auto simp: feed_def arm_def SilenceDetector_def Let_def not_le ucast_32_64_eq_0)

end
