(* ===== verification/Tts_Stub.thy ===== *)
theory Tts_Stub
  imports Prelude
begin

text \<open>
  \<open>src/tts_stub.cpp\<close>: splitting a text into words, the sample sequence (a tone of half a second per
  word, pauses between words) and the WAV file it is written to. The double-precision arithmetic of
  one tone sample (\<open>sin\<close> and the conversion to 16 bits) is the parameter \<open>tone\<close>; every statement
  holds for all tones. File-system effects are returned as a list of operations.
\<close>

datatype fs_op = Mkdir string | WriteFile string "byte list"

section \<open>Words\<close>

text \<open>\<open>std::istringstream >> std::string\<close>: skip spaces, take the characters up to the next one.\<close>

abbreviation nonspace :: "char \<Rightarrow> bool" where "nonspace c \<equiv> \<not> is_space c"

function words_of :: "string \<Rightarrow> string list" where
  "words_of s = (let r = dropWhile is_space s in
     if r = [] then [] else takeWhile nonspace r # words_of (dropWhile nonspace r))"
  by pat_completeness auto
termination
proof (relation "measure length")
  fix s :: string and r
  assume r: "r = dropWhile is_space s" and "r \<noteq> []"
  obtain c r' where cr: "r = c # r'" using \<open>r \<noteq> []\<close> by (meson list.exhaust)
  have "nonspace c" using r cr dropWhile_eq_Cons_conv by metis
  with cr have "length (dropWhile nonspace r) < length r"
    by (simp add: length_dropWhile_le less_Suc_eq_le)
  also have "\<dots> \<le> length s" unfolding r by (rule length_dropWhile_le)
  finally show "(dropWhile nonspace r, s) \<in> measure length" by simp
qed simp

declare words_of.simps [simp del]

lemma words_of_blank: "dropWhile is_space s = [] \<Longrightarrow> words_of s = []"
  by (simp add: words_of.simps [of s])

lemma words_of_word:
  "dropWhile is_space s = c # r \<Longrightarrow>
     nonspace c \<and> words_of s = takeWhile nonspace (c # r) # words_of (dropWhile nonspace (c # r))"
  using hd_dropWhile [of is_space s] by (simp add: words_of.simps [of s])

lemma words_nonblank: "w \<in> set (words_of s) \<Longrightarrow> w \<noteq> [] \<and> list_all nonspace w"
proof (induction s rule: words_of.induct)
  case (1 s)
  show ?case
  proof (cases "dropWhile is_space s")
    case Nil
    with 1 show ?thesis by (simp add: words_of_blank)
  next
    case (Cons c r)
    have "list_all nonspace (takeWhile nonspace xs)" for xs by (induction xs) auto
    with words_of_word [OF Cons] 1 Cons show ?thesis by auto
  qed
qed

lemma filter_takeWhile: "filter P xs = takeWhile P xs @ filter P (dropWhile P xs)"
  by (induction xs) auto

lemma filter_after_spaces: "filter nonspace (dropWhile is_space s) = filter nonspace s"
  by (induction s) auto

lemma concat_words_of: "concat (words_of s) = filter nonspace s"
proof (induction s rule: words_of.induct)
  case (1 s)
  show ?case
  proof (cases "dropWhile is_space s")
    case Nil
    then show ?thesis using filter_after_spaces [of s] by (simp add: words_of_blank)
  next
    case (Cons c r)
    with 1 have "concat (words_of s)
      = takeWhile nonspace (c # r) @ filter nonspace (dropWhile nonspace (c # r))"
      using words_of_word [OF Cons] by simp
    also have "\<dots> = filter nonspace (c # r)" by (rule filter_takeWhile [symmetric])
    finally show ?thesis using filter_after_spaces [of s] Cons by simp
  qed
qed

lemma words_of_space: "words_of (CHR '' '' # s) = words_of s"
  by (simp add: words_of.simps [of "CHR '' '' # s"] words_of.simps [of s] is_space_def)

lemma words_of_cons_word:
  assumes "w \<noteq> []" and "list_all nonspace w"
  shows "words_of (w @ '' '' @ s) = w # words_of s"
proof -
  from assms have "dropWhile is_space (w @ '' '' @ s) = w @ '' '' @ s"
    by (cases w) simp_all
  moreover have "takeWhile nonspace (w @ '' '' @ s) = w" "dropWhile nonspace (w @ '' '' @ s) = '' '' @ s"
    using assms(2) by (simp_all add: list_all_iff is_space_def)
  ultimately have "words_of (w @ '' '' @ s) = w # words_of ('' '' @ s)"
    using assms(1) by (subst words_of.simps) (simp add: Let_def)
  then show ?thesis by (simp add: words_of_space)
qed

lemma words_of_join:
  "\<forall>w \<in> set ws. w \<noteq> [] \<and> list_all nonspace w \<Longrightarrow> words_of (concat (map (\<lambda>w. w @ '' '') ws)) = ws"
proof (induction ws)
  case Nil
  then show ?case by (simp add: words_of_blank)
next
  case (Cons w ws)
  then show ?case using words_of_cons_word [of w "concat (map (\<lambda>w. w @ '' '') ws)"] by simp
qed

section \<open>Samples\<close>

abbreviation samples_per_word :: nat where "samples_per_word \<equiv> 8000 div 2"
abbreviation samples_pause :: nat where "samples_pause \<equiv> 8000 div 5"

fun word_samples :: "(nat \<Rightarrow> u16) \<Rightarrow> string list \<Rightarrow> u16 list" where
  "word_samples tone [] = []"
| "word_samples tone (w # ws) = map tone [0..<samples_per_word]
     @ (if ws \<noteq> [] then replicate samples_pause 0 else []) @ word_samples tone ws"

lemma word_samples_count: "word_samples tone ws = word_samples tone ws'" if "length ws = length ws'"
  using that by (induction ws ws' rule: list_induct2) auto

lemma length_word_samples:
  "length (word_samples tone ws) = 4000 * length ws + 1600 * (length ws - 1)"
proof (induction ws)
  case (Cons w ws)
  then show ?case by (cases ws) simp_all
qed simp

section \<open>The WAV file\<close>

definition ascii :: "string \<Rightarrow> byte list" where
  "ascii s = map of_char s"

lemma length_ascii [simp]: "length (ascii s) = length s"
  by (simp add: ascii_def)

definition data_bytes :: "u16 list \<Rightarrow> u32" where
  "data_bytes samples = of_nat (length samples) * 2"

definition writeWav :: "u16 list \<Rightarrow> byte list" where
  "writeWav samples = (let n = data_bytes samples; sample_rate = 8000 in
     ascii ''RIFF'' @ le32 (36 + n) @ ascii ''WAVE''
     @ ascii ''fmt '' @ le32 16 @ le16 1 @ le16 1 @ le32 sample_rate @ le32 (sample_rate * 2)
     @ le16 2 @ le16 16
     @ ascii ''data'' @ le32 n @ take (unat n) (concat (map le16 samples)))"

definition synth :: "(nat \<Rightarrow> u16) \<Rightarrow> string \<Rightarrow> string \<Rightarrow> string \<times> fs_op list" where
  "synth tone text outdir =
    (let words = words_of text; outpath = outdir @ ''/tts_stub.wav'' in
     if words = [] then ('''', [Mkdir outdir])
     else (outpath, [Mkdir outdir, WriteFile outpath (writeWav (word_samples tone words))]))"

text \<open>A reader of 8 kHz mono PCM16 files, field by field.\<close>

record wav =
  riff_size :: nat
  audio_format :: nat
  channels :: nat
  sample_rate :: nat
  byte_rate :: nat
  block_align :: nat
  bits_per_sample :: nat
  data_size :: nat
  pcm :: "u16 list"

fun of_le16s :: "byte list \<Rightarrow> u16 list" where
  "of_le16s (a # b # bs) = of_nat (of_le [a, b]) # of_le16s bs"
| "of_le16s _ = []"

definition readWav :: "byte list \<Rightarrow> wav option" where
  "readWav bs = (let at = (\<lambda>i n. take n (drop i bs)) in
     if at 0 4 = ascii ''RIFF'' \<and> at 8 8 = ascii ''WAVEfmt '' \<and> of_le (at 16 4) = 16
        \<and> at 36 4 = ascii ''data''
     then Some \<lparr>riff_size = of_le (at 4 4), audio_format = of_le (at 20 2), channels = of_le (at 22 2),
       sample_rate = of_le (at 24 4), byte_rate = of_le (at 28 4), block_align = of_le (at 32 2),
       bits_per_sample = of_le (at 34 2), data_size = of_le (at 40 4), pcm = of_le16s (drop 44 bs)\<rparr>
     else None)"

lemma of_le16s_le16: "of_le16s (le16 w @ bs) = w # of_le16s bs"
proof -
  have "of_nat (of_le [ucast w, ucast (drop_bit 8 w)]) = (of_nat (of_le (le16 w)) :: u16)"
    by (simp only: le16_def)
  also have "\<dots> = w" by simp
  finally show ?thesis by (simp add: le16_def)
qed

lemma of_le16s_concat [simp]: "of_le16s (concat (map le16 ss)) = ss"
  by (induction ss) (simp_all add: of_le16s_le16)

lemma length_concat_le16 [simp]: "length (concat (map le16 ss)) = 2 * length ss"
  by (induction ss) simp_all

text \<open>The size field, where it does not wrap.\<close>

lemma unat_data_bytes: "2 * length ss < 2 ^ 32 \<Longrightarrow> unat (data_bytes ss) = 2 * length ss"
  by (simp add: data_bytes_def unat_word_ariths unat_of_nat take_bit_eq_mod)

lemma unat_riff_size: "2 * length ss + 36 < 2 ^ 32 \<Longrightarrow> unat (36 + data_bytes ss) = 36 + 2 * length ss"
  using unat_data_bytes [of ss] by (simp add: unat_word_ariths)

lemma wav_data:
  assumes "2 * length ss + 36 < 2 ^ 32"
  shows "readWav (writeWav ss) = Some \<lparr>riff_size = 36 + 2 * length ss, audio_format = 1, channels = 1,
    sample_rate = 8000, byte_rate = 16000, block_align = 2, bits_per_sample = 16,
    data_size = 2 * length ss, pcm = ss\<rparr>"
proof -
  from assms have n: "unat (data_bytes ss) = 2 * length ss" by (intro unat_data_bytes) simp
  show ?thesis
    unfolding readWav_def writeWav_def Let_def n
    by (simp add: ascii_def unat_riff_size [OF assms] n drop_Cons' take_Cons')
qed

text \<open>
  C32: reading a written file gives back the samples and a header that describes them (8 kHz, mono,
  16 bit, the sizes of the chunks), as long as the sizes fit the 32-bit fields of the format.
\<close>

theorem wav_roundtrip:
  assumes "2 * length ss + 36 < 2 ^ 32"
  shows "readWav (writeWav ss) = Some \<lparr>riff_size = 36 + 2 * length ss, audio_format = 1, channels = 1,
    sample_rate = 8000, byte_rate = 16000, block_align = 2, bits_per_sample = 16,
    data_size = 2 * length ss, pcm = ss\<rparr>"
  using assms by (rule wav_data)

theorem wav_roundtrip_witness:
  "map_option pcm (readWav (writeWav [1, 2, 65535])) = Some [1, 2, 65535]"
  by (simp only: wav_roundtrip [of "[1, 2, 65535]", simplified] option.map wav.simps)

lemma words_of_Nil_iff: "words_of text = [] \<longleftrightarrow> list_all is_space text"
proof
  show "list_all is_space text" if "words_of text = []"
    using concat_words_of [of "text"] that by (auto simp: list_all_iff filter_empty_conv dest: sym)
  show "words_of text = []" if "list_all is_space text"
    using that by (simp add: words_of_blank dropWhile_eq_Nil_conv list_all_iff)
qed

text \<open>Every 5600 samples a word starts: 4000 samples of its tone, then the pause.\<close>

lemma word_samples_nth:
  "k < length (word_samples tone ws) \<Longrightarrow>
     word_samples tone ws ! k = (if k mod 5600 < 4000 then tone (k mod 5600) else 0)"
proof (induction ws arbitrary: k)
  case (Cons w ws)
  show ?case
  proof (cases "ws = []")
    case True
    with Cons.prems show ?thesis by (simp add: nth_append)
  next
    case False
    consider "k < 4000" | "4000 \<le> k" "k < 5600" | "5600 \<le> k" by linarith
    then show ?thesis
    proof cases
      case 3
      then have k: "k mod 5600 = (k - 5600) mod 5600" by (simp add: le_mod_geq)
      have "\<not> k - 4000 < 1600" using 3 by linarith
      with 3 False Cons.prems have "word_samples tone (w # ws) ! k = word_samples tone ws ! (k - 5600)"
        by (simp add: nth_append)
      moreover have "k - 5600 < length (word_samples tone ws)" using 3 False Cons.prems by simp
      ultimately show ?thesis using Cons.IH k by simp
    next
      case 2
      then have "k - 4000 < 1600" by linarith
      with 2 False show ?thesis by (simp add: nth_append)
    qed (simp add: nth_append)
  qed
qed simp

text \<open>
  C33: for a text with a word in it, \<open>synth\<close> returns the fixed file name in the output directory and
  writes exactly one file, which reads back as half a second of tone for every word, the same for each,
  with a fifth of a second of silence between two words and nothing after the last; for an empty or
  blank text it creates the directory, writes no file and returns the empty path. The text has fewer than
  383480 words, so that the sizes fit the fields of the format.
\<close>

theorem synth_file:
  assumes "11200 * length (words_of text) < 2 ^ 32"
  shows "if list_all is_space text then synth tone text outdir = ('''', [Mkdir outdir])
    else \<exists>bytes samples. synth tone text outdir = (outdir @ ''/tts_stub.wav'',
        [Mkdir outdir, WriteFile (outdir @ ''/tts_stub.wav'') bytes])
      \<and> map_option pcm (readWav bytes) = Some samples
      \<and> length samples = 4000 * length (words_of text) + 1600 * (length (words_of text) - 1)
      \<and> (\<forall>k < length samples. samples ! k = (if k mod 5600 < 4000 then tone (k mod 5600) else 0))"
proof (cases "words_of text = []")
  case True
  then show ?thesis by (simp add: words_of_Nil_iff [symmetric] synth_def Let_def)
next
  case False
  let ?ss = "word_samples tone (words_of text)"
  have "2 * length ?ss + 36 < 2 ^ 32"
    using assms False unfolding length_word_samples by (cases "words_of text") simp_all
  then have "map_option pcm (readWav (writeWav ?ss)) = Some ?ss"
    by (simp only: wav_data option.map wav.simps)
  moreover have "synth tone text outdir = (outdir @ ''/tts_stub.wav'',
      [Mkdir outdir, WriteFile (outdir @ ''/tts_stub.wav'') (writeWav ?ss)])"
    using False by (simp add: synth_def Let_def)
  ultimately show ?thesis
    using False word_samples_nth [of _ tone "words_of text"] length_word_samples [of tone "words_of text"]
    unfolding words_of_Nil_iff by auto
qed

lemma words_of_two: "words_of ''hi you'' = [''hi'', ''you'']"
  by (simp add: words_of.simps is_space_def)

theorem synth_file_witness:
  "\<exists>bytes samples. synth of_nat ''hi you'' ''/tmp'' = (''/tmp/tts_stub.wav'', [Mkdir ''/tmp'', WriteFile ''/tmp/tts_stub.wav'' bytes])
     \<and> map_option pcm (readWav bytes) = Some samples \<and> length samples = 9600 \<and> samples ! 4100 = 0 \<and> samples ! 5607 = 7"
proof -
  have "\<not> list_all is_space ''hi you''" by (simp add: is_space_def)
  then obtain bytes samples where "synth of_nat ''hi you'' ''/tmp'' = (''/tmp'' @ ''/tts_stub.wav'',
        [Mkdir ''/tmp'', WriteFile (''/tmp'' @ ''/tts_stub.wav'') bytes])"
      and "map_option pcm (readWav bytes) = Some samples" "length samples = 9600"
      "\<forall>k < length samples. samples ! k = (if k mod 5600 < 4000 then of_nat (k mod 5600) else 0)"
    using synth_file [of "''hi you''" of_nat "''/tmp''"] by (auto simp: words_of_two)
  then show ?thesis by (intro exI [of _ bytes] exI [of _ samples]) simp
qed

text \<open>
  The synthesised audio depends on the text only through the number of its words, so equal word
  counts give byte-identical files, and a text without words gives the empty path and no file.
\<close>

lemma synth_word_count:
  "synth tone text outdir = (if words_of text = [] then ('''', [Mkdir outdir])
     else synth tone (concat (replicate (length (words_of text)) ''x '')) outdir)"
proof -
  have words: "words_of (concat (replicate n ''x '')) = replicate n ''x''" for n
    by (induction n) (simp_all add: words_of.simps [of "[]"] words_of.simps [of "CHR ''x'' # _"]
        words_of_space is_space_def)
  have "word_samples tone (replicate (length (words_of text)) ''x'') = word_samples tone (words_of text)"
    by (rule word_samples_count) simp
  then show ?thesis by (simp add: synth_def Let_def words)
qed

text \<open>
  The words of a text are its maximal runs of non-space characters: none is empty, none holds a
  space, together they are the text without its spaces, and a text of words separated by single
  spaces splits into exactly these words.
\<close>

lemma words_of_sound:
  "(\<forall>w \<in> set (words_of text). w \<noteq> [] \<and> list_all nonspace w)
   \<and> concat (words_of text) = filter nonspace text
   \<and> words_of (concat (map (\<lambda>w. w @ '' '') (words_of text))) = words_of text"
  using words_nonblank concat_words_of words_of_join [of "words_of text"]
  by (auto simp: list_all_iff)

end
