(* ===== verification/Call_Executor.thy ===== *)
theory Call_Executor
  imports Sip_Agent Silence Tts_Stub
begin

text \<open>
  \<open>src/call_executor.h\<close> and \<open>src/call_executor.cpp\<close>: the state machine of one call.

  \<open>run()\<close> executes on one thread while PJSIP's threads push events and another thread may cancel.
  Its model is sequential code over the state \<open>exec\<close> (the members of the class, the event sink, the
  file system effects and the locals of \<open>run()\<close>) against an environment \<open>env\<close> that says what the
  rest of the world does. The state counts its interactions (\<open>x_tick\<close>); before the n-th one the
  other threads perform the actions \<open>others n\<close>, the n-th clock reading is \<open>clock n\<close>, and
  \<open>during n\<close> is what happens while the executor waits for an event. All of these are arbitrary:
  no order of callbacks, no monotone clock and no cooperation is assumed.

  Each phase of \<open>run()\<close> is a definition of its own, in the order of the source; a loop is \<open>loop\<close> of
  the definition of one round. A \<open>return result_\<close> is \<open>Return\<close>, an exception of PJSIP that leaves
  \<open>run()\<close> is \<open>Throw\<close>, a loop that never stops is \<open>None\<close>. Messages on standard error are left out.
\<close>

section \<open>State and environment\<close>

datatype thread_action = Callback callback | CancelStore | CancelWake

record env =
  pjsip :: pj
  others :: "nat \<Rightarrow> thread_action list"
  during :: "nat \<Rightarrow> thread_action list"
  clock :: "nat \<Rightarrow> u64"
  tone :: "nat \<Rightarrow> u16"

record exec =
  x_config :: config
  x_agent :: sip_agent
  x_cancelled :: bool
  x_result :: agent_event
  x_call_connected_ms :: u64
  x_playback_started_ms :: u64
  x_emitted :: "agent_event list"
  x_files :: "fs_op list"
  x_tick :: nat
  x_reg_start :: u64
  x_answered :: bool
  x_media_active :: bool
  x_answer_timeout_hit :: bool
  x_answer_deadline_ms :: u64
  x_play_path :: string
  x_play_at_ms :: u64
  x_played :: bool
  x_sd :: silence_detector
  x_silent :: bool

text \<open>
  The constructor. \<open>result_\<close> has no initial status in the source (\<open>run()\<close> sets it first); the locals
  of \<open>run()\<close> get their initial values here and again where the code declares them.
\<close>

definition CallExecutor :: "config \<Rightarrow> exec" where
  "CallExecutor c = \<lparr>x_config = c, x_agent = SipAgent c, x_cancelled = False,
     x_result = AgentEvent FAILED '''' '''' 0 0 '''', x_call_connected_ms = 0,
     x_playback_started_ms = 0, x_emitted = [], x_files = [], x_tick = 0, x_reg_start = 0,
     x_answered = False, x_media_active = False, x_answer_timeout_hit = False,
     x_answer_deadline_ms = 0, x_play_path = '''', x_play_at_ms = 0, x_played = False,
     x_sd = SilenceDetector 0 0, x_silent = False\<rparr>"

section \<open>The other threads\<close>

fun agent_act :: "thread_action \<Rightarrow> sip_agent \<Rightarrow> sip_agent" where
  "agent_act (Callback cb) a = run_callback cb a"
| "agent_act CancelStore a = a"
| "agent_act CancelWake a = wakeDispatcher a"

definition act :: "thread_action \<Rightarrow> exec \<Rightarrow> exec" where
  "act t s = s\<lparr>x_agent := agent_act t (x_agent s), x_cancelled := (x_cancelled s \<or> t = CancelStore)\<rparr>"

text \<open>\<open>cancel()\<close>: two steps, between which any other thread may run.\<close>

definition cancel :: "thread_action list" where
  "cancel = [CancelStore, CancelWake]"

definition tock :: "env \<Rightarrow> exec \<Rightarrow> exec" where
  "tock w s = (fold act (others w (x_tick s)) s)\<lparr>x_tick := Suc (x_tick s)\<rparr>"

definition isCancelled :: "env \<Rightarrow> exec \<Rightarrow> bool \<times> exec" where
  "isCancelled w s = (x_cancelled (tock w s), tock w s)"

definition nowMs :: "env \<Rightarrow> exec \<Rightarrow> u64 \<times> exec" where
  "nowMs w s = (clock w (x_tick s), tock w s)"

definition waitFor :: "env \<Rightarrow> nat \<Rightarrow> exec \<Rightarrow> internal_event option \<times> exec" where
  "waitFor w timeout_ms s =
    (let s1 = tock w s; acts = during w (x_tick s);
         (r, a) = waitEvent (fold agent_act acts) (x_agent s1)
     in (r, s1\<lparr>x_agent := a,
              x_cancelled := (x_cancelled s1 \<or> (sa_queue (x_agent s1) = [] \<and> CancelStore \<in> set acts))\<rparr>))"

section \<open>Small operations\<close>

definition emitEvent :: "agent_event \<Rightarrow> exec \<Rightarrow> exec" where
  "emitEvent ev s = s\<lparr>x_emitted := x_emitted s @ [ev]\<rparr>"

abbreviation callId :: "exec \<Rightarrow> string" where
  "callId s \<equiv> sa_call_id (x_agent s)"

text \<open>A state change of the public lifecycle: \<open>emitEvent({status, callId, "", 0, 0, ""})\<close>.\<close>

definition emitState :: "call_status \<Rightarrow> exec \<Rightarrow> exec" where
  "emitState st s = emitEvent (AgentEvent st (callId s) '''' 0 0 '''') s"

definition set_status :: "call_status \<Rightarrow> exec \<Rightarrow> exec" where
  "set_status st s = s\<lparr>x_result := (x_result s)\<lparr>status := st\<rparr>\<rparr>"

definition set_reason :: "string \<Rightarrow> exec \<Rightarrow> exec" where
  "set_reason why s = s\<lparr>x_result := (x_result s)\<lparr>reason := why\<rparr>\<rparr>"

definition set_sip_code :: "int \<Rightarrow> exec \<Rightarrow> exec" where
  "set_sip_code code s = s\<lparr>x_result := (x_result s)\<lparr>sip_code := code\<rparr>\<rparr>"

definition agent_do :: "(sip_agent \<Rightarrow> (unit, sip_agent) attempt) \<Rightarrow> exec \<Rightarrow> exec flow option" where
  "agent_do f s = (case f (x_agent s) of
      Done _ a \<Rightarrow> Some (Next (s\<lparr>x_agent := a\<rparr>))
    | Threw a \<Rightarrow> Some (Throw (s\<lparr>x_agent := a\<rparr>)))"

definition agent_hangup :: "env \<Rightarrow> exec \<Rightarrow> exec flow option" where
  "agent_hangup w s = agent_do (hangup (pjsip w)) s"

definition hang_up_cancelled :: "env \<Rightarrow> exec \<Rightarrow> exec flow option" where
  "hang_up_cancelled w s = then_do (agent_hangup w s) (\<lambda>s. Some (Return (set_status CANCELLED s)))"

definition failed_status :: "exec \<Rightarrow> bool" where
  "failed_status s \<longleftrightarrow> status (x_result s) = FAILED \<or> status (x_result s) = BUSY
     \<or> status (x_result s) = NO_ANSWER"

section \<open>handleDisconnect\<close>

definition handleDisconnect :: "env \<Rightarrow> int \<Rightarrow> string \<Rightarrow> exec \<Rightarrow> exec" where
  "handleDisconnect w code why s0 =
    (let (bill_sec, s) =
           (if x_call_connected_ms s0 > 0 then
              let (now, s1) = nowMs w s0; elapsed = now - x_call_connected_ms s0
              in (ucast ((elapsed + 999) div 1000) :: u32, s1)
            else (0, s0));
         st = (if x_call_connected_ms s > 0 then ANSWERED else sipCodeToCallStatus code);
         s = s\<lparr>x_result := (x_result s)\<lparr>status := st, sip_code := code, reason := why,
                                     billing_seconds := bill_sec\<rparr>\<rparr>;
         s = s\<lparr>x_agent := stopRecorder (x_agent s)\<rparr>;
         path = recording_path (x_result s);
         s = (if path \<noteq> [] then emitEvent (AgentEvent RECORDING_READY (callId s) path bill_sec 0 '''') s
              else s)
     in emitEvent ((AgentEvent st (callId s) path bill_sec code why)\<lparr>is_result := True\<rparr>) s)"

section \<open>run\<close>

subsection \<open>Steps 1 and 2: initialisation and registration\<close>

definition step_init :: "env \<Rightarrow> exec \<Rightarrow> exec flow option" where
  "step_init w s0 =
    (let s = set_status FAILED s0 in
     case init (pjsip w) (x_agent s) of
       Threw a \<Rightarrow> Some (Throw (s\<lparr>x_agent := a\<rparr>))
     | Done ok a \<Rightarrow>
         (let s = s\<lparr>x_agent := a\<rparr> in
          if \<not> ok then
            let s = set_reason ''failed to initialize SIP agent'' (set_status FAILED s)
            in Some (Return (emitEvent (AgentEvent FAILED '''' '''' 0 0 (reason (x_result s))) s))
          else Some (Next s)))"

definition register_round :: "env \<Rightarrow> exec \<Rightarrow> exec iter option" where
  "register_round w s =
    (let (c, s) = isCancelled w s in
     if c then Some (Stop (Next s))
     else let (r, s) = waitFor w 500 s in
     case r of
       None \<Rightarrow>
         (let (now, s) = nowMs w s in
          if now - x_reg_start s \<ge> 15000 then
            let s = set_reason ''registration timeout'' (set_sip_code 0 (set_status FAILED s))
            in Some (Stop (Return
                 (emitEvent (AgentEvent FAILED (callId s) '''' 0 0 ''registration timeout'') s)))
          else Some (Continue s))
     | Some ev \<Rightarrow>
         if ev_type ev = REG_STATE then
           if ev_connected ev then Some (Stop (Next (emitState REGISTERED s)))
           else
             let s = set_reason (ev_reason ev) (set_sip_code (ev_sip_code ev) (set_status FAILED s))
             in Some (Stop (Return
                  (emitEvent (AgentEvent FAILED (callId s) '''' 0 (ev_sip_code ev) (ev_reason ev)) s)))
         else Some (Continue s))"

definition step_register :: "env \<Rightarrow> exec \<Rightarrow> exec flow option" where
  "step_register w s =
    (let s = emitState REGISTERING s; (now, s) = nowMs w s
     in loop (register_round w) (s\<lparr>x_reg_start := now\<rparr>))"

definition check_not_placed :: "env \<Rightarrow> exec \<Rightarrow> exec flow option" where
  "check_not_placed w s =
    (let (c, s) = isCancelled w s in
     if c then Some (Return (set_reason ''cancelled before call placed'' (set_status CANCELLED s)))
     else Some (Next s))"

subsection \<open>Steps 3 and 4: the call until it is answered\<close>

definition step_dial :: "env \<Rightarrow> exec \<Rightarrow> exec flow option" where
  "step_dial w s = agent_do (placeCall (pjsip w)) (emitState DIALING s)"

definition deadline_hangup :: "env \<Rightarrow> exec \<Rightarrow> exec flow option" where
  "deadline_hangup w s =
    (if \<not> x_answered s \<and> \<not> x_answer_timeout_hit s then
       let (now, s) = nowMs w s in
       if now \<ge> x_answer_deadline_ms s then agent_hangup w (s\<lparr>x_answer_timeout_hit := True\<rparr>)
       else Some (Next s)
     else Some (Next s))"

definition safety_net :: "env \<Rightarrow> exec \<Rightarrow> exec flow option" where
  "safety_net w s =
    (if x_answer_timeout_hit s then
       let (now, s) = nowMs w s in
       if now \<ge> x_answer_deadline_ms s + 10000 then
         let s = set_reason ''answer timeout'' (set_status NO_ANSWER s)
         in Some (Return (emitEvent ((AgentEvent NO_ANSWER (callId s) '''' 0 0 (reason (x_result s)))
              \<lparr>is_result := True\<rparr>) s))
       else Some (Next s)
     else Some (Next s))"

definition answer_check :: "exec \<Rightarrow> exec iter option" where
  "answer_check s = (if x_answered s \<and> x_media_active s then Some (Stop (Next s)) else Some (Continue s))"

definition answer_event :: "env \<Rightarrow> internal_event \<Rightarrow> exec \<Rightarrow> exec iter option" where
  "answer_event w ev s =
    (if ev_type ev = CALL_STATE then
       if ev_call_state ev = INV_STATE_CALLING then answer_check s
       else if ev_call_state ev = INV_STATE_EARLY then answer_check (emitState RINGING s)
       else if ev_call_state ev = INV_STATE_CONFIRMED then
         let s = set_status ANSWERED (s\<lparr>x_answered := True\<rparr>); (now, s) = nowMs w s;
             s = s\<lparr>x_call_connected_ms := now\<rparr>;
             s = s\<lparr>x_agent := setCallStartTime now (x_agent s)\<rparr>
         in answer_check (emitState ANSWERED s)
       else if ev_call_state ev = INV_STATE_DISCONNECTED then
         if x_answer_timeout_hit s then
           Some (Stop (Return (handleDisconnect w 487 ''answer timeout'' s)))
         else Some (Stop (Return (handleDisconnect w (ev_sip_code ev) (ev_reason ev) s)))
       else answer_check s
     else if ev_type ev = MEDIA_STATE then
       answer_check (if ev_media_active ev then s\<lparr>x_media_active := True\<rparr> else s)
     else answer_check s)"

definition answer_round :: "env \<Rightarrow> exec \<Rightarrow> exec iter option" where
  "answer_round w s =
    (let (c, s) = isCancelled w s in
     if c then Some (Stop (Next s))
     else in_body (deadline_hangup w s) (\<lambda>s. in_body (safety_net w s) (\<lambda>s.
       let (r, s) = waitFor w 500 s in
       case r of None \<Rightarrow> Some (Continue s) | Some ev \<Rightarrow> answer_event w ev s)))"

definition step_answer :: "env \<Rightarrow> exec \<Rightarrow> exec flow option" where
  "step_answer w s =
    (let s = s\<lparr>x_answered := False, x_media_active := False, x_answer_timeout_hit := False\<rparr>;
         (now, s) = nowMs w s
     in loop (answer_round w)
          (s\<lparr>x_answer_deadline_ms := now + ucast (answer_timeout_s (x_config s)) * 1000\<rparr>))"

definition check_answered :: "env \<Rightarrow> exec \<Rightarrow> exec flow option" where
  "check_answered w s =
    (let (c, s) = isCancelled w s in
     if c then then_do (agent_hangup w s)
                 (\<lambda>s. Some (Return (set_reason ''cancelled by user'' (set_status CANCELLED s))))
     else if failed_status s then Some (Return s) else Some (Next s))"

subsection \<open>Step 5: recording, answer delay, playback\<close>

definition recording_file :: "exec \<Rightarrow> string" where
  "recording_file s = record_dir (x_config s) @ ''/'' @ callId s @ ''.wav''"

definition step_record :: "env \<Rightarrow> exec \<Rightarrow> exec flow option" where
  "step_record w s =
    (let s = s\<lparr>x_files := x_files s @ [Mkdir (record_dir (x_config s))]\<rparr>; rec_path = recording_file s in
     then_do (agent_do (startRecorder (pjsip w) rec_path) s)
       (\<lambda>s. Some (Next (s\<lparr>x_result := (x_result s)\<lparr>recording_path := rec_path\<rparr>\<rparr>))))"

definition choose_audio :: "env \<Rightarrow> exec \<Rightarrow> exec" where
  "choose_audio w s =
    (let src = audio_source (x_config s) in
     if source_type src = ''wav'' then s\<lparr>x_play_path := path_or_text src\<rparr>
     else if source_type src = ''text'' then
       case synth (tone w) (path_or_text src) (record_dir (x_config s)) of
         (path, files) \<Rightarrow> s\<lparr>x_play_path := path, x_files := x_files s @ files\<rparr>
     else s\<lparr>x_play_path := ''''\<rparr>)"

text \<open>\<open>while (nowMs() < play_at_ms && !cancelled_) sleep_for(50 ms)\<close>\<close>

definition delay_round :: "env \<Rightarrow> exec \<Rightarrow> exec iter option" where
  "delay_round w s =
    (let (now, s) = nowMs w s in
     if now < x_play_at_ms s then
       let (c, s) = isCancelled w s in if c then Some (Stop (Next s)) else Some (Continue s)
     else Some (Stop (Next s)))"

definition step_delay :: "env \<Rightarrow> exec \<Rightarrow> exec flow option" where
  "step_delay w s =
    loop (delay_round w) (s\<lparr>x_play_at_ms := x_call_connected_ms s
      + ucast (answer_delay_s (x_config s)) * 1000\<rparr>)"

definition check_cancelled :: "env \<Rightarrow> exec \<Rightarrow> exec flow option" where
  "check_cancelled w s =
    (let (c, s) = isCancelled w s in if c then hang_up_cancelled w s else Some (Next s))"

definition step_play :: "env \<Rightarrow> exec \<Rightarrow> exec flow option" where
  "step_play w s =
    (let s = emitState PLAYING s; (now, s) = nowMs w s; s = s\<lparr>x_playback_started_ms := now\<rparr>
     in agent_do (startPlayer (pjsip w) (x_play_path s)) s)"

subsection \<open>Step 6: until the end of the playback\<close>

text \<open>
  One round of \<open>while (!cancelled_)\<close> waiting for the end of the call: the inner loop of step 6 after
  the maximal duration, and the loop of step 8.
\<close>

definition drain_round :: "env \<Rightarrow> exec \<Rightarrow> exec iter option" where
  "drain_round w s =
    (let (c, s) = isCancelled w s in
     if c then Some (Stop (Next s))
     else let (r, s) = waitFor w 500 s in
     case r of None \<Rightarrow> Some (Continue s)
     | Some ev \<Rightarrow> if is_disconnect ev
         then Some (Stop (Return (handleDisconnect w (ev_sip_code ev) (ev_reason ev) s)))
         else Some (Continue s))"

definition play_round :: "env \<Rightarrow> exec \<Rightarrow> exec iter option" where
  "play_round w s =
    (if x_played s then Some (Stop (Next s))
     else let (c, s) = isCancelled w s in
     if c then Some (Stop (Next s))
     else let (r, s) = waitFor w 500 s in
     case r of
       None \<Rightarrow>
         (let (now, s) = nowMs w s in
          if now - x_call_connected_ms s \<ge> 600000 then
            map_option Stop (then_do (agent_hangup w s) (loop (drain_round w)))
          else Some (Continue s))
     | Some ev \<Rightarrow>
         if ev_type ev = PLAYBACK_EOF then
           Some (Stop (Next (emitState PLAYED (s\<lparr>x_played := True\<rparr>))))
         else if is_disconnect ev then
           Some (Stop (Return (handleDisconnect w (ev_sip_code ev) (ev_reason ev) s)))
         else Some (Continue s))"

definition step_playback :: "env \<Rightarrow> exec \<Rightarrow> exec flow option" where
  "step_playback w s = loop (play_round w) (s\<lparr>x_played := False\<rparr>)"

definition check_played :: "env \<Rightarrow> exec \<Rightarrow> exec flow option" where
  "check_played w s =
    (let (c, s) = isCancelled w s in
     if c then hang_up_cancelled w s
     else if failed_status s then Some (Return s) else Some (Next s))"

subsection \<open>Step 7: silence\<close>

definition silence_round :: "env \<Rightarrow> exec \<Rightarrow> exec iter option" where
  "silence_round w s =
    (if x_silent s then Some (Stop (Next s))
     else let (c, s) = isCancelled w s in
     if c then Some (Stop (Next s))
     else let (r, s) = waitFor w 100 s in
     if r \<noteq> None \<and> is_disconnect (the r) then
       Some (Stop (Return (handleDisconnect w (ev_sip_code (the r)) (ev_reason (the r)) s)))
     else case getRxLevel (pjsip w) (x_agent s) of
       Threw a \<Rightarrow> Some (Stop (Throw (s\<lparr>x_agent := a\<rparr>)))
     | Done level a \<Rightarrow>
         (let s = s\<lparr>x_agent := a\<rparr>; (now, s) = nowMs w s; (trigger, sd) = feed (x_sd s) level now;
              s = s\<lparr>x_sd := sd\<rparr>;
              s = (if trigger then s\<lparr>x_silent := True\<rparr> else s);
              (now, s) = nowMs w s
          in if now - x_call_connected_ms s \<ge> 600000 then Some (Stop (Next (s\<lparr>x_silent := True\<rparr>)))
             else Some (Continue s)))"

definition silence_setup :: "exec \<Rightarrow> exec" where
  "silence_setup s = s\<lparr>x_sd := arm (SilenceDetector (word_of_int (silence_threshold (x_config s)))
       (silence_s (x_config s) * 1000)), x_silent := False\<rparr>"

definition check_silence :: "env \<Rightarrow> exec \<Rightarrow> exec flow option" where
  "check_silence w s =
    (let (c, s) = isCancelled w s in
     if c then Some (Return (set_status CANCELLED s))
     else
       let s = emitEvent (AgentEvent SILENCE_DETECTED (callId s) '''' (silence_s (x_config s)) 0 '''') s
       in agent_hangup w (emitState HANGING_UP s))"

definition step_silence :: "env \<Rightarrow> exec \<Rightarrow> exec flow option" where
  "step_silence w s = then_do (loop (silence_round w) (silence_setup s)) (check_silence w)"

subsection \<open>Step 8 and the whole\<close>

definition step_disconnect :: "env \<Rightarrow> exec \<Rightarrow> exec flow option" where
  "step_disconnect w s = then_do (loop (drain_round w) s) (\<lambda>s. Some (Return (set_status CANCELLED s)))"

definition run_setup :: "env \<Rightarrow> exec \<Rightarrow> exec flow option" where
  "run_setup w s = then_do (step_init w s) (\<lambda>s. then_do (step_register w s) (check_not_placed w))"

definition run_dial :: "env \<Rightarrow> exec \<Rightarrow> exec flow option" where
  "run_dial w s = then_do (step_dial w s) (\<lambda>s. then_do (step_answer w s) (check_answered w))"

definition run_play :: "env \<Rightarrow> exec \<Rightarrow> exec flow option" where
  "run_play w s = then_do (step_record w s) (\<lambda>s. then_do (step_delay w (choose_audio w s)) (\<lambda>s.
     then_do (check_cancelled w s) (\<lambda>s. then_do (step_play w s) (\<lambda>s.
     then_do (step_playback w s) (check_played w)))))"

definition run_end :: "env \<Rightarrow> exec \<Rightarrow> exec flow option" where
  "run_end w s = then_do (step_silence w s) (step_disconnect w)"

definition run :: "env \<Rightarrow> exec \<Rightarrow> exec flow option" where
  "run w s = then_do (run_setup w s) (\<lambda>s. then_do (run_dial w s) (\<lambda>s.
     then_do (run_play w s) (run_end w)))"

end
