(* ===== verification/Executor_Rules.thy ===== *)
theory Executor_Rules
  imports Call_Executor
begin

text \<open>
  The proof rules for the executor: what the other threads can change (the queue, the wake flag, the
  last SIP code, the cancel flag, and nothing else), what each small operation changes, and how the
  calls into the agent end. They are simplification rules, so that the proofs about the phases of
  \<open>run()\<close> unfold a phase and let the simplifier carry the state through.
\<close>

section \<open>Other threads\<close>

lemma run_callback_frame [simp]:
  "sa_config (run_callback cb a) = sa_config a" "sa_call_id (run_callback cb a) = sa_call_id a"
  "sa_log (run_callback cb a) = sa_log a" "sa_call (run_callback cb a) = sa_call a"
  "sa_ep (run_callback cb a) = sa_ep a" "sa_account (run_callback cb a) = sa_account a"
  "sa_player (run_callback cb a) = sa_player a" "sa_recorder (run_callback cb a) = sa_recorder a"
  "sa_thread_registered (run_callback cb a) = sa_thread_registered a"
  "sa_call_start_ms (run_callback cb a) = sa_call_start_ms a"
  by (cases cb; simp add: onRegState_def onCallState_def onCallMediaState_def onEof2_def
      pushEvent_def Let_def split: option.split)+

lemma agent_act_frame [simp]:
  "sa_config (agent_act t a) = sa_config a" "sa_call_id (agent_act t a) = sa_call_id a"
  "sa_log (agent_act t a) = sa_log a" "sa_call (agent_act t a) = sa_call a"
  "sa_ep (agent_act t a) = sa_ep a" "sa_account (agent_act t a) = sa_account a"
  "sa_player (agent_act t a) = sa_player a" "sa_recorder (agent_act t a) = sa_recorder a"
  "sa_thread_registered (agent_act t a) = sa_thread_registered a"
  "sa_call_start_ms (agent_act t a) = sa_call_start_ms a"
  by (cases t; simp add: wakeDispatcher_def)+

lemma agent_acts_frame [simp]:
  "sa_config (fold agent_act ts a) = sa_config a" "sa_call_id (fold agent_act ts a) = sa_call_id a"
  "sa_log (fold agent_act ts a) = sa_log a" "sa_call (fold agent_act ts a) = sa_call a"
  "sa_ep (fold agent_act ts a) = sa_ep a" "sa_account (fold agent_act ts a) = sa_account a"
  "sa_player (fold agent_act ts a) = sa_player a" "sa_recorder (fold agent_act ts a) = sa_recorder a"
  "sa_thread_registered (fold agent_act ts a) = sa_thread_registered a"
  "sa_call_start_ms (fold agent_act ts a) = sa_call_start_ms a"
  by (induction ts arbitrary: a) simp_all

lemma waitEvent_frame [simp]:
  "sa_config (snd (waitEvent (fold agent_act ts) a)) = sa_config a"
  "sa_call_id (snd (waitEvent (fold agent_act ts) a)) = sa_call_id a"
  "sa_log (snd (waitEvent (fold agent_act ts) a)) = sa_log a"
  "sa_call (snd (waitEvent (fold agent_act ts) a)) = sa_call a"
  "sa_ep (snd (waitEvent (fold agent_act ts) a)) = sa_ep a"
  "sa_account (snd (waitEvent (fold agent_act ts) a)) = sa_account a"
  "sa_player (snd (waitEvent (fold agent_act ts) a)) = sa_player a"
  "sa_recorder (snd (waitEvent (fold agent_act ts) a)) = sa_recorder a"
  "sa_thread_registered (snd (waitEvent (fold agent_act ts) a)) = sa_thread_registered a"
  "sa_call_start_ms (snd (waitEvent (fold agent_act ts) a)) = sa_call_start_ms a"
  by (simp_all add: waitEvent_def Let_def split: list.split)

lemma acts_eq: "fold act ts s = s\<lparr>x_agent := fold agent_act ts (x_agent s),
    x_cancelled := (x_cancelled s \<or> CancelStore \<in> set ts)\<rparr>"
proof (induction ts arbitrary: s)
  case (Cons t ts)
  then show ?case by (cases t) (simp_all add: act_def)
qed simp

lemma tock_eq: "tock w s = s\<lparr>x_agent := fold agent_act (others w (x_tick s)) (x_agent s),
    x_cancelled := (x_cancelled s \<or> CancelStore \<in> set (others w (x_tick s))), x_tick := Suc (x_tick s)\<rparr>"
  by (simp add: tock_def acts_eq)

lemma tock_frame [simp]:
  "x_config (tock w s) = x_config s" "x_result (tock w s) = x_result s"
  "x_call_connected_ms (tock w s) = x_call_connected_ms s"
  "x_playback_started_ms (tock w s) = x_playback_started_ms s"
  "x_emitted (tock w s) = x_emitted s" "x_files (tock w s) = x_files s"
  "x_reg_start (tock w s) = x_reg_start s" "x_answered (tock w s) = x_answered s"
  "x_media_active (tock w s) = x_media_active s"
  "x_answer_timeout_hit (tock w s) = x_answer_timeout_hit s"
  "x_answer_deadline_ms (tock w s) = x_answer_deadline_ms s"
  "x_play_path (tock w s) = x_play_path s" "x_play_at_ms (tock w s) = x_play_at_ms s"
  "x_played (tock w s) = x_played s" "x_sd (tock w s) = x_sd s" "x_silent (tock w s) = x_silent s"
  "x_tick (tock w s) = Suc (x_tick s)"
  "sa_config (x_agent (tock w s)) = sa_config (x_agent s)"
  "sa_call_id (x_agent (tock w s)) = sa_call_id (x_agent s)"
  "sa_log (x_agent (tock w s)) = sa_log (x_agent s)"
  "sa_call (x_agent (tock w s)) = sa_call (x_agent s)"
  "sa_thread_registered (x_agent (tock w s)) = sa_thread_registered (x_agent s)"
  by (simp_all add: tock_eq)

lemma tock_cancelled [simp]: "x_cancelled s \<Longrightarrow> x_cancelled (tock w s)"
  by (simp add: tock_eq)

lemma waitFor_frame [simp]:
  "x_config (snd (waitFor w t s)) = x_config s" "x_result (snd (waitFor w t s)) = x_result s"
  "x_call_connected_ms (snd (waitFor w t s)) = x_call_connected_ms s"
  "x_playback_started_ms (snd (waitFor w t s)) = x_playback_started_ms s"
  "x_emitted (snd (waitFor w t s)) = x_emitted s" "x_files (snd (waitFor w t s)) = x_files s"
  "x_reg_start (snd (waitFor w t s)) = x_reg_start s" "x_answered (snd (waitFor w t s)) = x_answered s"
  "x_media_active (snd (waitFor w t s)) = x_media_active s"
  "x_answer_timeout_hit (snd (waitFor w t s)) = x_answer_timeout_hit s"
  "x_answer_deadline_ms (snd (waitFor w t s)) = x_answer_deadline_ms s"
  "x_play_path (snd (waitFor w t s)) = x_play_path s" "x_play_at_ms (snd (waitFor w t s)) = x_play_at_ms s"
  "x_played (snd (waitFor w t s)) = x_played s" "x_sd (snd (waitFor w t s)) = x_sd s"
  "x_silent (snd (waitFor w t s)) = x_silent s"
  "x_tick (snd (waitFor w t s)) = Suc (x_tick s)"
  "sa_config (x_agent (snd (waitFor w t s))) = sa_config (x_agent s)"
  "sa_call_id (x_agent (snd (waitFor w t s))) = sa_call_id (x_agent s)"
  "sa_log (x_agent (snd (waitFor w t s))) = sa_log (x_agent s)"
  "sa_call (x_agent (snd (waitFor w t s))) = sa_call (x_agent s)"
  "sa_thread_registered (x_agent (snd (waitFor w t s))) = sa_thread_registered (x_agent s)"
  by (simp_all add: waitFor_def Let_def case_prod_unfold)

lemma waitFor_cancelled [simp]: "x_cancelled s \<Longrightarrow> x_cancelled (snd (waitFor w t s))"
  by (simp add: waitFor_def Let_def case_prod_unfold)

text \<open>
  The events that reach the executor: an action appends the events it \<open>pushed\<close>, and when all that the
  other threads push satisfies some property, so does everything the executor ever takes out.
\<close>

definition pushed :: "thread_action \<Rightarrow> internal_event list" where
  "pushed t = sa_queue (agent_act t (SipAgent Config))"

lemma queue_act: "sa_queue (agent_act t a) = sa_queue a @ pushed t"
proof (cases t)
  case (Callback cb)
  then show ?thesis
    by (cases cb) (simp_all add: pushed_def SipAgent_def onRegState_def onCallState_def onCallMediaState_def
        onEof2_def pushEvent_def Let_def split: option.split)
qed (simp_all add: pushed_def SipAgent_def wakeDispatcher_def)

definition delivers :: "(internal_event \<Rightarrow> bool) \<Rightarrow> env \<Rightarrow> bool" where
  "delivers P w \<longleftrightarrow> (\<forall>n. \<forall>t \<in> set (others w n) \<union> set (during w n). list_all P (pushed t))"

lemma delivers_acts:
  assumes "delivers P w"
  shows "\<forall>t \<in> set (others w n). list_all P (pushed t)" and "\<forall>t \<in> set (during w n). list_all P (pushed t)"
  using assms unfolding delivers_def by blast+

definition queued :: "(internal_event \<Rightarrow> bool) \<Rightarrow> exec \<Rightarrow> bool" where
  "queued P s \<longleftrightarrow> list_all P (sa_queue (x_agent s))"

lemma queued_acts:
  "\<forall>t \<in> set ts. list_all P (pushed t) \<Longrightarrow> list_all P (sa_queue a) \<Longrightarrow> list_all P (sa_queue (fold agent_act ts a))"
  by (induction ts arbitrary: a) (simp_all add: queue_act)

text \<open>The same for what they push before a moment: the events delivered before the n-th interaction.\<close>

definition delivered :: "env \<Rightarrow> nat \<Rightarrow> internal_event \<Rightarrow> bool" where
  "delivered w n ev \<longleftrightarrow> (\<exists>k < n. \<exists>t \<in> set (others w k) \<union> set (during w k). ev \<in> set (pushed t))"

lemma delivered_later: "delivered w m ev \<Longrightarrow> m \<le> n \<Longrightarrow> delivered w n ev"
  by (auto simp: delivered_def intro: order_less_le_trans)

lemma delivered_now:
  "t \<in> set (others w n) \<union> set (during w n) \<Longrightarrow> list_all (delivered w (Suc n)) (pushed t)"
  by (auto simp: delivered_def list_all_iff)

lemma queued_later: "queued (delivered w m) s \<Longrightarrow> m \<le> n \<Longrightarrow> queued (delivered w n) s"
  by (auto simp: queued_def list_all_iff delivered_later)

lemma delivered_tock:
  assumes "queued (delivered w (x_tick s)) s"
  shows "queued (delivered w (Suc (x_tick s))) (tock w s)"
  using queued_later [OF assms, of "Suc (x_tick s)"] by (simp add: queued_def tock_eq queued_acts delivered_now)

lemma delivered_waitFor:
  assumes "queued (delivered w (x_tick s)) s"
  shows "queued (delivered w (Suc (x_tick s))) (snd (waitFor w t s))
    \<and> (case fst (waitFor w t s) of None \<Rightarrow> True | Some ev \<Rightarrow> delivered w (Suc (x_tick s)) ev)"
proof -
  let ?a = "x_agent (tock w s)" and ?P = "delivered w (Suc (x_tick s))"
  have "list_all ?P (sa_queue (fold agent_act (during w (x_tick s)) (?a\<lparr>sa_dispatcher_wake := False\<rparr>)))"
    using delivered_tock [OF assms] by (intro queued_acts) (simp_all add: queued_def delivered_now)
  with delivered_tock [OF assms] show ?thesis
    by (auto simp: waitFor_def waitEvent_def queued_def Let_def split: list.split)
qed

lemma queued_tock: "delivers P w \<Longrightarrow> queued P s \<Longrightarrow> queued P (tock w s)"
  by (simp add: queued_def tock_eq delivers_acts queued_acts)

lemma queued_waitFor:
  assumes "delivers P w" and "queued P s"
  shows "queued P (snd (waitFor w t s)) \<and> (case fst (waitFor w t s) of None \<Rightarrow> True | Some ev \<Rightarrow> P ev)"
proof -
  let ?a = "x_agent (tock w s)"
  have "list_all P (sa_queue (fold agent_act (during w (x_tick s)) (?a\<lparr>sa_dispatcher_wake := False\<rparr>)))"
    using queued_tock [OF assms] by (intro queued_acts delivers_acts [OF assms(1)]) (simp add: queued_def)
  with queued_tock [OF assms] show ?thesis
    by (auto simp: waitFor_def waitEvent_def queued_def Let_def split: list.split)
qed

text \<open>The reads of shared state, with their result and the state after them apart.\<close>

lemmas reads = isCancelled_def nowMs_def Let_def case_prod_unfold fst_conv snd_conv

text \<open>The executor's own small updates.\<close>

lemmas updates = emitState_def emitEvent_def set_status_def set_reason_def set_sip_code_def

section \<open>Calls into the agent\<close>

text \<open>
  A call into the agent ends normally or throws; both ways it leaves the state with another agent and
  nothing else changed. \<open>agent_step s s'\<close> says so, with what every agent operation keeps.
\<close>

definition agent_step :: "exec \<Rightarrow> exec \<Rightarrow> bool" where
  "agent_step s s' \<longleftrightarrow> (\<exists>a. s' = s\<lparr>x_agent := a\<rparr> \<and> sa_config a = sa_config (x_agent s)
     \<and> sa_call_id a = sa_call_id (x_agent s))"

lemma agent_step_frame:
  assumes "agent_step s s'"
  shows "x_config s' = x_config s" "x_result s' = x_result s"
    "x_call_connected_ms s' = x_call_connected_ms s" "x_emitted s' = x_emitted s"
    "x_files s' = x_files s" "x_tick s' = x_tick s" "x_reg_start s' = x_reg_start s"
    "x_answered s' = x_answered s" "x_media_active s' = x_media_active s"
    "x_answer_timeout_hit s' = x_answer_timeout_hit s" "x_cancelled s' = x_cancelled s"
    "x_answer_deadline_ms s' = x_answer_deadline_ms s" "x_play_path s' = x_play_path s"
    "x_play_at_ms s' = x_play_at_ms s" "x_played s' = x_played s" "x_sd s' = x_sd s"
    "x_silent s' = x_silent s" "sa_config (x_agent s') = sa_config (x_agent s)"
    "callId s' = callId s"
  using assms by (auto simp: agent_step_def)

text \<open>An attempt that keeps a property of the agent, on both ways out.\<close>

definition attempt_post :: "('r \<Rightarrow> 's \<Rightarrow> bool) \<Rightarrow> ('s \<Rightarrow> bool) \<Rightarrow> ('r, 's) attempt \<Rightarrow> bool" where
  "attempt_post D T m = (case m of Done r s \<Rightarrow> D r s | Threw s \<Rightarrow> T s)"

lemma attempt_post_simps [simp]:
  "attempt_post D T (Done r s) = D r s" "attempt_post D T (Threw s) = T s"
  by (simp_all add: attempt_post_def)

lemma attempt_post_then:
  assumes "attempt_post M T m" and "\<And>r s. M r s \<Longrightarrow> attempt_post D T (k s)"
  shows "attempt_post D T (attempt_then m k)"
  using assms by (cases m) auto

lemma attempt_post_caught: "attempt_post (\<lambda>_. P) P m \<Longrightarrow> P (caught m)"
  by (cases m) auto

lemma pj_do_post: "P (pj_log op a) \<Longrightarrow> attempt_post (\<lambda>_. P) P (pj_do w op a)"
  by (simp add: pj_do_def)

lemma pj_seq_post:
  assumes "P a" and "\<And>op a. op \<in> set ops \<Longrightarrow> P a \<Longrightarrow> P (pj_log op a)"
  shows "attempt_post (\<lambda>_. P) P (pj_seq w ops a)"
  using assms
proof (induction ops arbitrary: a)
  case (Cons op ops)
  have "attempt_post (\<lambda>_. P) P (pj_do w op a)" by (rule pj_do_post) (simp add: Cons.prems)
  then show ?case
    by (simp, elim attempt_post_then) (rule Cons.IH, simp_all add: Cons.prems)
qed simp

lemma agent_do_post:
  "attempt_post (\<lambda>_. J) J (f (x_agent s))
    \<Longrightarrow> post (\<lambda>s. J (x_agent s)) (\<lambda>s. J (x_agent s)) (\<lambda>s. J (x_agent s)) (agent_do f s)"
  by (cases "f (x_agent s)") (simp_all add: agent_do_def)

end
