(* ===== verification/Executor_Silence.thy ===== *)
theory Executor_Silence
  imports Executor_Rules
begin

text \<open>
  What the executor has heard when it leaves the phase that listens for silence: the levels PJSIP gave
  it, one for each round of the loop, the clock readings that date them, and why the loop stopped.
\<close>

section \<open>Samples\<close>

text \<open>
  The levels that the requests in a part of the log gave: what \<open>getRxLevel\<close> of PJSIP read, or 0 where it or
  the access to the media of the call failed.
\<close>

fun heard :: "pj \<Rightarrow> pj_op list \<Rightarrow> pj_op list \<Rightarrow> u32 list" where
  "heard lib log [] = []"
| "heard lib log (op # ops) =
     (if op = GetRxLevel then [if pj_fails lib log op then 0 else pj_level lib (log @ [op])]
      else if op = GetAudioMedia \<and> pj_fails lib log op then [0] else []) @ heard lib (log @ [op]) ops"

lemma heard_append: "heard lib log (xs @ ys) = heard lib log xs @ heard lib (log @ xs) ys"
  by (induction xs arbitrary: log) simp_all

text \<open>
  The samples of the detector: a round makes four interactions, the third of which reads the clock for
  the sample.
\<close>

definition samples :: "env \<Rightarrow> nat \<Rightarrow> pj_op list \<Rightarrow> pj_op list \<Rightarrow> sample list" where
  "samples w t log ops = (let ls = heard (pjsip w) log ops
     in zip ls (map (\<lambda>i. clock w (t + 4 * i + 2)) [0..<length ls]))"

lemma samples_snoc:
  assumes "heard (pjsip w) (log @ xs) ys = [l]"
  shows "samples w t log (xs @ ys) = samples w t log xs @ [(l, clock w (t + 4 * length (heard (pjsip w) log xs) + 2))]"
  using assms by (simp add: samples_def heard_append Let_def)

lemma level_heard:
  assumes "sa_call a"
  shows "attempt_post (\<lambda>l b. sa_call b \<and> (\<exists>ops. sa_log b = sa_log a @ ops \<and> heard lib (sa_log a) ops = [l]))
    (\<lambda>_. True) (getRxLevel lib a)"
  unfolding getRxLevel_def
proof (rule attempt_post_then)
  let ?M = "\<lambda>b. sa_call b \<and> (\<exists>ops. sa_log b = sa_log a @ ops \<and> heard lib (sa_log a) ops = [])"
  show "attempt_post (\<lambda>_. ?M) (\<lambda>_. True) (libRegisterThread lib ''pjcppagent-executor'' a)"
    using assms by (simp add: libRegisterThread_def pj_do_def pj_log_def)
  fix c :: sip_agent assume "?M c"
  then obtain ops where c: "sa_call c" "sa_log c = sa_log a @ ops" "heard lib (sa_log a) ops = []" by blast
  have ex: "\<exists>ys. sa_log a @ ops @ xs = sa_log a @ ys \<and> heard lib (sa_log a) ys = [l]"
    if "heard lib (sa_log c) xs = [l]" for xs l
    using c that by (auto simp: heard_append)
  show "attempt_post (\<lambda>l b. sa_call b \<and> (\<exists>ops. sa_log b = sa_log a @ ops \<and> heard lib (sa_log a) ops = [l])) (\<lambda>_. True)
      (if \<not> sa_call c then Done 0 c else case pj_seq lib [GetAudioMedia, GetRxLevel] c of
          Done _ a' \<Rightarrow> Done (pj_level lib (sa_log a')) a' | Threw a' \<Rightarrow> Done 0 a')"
    using c ex [of "[GetAudioMedia]"] ex [of "[GetAudioMedia, GetRxLevel]"] by (simp add: pj_do_def pj_log_def)
qed

section \<open>Why the loop stops\<close>

text \<open>
  The state of the silence loop while nothing has been detected, and what ends it: the samples of the
  whole phase amount to silence, or ten minutes have passed since the answer. Without a call object
  there are no levels to speak of; a run has one whenever it listens.
\<close>

definition listening :: "env \<Rightarrow> exec \<Rightarrow> exec \<Rightarrow> pj_op list \<Rightarrow> bool" where
  "listening w s0 s ops \<longleftrightarrow> (let log = sa_log (x_agent s0) in
     sa_call (x_agent s) \<and> sa_log (x_agent s) = log @ ops \<and> tracks (x_sd s) (samples w (x_tick s0) log ops)
     \<and> x_tick s = x_tick s0 + 4 * length (heard (pjsip w) log ops)
     \<and> sd_threshold (x_sd s) = word_of_int (silence_threshold (x_config s0))
     \<and> sd_timeout_ms (x_sd s) = silence_s (x_config s0) * 1000
     \<and> x_call_connected_ms s = x_call_connected_ms s0)"

definition detected :: "env \<Rightarrow> exec \<Rightarrow> exec \<Rightarrow> bool" where
  "detected w s0 s \<longleftrightarrow> (let log = sa_log (x_agent s0) in
     sa_call (x_agent s0) \<longrightarrow> (\<exists>ops rest. sa_log (x_agent s) = log @ ops @ rest
       \<and> x_tick s0 + 4 * length (heard (pjsip w) log ops) \<le> x_tick s
       \<and> silence_spec (word_of_int (silence_threshold (x_config s0))) (silence_s (x_config s0) * 1000)
           (samples w (x_tick s0) log ops)))"

definition expired :: "env \<Rightarrow> exec \<Rightarrow> exec \<Rightarrow> bool" where
  "expired w s0 s \<longleftrightarrow> (\<exists>k. x_tick s0 \<le> k \<and> k < x_tick s \<and> 600000 \<le> clock w k - x_call_connected_ms s0)"

lemma detected_later:
  assumes "detected w s0 s1" "x_tick s1 \<le> x_tick s2" "sa_log (x_agent s2) = sa_log (x_agent s1) @ ops"
  shows "detected w s0 s2"
  using assms unfolding detected_def Let_def by fastforce

lemma silent_irrelevant [simp]:
  "listening w s0 (s\<lparr>x_silent := b\<rparr>) ops = listening w s0 s ops"
  "detected w s0 (s\<lparr>x_silent := b\<rparr>) = detected w s0 s"
  "expired w s0 (s\<lparr>x_silent := b\<rparr>) = expired w s0 s"
  "tock w (s\<lparr>x_silent := b\<rparr>) = (tock w s)\<lparr>x_silent := b\<rparr>"
  by (simp_all add: listening_def detected_def expired_def tock_eq)

lemma silence_round_keeps:
  assumes s: "if x_silent s then detected w s0 s else \<exists>ops. listening w s0 s ops"
  shows "iter_post (\<lambda>s. if x_silent s then detected w s0 s else \<exists>ops. listening w s0 s ops)
    (\<lambda>s. x_cancelled s \<or> detected w s0 s \<or> expired w s0 s) (\<lambda>_. True) (\<lambda>_. True) (silence_round w s)"
proof (cases "x_silent s")
  case True
  with s show ?thesis by (simp add: silence_round_def)
next
  case False
  with s obtain ops where l: "listening w s0 s ops" by auto
  let ?s1 = "snd (waitFor w 100 (tock w s))"
  show ?thesis
  proof (cases "getRxLevel (pjsip w) (x_agent ?s1)")
    case (Threw a)
    with False show ?thesis by (auto simp: silence_round_def reads)
  next
    case (Done level a)
    let ?log = "sa_log (x_agent s0)" and ?k = "x_tick ?s1"
    have "sa_call (x_agent ?s1)" using l by (simp add: listening_def Let_def)
    from level_heard [OF this, of "pjsip w"] Done obtain more where a: "sa_call a"
      and more: "sa_log a = ?log @ ops @ more" "heard (pjsip w) (?log @ ops) more = [level]"
      using l by (auto simp: listening_def Let_def)
    let ?s2 = "tock w (?s1\<lparr>x_agent := a\<rparr>)" and ?xs = "samples w (x_tick s0) ?log ops"
    obtain hit sd where f: "feed (x_sd s) level (clock w ?k) = (hit, sd)" by fastforce
    let ?s3 = "tock w (?s2\<lparr>x_sd := sd\<rparr>)"
    have tick: "?k = x_tick s0 + 4 * length (heard (pjsip w) ?log ops) + 2"
      and tracks: "tracks (x_sd s) ?xs" using l by (simp_all add: listening_def Let_def)
    have more_samples: "samples w (x_tick s0) ?log (ops @ more) = ?xs @ [(level, clock w ?k)]"
      using samples_snoc [OF more(2)] tick by simp
    have len: "length (heard (pjsip w) ?log (ops @ more)) = Suc (length (heard (pjsip w) ?log ops))"
      using more(2) by (simp add: heard_append)
    have "if hit then detected w s0 ?s3 else \<exists>ops. listening w s0 ?s3 ops"
    proof (cases hit)
      case True
      then have "silence_spec (word_of_int (silence_threshold (x_config s0))) (silence_s (x_config s0) * 1000)
          (samples w (x_tick s0) ?log (ops @ more))"
        using feed_tracks(1) [OF tracks, of "(level, clock w ?k)"] f l more_samples
        by (simp add: feed_sample_def listening_def Let_def)
      moreover have "x_tick s0 + 4 * length (heard (pjsip w) ?log (ops @ more)) \<le> x_tick ?s3"
        using len tick by simp
      ultimately have "detected w s0 ?s3"
        using more(1) unfolding detected_def Let_def
        by (intro impI exI [of _ "ops @ more"] exI [of _ "[]"]) simp
      with True show ?thesis by simp
    next
      case False
      from f have sd: "snd (feed (x_sd s) level (clock w ?k)) = sd" by simp
      have "listening w s0 ?s3 (ops @ more)"
        using feed_tracks(2) [OF tracks, of "(level, clock w ?k)"] feed_keeps_setting [of "x_sd s" level "clock w ?k", unfolded sd]
          False f l a more(1) more_samples len tick
        by (simp add: feed_sample_def listening_def Let_def)
      with False show ?thesis by auto
    qed
    moreover have "expired w s0 ?s3" if "600000 \<le> clock w (Suc ?k) - x_call_connected_ms s"
      using that l by (auto simp: expired_def listening_def Let_def intro: exI [of _ "Suc ?k"])
    ultimately show ?thesis
      using False Done f by (auto simp: silence_round_def reads)
  qed
qed

lemma silence_frame:
  "post (\<lambda>s'. x_config s' = x_config s \<and> x_call_connected_ms s' = x_call_connected_ms s \<and> x_tick s \<le> x_tick s')
     (\<lambda>_. True) (\<lambda>_. True) (loop (silence_round w) (silence_setup s))"
  by (rule loop_post [where I = "\<lambda>s'. x_config s' = x_config s \<and> x_call_connected_ms s' = x_call_connected_ms s
      \<and> x_tick s \<le> x_tick s'"])
    (auto simp: silence_round_def reads silence_setup_def split: attempt.split)

text \<open>
  The loop falls through because the samples of the phase amount to silence, because ten minutes have
  passed since the answer, or because it was cancelled.
\<close>

lemma hangup_needs_silence:
  "post (\<lambda>s'. x_cancelled s' \<or> detected w s s' \<or> expired w s s') (\<lambda>_. True) (\<lambda>_. True)
     (loop (silence_round w) (silence_setup s))"
proof (cases "sa_call (x_agent s)")
  case True
  have "tracks (x_sd (silence_setup s)) (samples w (x_tick s) (sa_log (x_agent s)) [])"
    by (simp add: silence_setup_def tracks_arm samples_def)
  then have "listening w s (silence_setup s) []"
    using True by (simp add: listening_def Let_def) (simp add: silence_setup_def SilenceDetector_def arm_def)
  then have "if x_silent (silence_setup s) then detected w s (silence_setup s)
      else \<exists>ops. listening w s (silence_setup s) ops"
    by (auto simp: silence_setup_def)
  from loop_post [OF silence_round_keeps this] show ?thesis .
next
  case False
  then have "detected w s s'" for s' by (simp add: detected_def Let_def)
  then show ?thesis by (simp add: post_def flow_post_def split: option.split flow.split)
qed

end
