(* ===== verification/Executor_Invariants.thy ===== *)
theory Executor_Invariants
  imports Executor_Silence
begin

text \<open>
  The interface between the phases of \<open>run()\<close> and what a proof about whole runs has to show: locales whose
  assumptions are about the single operations and whose lemmas are about the phases and their sequence.
\<close>

section \<open>Invariants of a run\<close>

text \<open>
  The interface between the phases of \<open>run()\<close> and an invariant \<open>I\<close> of the executor's state. \<open>I\<close>
  reads the agent, the cancel flag, the number of interactions, the configuration, the two moments
  \<open>call_connected_ms_\<close> and \<open>playback_started_ms_\<close>, the flag \<open>answered\<close>, the answer timeout, the billed
  seconds and the recording; what a phase does to any other field leaves it alone. \<open>R\<close> is what holds when
  a phase returns from \<open>run()\<close>: it follows from \<open>I\<close> unless the call is reported as answered, which only
  \<open>handleDisconnect\<close> does. Each locale adds the operations of some phases, and gives that these phases
  keep the invariant, however they end: \<open>exec_base\<close> the registration and the wait for the end,
  \<open>exec_setup\<close> the initialisation, \<open>exec_overdue\<close> the wait for the answer but for the answer itself,
  \<open>exec_ring\<close> with it, \<open>exec_wait\<close> its start,
  \<open>exec_talk\<close> everything after the answer, \<open>exec_steps\<close>, \<open>exec_calls\<close> and \<open>exec_invariant\<close> their
  sequence up to the whole run. A hang-up has to keep the invariant only where the executor has a reason
  for it: it was cancelled (\<open>I_hangup\<close>), the answer is overdue (\<open>I_deadline\<close>), it was silent or the
  call has lasted ten minutes (\<open>I_over\<close>).
\<close>

locale exec_base =
  fixes I R :: "exec \<Rightarrow> bool" and w :: env
  assumes same: "I s \<Longrightarrow> x_agent s' = x_agent s \<Longrightarrow> x_cancelled s' = x_cancelled s \<Longrightarrow> x_tick s' = x_tick s
      \<Longrightarrow> x_config s' = x_config s \<Longrightarrow> x_call_connected_ms s' = x_call_connected_ms s
      \<Longrightarrow> x_playback_started_ms s' = x_playback_started_ms s \<Longrightarrow> x_answered s' = x_answered s
      \<Longrightarrow> x_answer_timeout_hit s' = x_answer_timeout_hit s \<Longrightarrow> x_answer_deadline_ms s' = x_answer_deadline_ms s
      \<Longrightarrow> billing_seconds (x_result s') = billing_seconds (x_result s)
      \<Longrightarrow> recording_path (x_result s') = recording_path (x_result s) \<Longrightarrow> I s'"
    and I_R: "I s \<Longrightarrow> status (x_result s) \<noteq> ANSWERED \<Longrightarrow> R s"
    and I_tock [simp]: "I s \<Longrightarrow> I (tock w s)"
    and I_waitFor [simp]: "I s \<Longrightarrow> I (snd (waitFor w t s))"
    and I_hangup: "I s \<Longrightarrow> x_cancelled s \<Longrightarrow> post I R I (agent_do (hangup (pjsip w)) s)"
    and I_disconnect [simp]: "I s \<Longrightarrow> R (handleDisconnect w code why s)"
begin

lemma I_fields [simp]:
  "I (s\<lparr>x_emitted := es\<rparr>) = I s" "I (s\<lparr>x_files := fs\<rparr>) = I s"
  "I (s\<lparr>x_reg_start := t\<rparr>) = I s" "I (s\<lparr>x_media_active := b\<rparr>) = I s"
  "I (s\<lparr>x_play_path := p\<rparr>) = I s" "I (s\<lparr>x_play_at_ms := t\<rparr>) = I s" "I (s\<lparr>x_played := b\<rparr>) = I s"
  "I (s\<lparr>x_sd := d\<rparr>) = I s" "I (s\<lparr>x_silent := b\<rparr>) = I s"
  by (rule iffI; (erule same; simp))+

lemma I_result [simp]:
  "I s \<Longrightarrow> r = x_result s \<Longrightarrow> I (s\<lparr>x_result := r\<lparr>status := st\<rparr>\<rparr>)"
  "I s \<Longrightarrow> r = x_result s \<Longrightarrow> I (s\<lparr>x_result := r\<lparr>reason := why\<rparr>\<rparr>)"
  "I s \<Longrightarrow> r = x_result s \<Longrightarrow> I (s\<lparr>x_result := r\<lparr>sip_code := code\<rparr>\<rparr>)"
  by (erule same; simp)+

lemma I_updates [simp]:
  "I (emitEvent e s) = I s" "I (emitState st s) = I s"
  "I s \<Longrightarrow> I (set_status st s)" "I s \<Longrightarrow> I (set_reason why s)" "I s \<Longrightarrow> I (set_sip_code c s)"
  by (simp_all add: updates)

text \<open>A return with a status other than \<open>ANSWERED\<close>.\<close>

lemma R_updates [simp]:
  "I s \<Longrightarrow> st \<noteq> ANSWERED \<Longrightarrow> R (set_status st s)"
  "I s \<Longrightarrow> st \<noteq> ANSWERED \<Longrightarrow> R (set_reason why (set_status st s))"
  "I s \<Longrightarrow> st \<noteq> ANSWERED \<Longrightarrow> R (emitEvent e (set_reason why (set_status st s)))"
  "I s \<Longrightarrow> st \<noteq> ANSWERED \<Longrightarrow> R (emitEvent e (set_reason why (set_sip_code c (set_status st s))))"
  by (rule I_R, simp, simp add: updates)+

lemma R_failed [simp]: "I s \<Longrightarrow> failed_status s \<Longrightarrow> R s"
  by (rule I_R) (auto simp: failed_status_def)

lemma I_agent_hangup: "I s \<Longrightarrow> x_cancelled s \<Longrightarrow> post I R I (agent_hangup w s)"
  by (simp add: agent_hangup_def I_hangup)

lemma I_drain: "I s \<Longrightarrow> post I R I (loop (drain_round w) s)"
  by (rule loop_post [where I = I]) (auto simp: drain_round_def reads split: option.split)

lemma I_register: "I s \<Longrightarrow> post I R I (loop (register_round w) s)"
  by (rule loop_post [where I = I]) (auto simp: register_round_def reads split: option.split)

lemma I_check_cancelled: "I s \<Longrightarrow> post I R I (check_cancelled w s)"
  by (auto simp: check_cancelled_def hang_up_cancelled_def reads intro!: post_then_do [OF I_agent_hangup])

lemma register_keeps: "I s \<Longrightarrow> post I R I (then_do (step_register w s) (check_not_placed w))"
  by (rule post_then_do [where M = I]) (auto simp: step_register_def check_not_placed_def reads intro!: I_register)

end

locale exec_setup = exec_base I R w
  for I R :: "exec \<Rightarrow> bool" and w :: env +
  assumes I_init: "I s \<Longrightarrow> attempt_post (\<lambda>_ a. I (s\<lparr>x_agent := a\<rparr>)) (\<lambda>a. I (s\<lparr>x_agent := a\<rparr>)) (init (pjsip w) (x_agent s))"
begin

lemma run_setup_keeps:
  assumes "I s"
  shows "post I R I (run_setup w s)"
proof -
  have "I (set_status FAILED s)" using assms by simp
  from I_init [OF this] have "post I R I (step_init w s)"
    by (cases "init (pjsip w) (x_agent (set_status FAILED s))") (simp_all add: step_init_def Let_def)
  then show ?thesis unfolding run_setup_def by (rule post_then_do) (rule register_keeps)
qed

end

text \<open>The wait for the answer is over: both flags are set.\<close>

definition on_call :: "exec \<Rightarrow> bool" where
  "on_call s \<longleftrightarrow> x_answered s \<and> x_media_active s"

text \<open>The answer is overdue: the executor has seen its deadline pass. It is set when the wait starts.\<close>

definition overdue :: "env \<Rightarrow> exec \<Rightarrow> bool" where
  "overdue w s \<longleftrightarrow> x_answer_timeout_hit s \<and> (\<exists>k < x_tick s. x_answer_deadline_ms s \<le> clock w k)"

definition start_waiting :: "env \<Rightarrow> exec \<Rightarrow> exec" where
  "start_waiting w s = (tock w (s\<lparr>x_answered := False, x_media_active := False, x_answer_timeout_hit := False\<rparr>))
     \<lparr>x_answer_deadline_ms := clock w (x_tick s) + ucast (answer_timeout_s (x_config s)) * 1000\<rparr>"

lemma step_answer_eq: "step_answer w s = loop (answer_round w) (start_waiting w s)"
  by (simp add: step_answer_def start_waiting_def reads)

text \<open>
  A round that begins in \<open>r\<close> comes to its wait for an event in \<open>s\<close>: it is not cancelled, and neither the
  deadline nor the safety net ends it. \<open>connect_now\<close> is the state once the answer is noted that the wait
  in \<open>s\<close> took out of the queue.
\<close>

definition waits_in :: "env \<Rightarrow> exec \<Rightarrow> exec \<Rightarrow> bool" where
  "waits_in w r s \<longleftrightarrow> \<not> x_cancelled (tock w r)
     \<and> (\<exists>s1. deadline_hangup w (tock w r) = Some (Next s1) \<and> safety_net w s1 = Some (Next s))"

definition connect_now :: "env \<Rightarrow> exec \<Rightarrow> exec" where
  "connect_now w s = (let s' = snd (waitFor w 500 s) in (tock w s')\<lparr>x_answered := True,
     x_call_connected_ms := clock w (x_tick s'),
     x_agent := setCallStartTime (clock w (x_tick s')) (x_agent (tock w s'))\<rparr>)"

lemma round_waits: "waits_in w r s \<Longrightarrow> answer_round w r = (case fst (waitFor w 500 s) of
    None \<Rightarrow> Some (Continue (snd (waitFor w 500 s))) | Some ev \<Rightarrow> answer_event w ev (snd (waitFor w 500 s)))"
  by (auto simp: waits_in_def answer_round_def reads)

text \<open>
  The wait for the answer. What noting the answer has to keep is asked only of the rounds the loop makes
  (\<open>I_answer_rounds\<close>); \<open>exec_ring\<close> asks it of any state.
\<close>

locale exec_overdue = exec_base I R w
  for I R :: "exec \<Rightarrow> bool" and w :: env +
  assumes I_hit [simp]: "I s \<Longrightarrow> I (s\<lparr>x_answer_timeout_hit := True\<rparr>)"
    and I_deadline: "I s \<Longrightarrow> overdue w s \<Longrightarrow> post I R I (agent_do (hangup (pjsip w)) s)"
begin

lemma I_answer_check: "I s \<Longrightarrow> iter_post I (\<lambda>s. I s \<and> on_call s) R I (answer_check s)"
  by (simp add: answer_check_def on_call_def)

lemma I_answer_event:
  assumes "I s" and "ev_type ev = CALL_STATE \<Longrightarrow> ev_call_state ev = INV_STATE_CONFIRMED \<Longrightarrow> I (connect_now w s)"
  shows "iter_post I (\<lambda>s. I s \<and> on_call s) R I (answer_event w ev (snd (waitFor w 500 s)))"
proof -
  let ?s' = "snd (waitFor w 500 s)"
  have "I ((tock w (set_status ANSWERED (?s'\<lparr>x_answered := True\<rparr>)))\<lparr>x_call_connected_ms := clock w (x_tick ?s'),
      x_agent := setCallStartTime (clock w (x_tick ?s')) (x_agent (tock w (set_status ANSWERED (?s'\<lparr>x_answered := True\<rparr>))))\<rparr>)"
    if "ev_type ev = CALL_STATE" "ev_call_state ev = INV_STATE_CONFIRMED"
    by (rule same [OF assms(2) [OF that]]) (simp_all add: connect_now_def Let_def tock_eq updates)
  then show ?thesis using assms(1) by (auto simp: answer_event_def reads updates intro!: I_answer_check)
qed

lemma I_overdue: "I s \<Longrightarrow> post I R I (deadline_hangup w s)"
  by (auto simp: deadline_hangup_def agent_hangup_def reads overdue_def intro!: I_deadline)

lemma I_safety_net: "I s \<Longrightarrow> post I R I (safety_net w s)"
  by (auto simp: safety_net_def reads)

lemma I_round:
  assumes connect: "\<And>s ev. waits_in w r s \<Longrightarrow> I s \<Longrightarrow> fst (waitFor w 500 s) = Some ev \<Longrightarrow> ev_type ev = CALL_STATE
      \<Longrightarrow> ev_call_state ev = INV_STATE_CONFIRMED \<Longrightarrow> I (connect_now w s)" and I: "I r"
  shows "iter_post I (\<lambda>s. I s \<and> (x_cancelled s \<or> on_call s)) R I (answer_round w r)"
proof (cases "x_cancelled (tock w r)")
  case True
  then show ?thesis using I by (simp add: answer_round_def reads)
next
  case False
  let ?N = "\<lambda>s. I s \<and> (x_cancelled s \<or> on_call s)"
  let ?rest = "\<lambda>s. case fst (waitFor w 500 s) of None \<Rightarrow> Some (Continue (snd (waitFor w 500 s)))
      | Some ev \<Rightarrow> answer_event w ev (snd (waitFor w 500 s))"
  have rest: "iter_post I ?N R I (?rest s)" if "I s" "waits_in w r s" for s
    using that connect [OF that(2,1)]
    by (auto intro!: iter_post_mono [OF I_answer_event] simp: on_call_def split: option.split)
  have "iter_post I ?N R I (in_body (deadline_hangup w (tock w r)) (\<lambda>s. in_body (safety_net w s) ?rest))"
    by (rule iter_post_in_body [OF post_here [OF I_overdue [OF I_tock [OF I]]]], elim conjE,
        rule iter_post_in_body [OF post_here [OF I_safety_net]], assumption, elim conjE, rule rest)
      (use False in \<open>auto simp: waits_in_def\<close>)
  with False show ?thesis by (simp add: answer_round_def reads)
qed

lemma I_answer_rounds:
  assumes "\<And>r s ev. makes_round (answer_round w) s0 r \<Longrightarrow> waits_in w r s \<Longrightarrow> I s
      \<Longrightarrow> fst (waitFor w 500 s) = Some ev \<Longrightarrow> ev_type ev = CALL_STATE \<Longrightarrow> ev_call_state ev = INV_STATE_CONFIRMED
      \<Longrightarrow> I (connect_now w s)" and "I s0"
  shows "post (\<lambda>s. I s \<and> (x_cancelled s \<or> on_call s)) R I (loop (answer_round w) s0)"
  by (rule loop_post_rounds [where I = I], rule I_round) (use assms in blast)+

lemma answered_after:
  assumes "\<And>r s ev. makes_round (answer_round w) (start_waiting w v) r \<Longrightarrow> waits_in w r s \<Longrightarrow> I s
      \<Longrightarrow> fst (waitFor w 500 s) = Some ev \<Longrightarrow> ev_type ev = CALL_STATE \<Longrightarrow> ev_call_state ev = INV_STATE_CONFIRMED
      \<Longrightarrow> I (connect_now w s)" and "I (start_waiting w v)"
  shows "post (\<lambda>s. I s \<and> on_call s) R I (then_do (step_answer w v) (check_answered w))"
  unfolding step_answer_eq
proof (rule post_then_do [OF I_answer_rounds [OF assms]])
  show "post (\<lambda>s. I s \<and> on_call s) R I (check_answered w s)" if "I s \<and> (x_cancelled s \<or> on_call s)" for s
    using that tock_cancelled [of s w]
    by (auto simp: check_answered_def reads on_call_def intro!: post_then_do [OF I_agent_hangup])
qed

end

locale exec_ring = exec_overdue I R w
  for I R :: "exec \<Rightarrow> bool" and w :: env +
  assumes I_connect: "I s \<Longrightarrow> fst (waitFor w 500 s) = Some ev \<Longrightarrow> ev_type ev = CALL_STATE
      \<Longrightarrow> ev_call_state ev = INV_STATE_CONFIRMED \<Longrightarrow> s' = snd (waitFor w 500 s) \<Longrightarrow> now = clock w (x_tick s')
      \<Longrightarrow> a = setCallStartTime now (x_agent (tock w s'))
      \<Longrightarrow> I ((tock w s')\<lparr>x_answered := True, x_call_connected_ms := now, x_agent := a\<rparr>)"
begin

lemma I_connect_now: "I s \<Longrightarrow> fst (waitFor w 500 s) = Some ev \<Longrightarrow> ev_type ev = CALL_STATE
    \<Longrightarrow> ev_call_state ev = INV_STATE_CONFIRMED \<Longrightarrow> I (connect_now w s)"
  unfolding connect_now_def Let_def by (rule I_connect [OF _ _ _ _ refl refl refl])

lemma I_answer: "I s \<Longrightarrow> post (\<lambda>s. I s \<and> (x_cancelled s \<or> on_call s)) R I (loop (answer_round w) s)"
  by (rule I_answer_rounds) (rule I_connect_now)

lemma I_rounds: "makes_round (answer_round w) s0 r \<Longrightarrow> I s0 \<Longrightarrow> I r"
  by (erule rounds_keep) (rule I_round, rule I_connect_now)

lemma answered_from: "I (start_waiting w s) \<Longrightarrow> post (\<lambda>s. I s \<and> on_call s) R I (then_do (step_answer w s) (check_answered w))"
  by (rule answered_after) (rule I_connect_now)

end

locale exec_wait = exec_ring I R w
  for I R :: "exec \<Rightarrow> bool" and w :: env +
  assumes I_fresh: "I s \<Longrightarrow> I (s\<lparr>x_answered := False, x_answer_timeout_hit := False, x_answer_deadline_ms := t\<rparr>)"
begin

lemma I_start: "I s \<Longrightarrow> I (start_waiting w s)"
  using I_fresh [of "tock w s" "clock w (x_tick s) + ucast (answer_timeout_s (x_config s)) * 1000"]
  by (simp add: start_waiting_def, elim same) (simp_all add: tock_eq)

lemma answer_done: "I s \<Longrightarrow> post (\<lambda>s. I s \<and> on_call s) R I (then_do (step_answer w s) (check_answered w))"
  by (rule answered_from) (rule I_start)

lemma answer_keeps: "I s \<Longrightarrow> post I R I (then_do (step_answer w s) (check_answered w))"
  by (erule post_mono [OF answer_done]) simp_all

end

text \<open>
  After the answer. Playback starts only once the clock has shown the moment the answer delay is over:
  \<open>I_play\<close> need not hold before.
\<close>

definition delay_over :: "env \<Rightarrow> exec \<Rightarrow> bool" where
  "delay_over w s \<longleftrightarrow> (\<exists>k < x_tick s. x_call_connected_ms s + ucast (answer_delay_s (x_config s)) * 1000 \<le> clock w k)"

locale exec_talk = exec_base I R w
  for I R :: "exec \<Rightarrow> bool" and w :: env +
  assumes I_play: "I s \<Longrightarrow> delay_over w s \<Longrightarrow> post I R I (step_play w s)"
    and I_over: "I s0 \<Longrightarrow> I s \<Longrightarrow> detected w s0 s \<or> expired w s0 s \<Longrightarrow> x_config s = x_config s0
      \<Longrightarrow> x_call_connected_ms s = x_call_connected_ms s0 \<Longrightarrow> x_tick s0 \<le> x_tick s
      \<Longrightarrow> post I R I (agent_do (hangup (pjsip w)) s)"
    and I_record: "I s \<Longrightarrow> post I R I (step_record w s)"
    and I_level: "I s \<Longrightarrow> attempt_post (\<lambda>_ a. I (s\<lparr>x_agent := a\<rparr>)) (\<lambda>a. I (s\<lparr>x_agent := a\<rparr>)) (getRxLevel (pjsip w) (x_agent s))"
begin

text \<open>The delay falls through to the playback only when it is over, or the run was cancelled.\<close>

lemma delay_kept:
  assumes "I s"
  shows "post (\<lambda>s. I s \<and> (x_cancelled s \<or> delay_over w s)) R I (step_delay w s)"
  unfolding step_delay_def
proof (rule loop_post [where I = "\<lambda>s. I s
    \<and> x_play_at_ms s = x_call_connected_ms s + ucast (answer_delay_s (x_config s)) * 1000"])
  let ?J = "\<lambda>s. I s \<and> x_play_at_ms s = x_call_connected_ms s + ucast (answer_delay_s (x_config s)) * 1000"
  show "iter_post ?J (\<lambda>s. I s \<and> (x_cancelled s \<or> delay_over w s)) R I (delay_round w s)" if "?J s" for s
    using that by (auto simp: delay_round_def reads delay_over_def not_less intro: exI [of _ "x_tick s"])
qed (use assms in simp)

lemma I_delay: "I s \<Longrightarrow> post I R I (step_delay w s)"
  by (erule post_mono [OF delay_kept]) simp_all

lemma I_ten_minutes:
  assumes "I s" and "600000 \<le> clock w (x_tick s) - x_call_connected_ms s"
  shows "post I R I (agent_hangup w (tock w s))"
  unfolding agent_hangup_def
proof (rule I_over [OF assms(1)])
  show "detected w s (tock w s) \<or> expired w s (tock w s)"
    using assms(2) by (auto simp: expired_def intro: exI [of _ "x_tick s"])
qed (use assms(1) in simp_all)

lemma I_playback: "I s \<Longrightarrow> post I R I (loop (play_round w) s)"
  by (rule loop_post [where I = I])
    (auto simp: play_round_def reads iter_post_Stop
      intro!: post_then_do [OF I_ten_minutes] I_drain split: option.split)

lemma I_silence: "I s \<Longrightarrow> post I R I (loop (silence_round w) s)"
proof (rule loop_post [where I = I])
  fix s assume s: "I s"
  let ?u = "snd (waitFor w 100 (tock w s))"
  have "I ?u" using s by simp
  from I_level [OF this] show "iter_post I I R I (silence_round w s)"
    using s by (auto simp: silence_round_def reads split: attempt.splits)
qed

lemma run_play_keeps:
  assumes I: "I s"
  shows "post I R I (run_play w s)"
proof -
  have rec: "post I R I (step_record w s)" using I by (rule I_record)
  have audio: "I (choose_audio w s)" if "I s" for s
    using that by (simp add: choose_audio_def Let_def case_prod_unfold)
  have go: "post (\<lambda>s. I s \<and> delay_over w s) R I (check_cancelled w s)" if "I s" "x_cancelled s \<or> delay_over w s" for s
    using that tock_cancelled [of s w]
    by (auto simp: check_cancelled_def hang_up_cancelled_def reads delay_over_def
        intro!: post_then_do [OF I_agent_hangup] intro: less_SucI)
  have tl: "post I R I (check_played w s)" if "I s" for s
    using that by (auto simp: check_played_def hang_up_cancelled_def reads intro!: post_then_do [OF I_agent_hangup])
  show ?thesis unfolding run_play_def
    by (rule post_then_do [OF rec], rule post_then_do [OF delay_kept], erule audio, elim conjE,
        rule post_then_do [OF go], assumption, assumption, elim conjE, rule post_then_do [OF I_play],
        assumption, assumption, rule post_then_do [where M = I], simp add: step_playback_def I_playback, rule tl)
qed

lemma I_check_silence:
  assumes "I s0" and "I s" and s: "x_cancelled s \<or> detected w s0 s \<or> expired w s0 s"
    and frame: "x_config s = x_config s0 \<and> x_call_connected_ms s = x_call_connected_ms s0 \<and> x_tick s0 \<le> x_tick s"
  shows "post I R I (check_silence w s)"
proof (cases "x_cancelled (tock w s)")
  case True
  with \<open>I s\<close> show ?thesis by (simp add: check_silence_def reads)
next
  case False
  let ?s = "emitState HANGING_UP (emitEvent (AgentEvent SILENCE_DETECTED (callId (tock w s)) ''''
      (silence_s (x_config (tock w s))) 0 '''') (tock w s))"
  have later: "x_tick ?s = Suc (x_tick s)" "sa_log (x_agent ?s) = sa_log (x_agent s) @ []"
    by (simp_all add: updates)
  from False s tock_cancelled have "detected w s0 s \<or> expired w s0 s" by blast
  then have "detected w s0 ?s \<or> expired w s0 ?s"
    using detected_later [OF _ _ later(2), of w s0] later(1) by (auto simp: expired_def less_SucI)
  then have "post I R I (agent_do (hangup (pjsip w)) ?s)"
    by (rule I_over [OF \<open>I s0\<close>, rotated]) (use \<open>I s\<close> frame in \<open>simp_all add: updates\<close>)
  with False show ?thesis by (simp add: check_silence_def agent_hangup_def reads)
qed

lemma run_end_keeps:
  assumes "I s"
  shows "post I R I (run_end w s)"
proof -
  let ?over = "\<lambda>s'. x_cancelled s' \<or> detected w s s' \<or> expired w s s'"
  let ?frame = "\<lambda>s'. x_config s' = x_config s \<and> x_call_connected_ms s' = x_call_connected_ms s \<and> x_tick s \<le> x_tick s'"
  have "I (silence_setup s)" using assms by (simp add: silence_setup_def)
  from I_silence [OF this] hangup_needs_silence
  have "post (\<lambda>s'. I s' \<and> ?over s') R I (loop (silence_round w) (silence_setup s))"
    by (rule post_conj) simp_all
  from this silence_frame
  have "post (\<lambda>s'. I s' \<and> ?over s' \<and> ?frame s') R I (loop (silence_round w) (silence_setup s))"
    by (rule post_conj) simp_all
  then have "post I R I (step_silence w s)"
    unfolding step_silence_def by (rule post_then_do) (use I_check_silence [OF assms] in blast)
  then show ?thesis
    unfolding run_end_def by (rule post_then_do) (auto simp: step_disconnect_def intro!: post_then_do [OF I_drain])
qed

lemma after_answer_keeps: "I s \<Longrightarrow> post I R I (then_do (run_play w s) (run_end w))"
  by (rule post_then_do [OF run_play_keeps], assumption, rule run_end_keeps)

end

locale exec_steps = exec_wait I R w + exec_talk I R w
  for I R :: "exec \<Rightarrow> bool" and w :: env
begin

lemma after_dial_keeps:
  assumes "I s"
  shows "post I R I (then_do (then_do (step_answer w s) (check_answered w))
    (\<lambda>s. then_do (run_play w s) (run_end w)))"
  by (rule post_then_do [OF answer_keeps [OF assms]]) (rule after_answer_keeps)

end

locale exec_calls = exec_steps I R w
  for I R :: "exec \<Rightarrow> bool" and w :: env +
  assumes I_place: "I s \<Longrightarrow> post I R I (agent_do (placeCall (pjsip w)) s)"
begin

lemma from_dial_keeps:
  assumes "I s"
  shows "post I R I (then_do (run_dial w s) (\<lambda>s. then_do (run_play w s) (run_end w)))"
  unfolding run_dial_def then_do_assoc
  by (rule post_then_do [where M = I], simp add: step_dial_def I_place assms,
      rule after_dial_keeps [unfolded then_do_assoc])

lemma from_register_keeps:
  assumes "I s"
  shows "post I R I (then_do (then_do (step_register w s) (check_not_placed w))
    (\<lambda>s. then_do (run_dial w s) (\<lambda>s. then_do (run_play w s) (run_end w))))"
  by (rule post_then_do [OF register_keeps [OF assms]]) (rule from_dial_keeps)

end

locale exec_invariant = exec_setup I R w + exec_calls I R w
  for I R :: "exec \<Rightarrow> bool" and w :: env
begin

lemma run_keeps: "I s \<Longrightarrow> post I R I (run w s)"
  unfolding run_def by (rule post_then_do [OF run_setup_keeps]) (simp_all add: from_dial_keeps)

end

section \<open>Invariants of the agent\<close>

text \<open>
  The same interface for a property of the agent alone: what other threads' actions, the initialisation
  and every operation the executor calls keep (\<open>agent_invariant\<close>), every run of the executor keeps. A
  property that placing a call changes (\<open>agent_setup\<close>) still holds up to that call and from it on; one
  that only the initialisation establishes (\<open>agent_calls\<close>) holds from then on; \<open>agent_steps\<close> is what
  they share. Each is an instance of the executor's interface.
\<close>

locale agent_steps =
  fixes J :: "sip_agent \<Rightarrow> bool" and lib :: pj
  assumes inv_act: "J a \<Longrightarrow> J (agent_act t a)"
    and inv_wait: "J a \<Longrightarrow> J (snd (waitEvent (fold agent_act ts) a))"
    and inv_hangup: "J a \<Longrightarrow> attempt_post (\<lambda>_. J) J (hangup lib a)"
    and inv_player: "J a \<Longrightarrow> attempt_post (\<lambda>_. J) J (startPlayer lib path a)"
    and inv_recorder: "J a \<Longrightarrow> attempt_post (\<lambda>_. J) J (startRecorder lib path a)"
    and inv_level: "J a \<Longrightarrow> attempt_post (\<lambda>_. J) J (getRxLevel lib a)"
    and inv_stop: "J a \<Longrightarrow> J (stopRecorder a)"
    and inv_start_time: "J a \<Longrightarrow> J (setCallStartTime t' a)"
begin

lemma inv_acts: "J a \<Longrightarrow> J (fold agent_act ts a)"
  by (induction ts arbitrary: a) (simp_all add: inv_act)

lemma exec_base: "pjsip w = lib \<Longrightarrow> exec_base (\<lambda>s. J (x_agent s)) (\<lambda>s. J (x_agent s)) w"
  by unfold_locales (simp_all add: tock_eq inv_acts waitFor_def reads inv_wait agent_do_post inv_hangup
      handleDisconnect_def updates inv_stop)

lemma exec_ring: "pjsip w = lib \<Longrightarrow> exec_ring (\<lambda>s. J (x_agent s)) (\<lambda>s. J (x_agent s)) w"
  by (intro exec_ring.intro exec_ring_axioms.intro exec_overdue.intro exec_overdue_axioms.intro exec_base)
    (simp_all add: agent_do_post inv_hangup tock_eq inv_acts inv_start_time waitFor_def reads inv_wait)

lemma exec_wait: "pjsip w = lib \<Longrightarrow> exec_wait (\<lambda>s. J (x_agent s)) (\<lambda>s. J (x_agent s)) w"
  by (intro exec_wait.intro exec_wait_axioms.intro exec_ring) simp_all

lemma inv_record: "J (x_agent s) \<Longrightarrow> post (\<lambda>s. J (x_agent s)) (\<lambda>s. J (x_agent s)) (\<lambda>s. J (x_agent s)) (step_record w s)"
  if "pjsip w = lib"
  unfolding step_record_def Let_def that
  by (rule post_then_do [where M = "\<lambda>s. J (x_agent s)"], rule agent_do_post) (simp_all add: inv_recorder)

lemma exec_talk: "pjsip w = lib \<Longrightarrow> exec_talk (\<lambda>s. J (x_agent s)) (\<lambda>s. J (x_agent s)) w"
  by (intro exec_talk.intro exec_talk_axioms.intro exec_base)
    (simp_all add: step_play_def updates reads tock_eq inv_acts agent_do_post inv_hangup inv_player inv_record inv_level)

lemma exec_steps: "pjsip w = lib \<Longrightarrow> exec_steps (\<lambda>s. J (x_agent s)) (\<lambda>s. J (x_agent s)) w"
  by (intro exec_steps.intro exec_wait exec_talk)

lemmas after_dial_keeps = exec_steps.after_dial_keeps [OF exec_steps]

end

locale agent_setup = agent_steps J lib
  for J :: "sip_agent \<Rightarrow> bool" and lib :: pj +
  assumes inv_init: "J a \<Longrightarrow> attempt_post (\<lambda>_. J) J (init lib a)"
begin

lemma exec_setup: "pjsip w = lib \<Longrightarrow> exec_setup (\<lambda>s. J (x_agent s)) (\<lambda>s. J (x_agent s)) w"
  by (intro exec_setup.intro exec_setup_axioms.intro exec_base) (simp_all add: inv_init)

lemmas run_setup_keeps = exec_setup.run_setup_keeps [OF exec_setup]

end

locale agent_calls = agent_steps J lib
  for J :: "sip_agent \<Rightarrow> bool" and lib :: pj +
  assumes inv_place: "J a \<Longrightarrow> attempt_post (\<lambda>_. J) J (placeCall lib a)"
begin

lemma exec_calls: "pjsip w = lib \<Longrightarrow> exec_calls (\<lambda>s. J (x_agent s)) (\<lambda>s. J (x_agent s)) w"
  by (intro exec_calls.intro exec_calls_axioms.intro exec_steps) (simp_all add: agent_do_post inv_place)

lemmas from_register_keeps = exec_calls.from_register_keeps [OF exec_calls]

end

locale agent_invariant = agent_setup J lib + agent_calls J lib
  for J :: "sip_agent \<Rightarrow> bool" and lib :: pj
begin

lemma exec_invariant: "pjsip w = lib \<Longrightarrow> exec_invariant (\<lambda>s. J (x_agent s)) (\<lambda>s. J (x_agent s)) w"
  by (intro exec_invariant.intro exec_setup exec_calls)

lemmas run_keeps = exec_invariant.run_keeps [OF exec_invariant]

end

end
