(* ===== verification/Scenarios.thy ===== *)
theory Scenarios
  imports Executor_Invariants
begin

text \<open>
  Concrete calls. A scenario lists what the other threads do at which interaction of the executor,
  with a PJSIP that never fails and always reads silence, and a clock that advances three seconds
  with every interaction. The runs below are evaluated by simplification; the witnesses of the
  executor's properties use them.
\<close>

definition scenario :: "(nat \<times> thread_action list) list \<Rightarrow> env" where
  "scenario acts = \<lparr>pjsip = quiet_pj,
     others = (\<lambda>n. case map_of acts n of None \<Rightarrow> [] | Some ts \<Rightarrow> ts),
     during = (\<lambda>_. []), clock = (\<lambda>n. of_nat (3000 * n)), tone = (\<lambda>_. 0)\<rparr>"

definition call_in :: "int \<Rightarrow> int \<Rightarrow> string \<Rightarrow> media_info list \<Rightarrow> call_info option" where
  "call_in st code why ms = Some \<lparr>ci_state = st, ci_lastStatusCode = code, ci_lastReason = why, ci_media = ms\<rparr>"

text \<open>Answered, played, hung up after silence; the peer confirms.\<close>

definition answered_call :: env where
  "answered_call = scenario
     [(2, [Callback (OnRegState 200 ''OK'')]),
      (7, [Callback (OnCallState (call_in 5 200 ''OK'' []))]),
      (10, [Callback (OnCallMediaState (call_in 5 200 ''OK'' [\<lparr>mi_audio = True, mi_active = True\<rparr>]))]),
      (16, [Callback OnEof2]),
      (28, [Callback (OnCallState (call_in 6 603 ''Decline'' []))])]"

text \<open>Ringing, never answered: the executor gives up after the answer timeout.\<close>

definition unanswered_call :: env where
  "unanswered_call = scenario
     [(2, [Callback (OnRegState 200 ''OK'')]),
      (7, [Callback (OnCallState (call_in 3 180 ''Ringing'' []))]),
      (16, [Callback (OnCallState (call_in 6 603 ''Decline'' []))])]"

text \<open>Cancelled while it rings.\<close>

definition cancelled_call :: env where
  "cancelled_call = scenario
     [(2, [Callback (OnRegState 200 ''OK'')]),
      (7, [Callback (OnCallState (call_in 3 180 ''Ringing'' []))]),
      (8, cancel)]"

section \<open>Evaluation\<close>

lemma loop_eval: "loop body s = (case body s of None \<Rightarrow> None
    | Some (Continue s') \<Rightarrow> loop body s' | Some (Stop f) \<Rightarrow> Some f)"
  by (subst loop.simps) (simp split: option.split iter.split)

lemma then_do_cong: "m = m' \<Longrightarrow> then_do m k = then_do m' k" by simp
lemma in_body_cong: "m = m' \<Longrightarrow> in_body m k = in_body m' k" by simp
lemma attempt_then_cong: "m = m' \<Longrightarrow> attempt_then m k = attempt_then m' k" by simp

lemmas eval_congs = then_do_cong in_body_cong attempt_then_cong let_weak_cong prod.case_cong_weak

lemma scenario_simps:
  "pjsip (scenario l) = quiet_pj" "during (scenario l) n = []" "clock (scenario l) n = of_nat (3000 * n)"
  "others (scenario l) n = (case map_of l n of None \<Rightarrow> [] | Some ts \<Rightarrow> ts)"
  by (simp_all add: scenario_def)

lemma quiet_pj_simps: "pj_do quiet_pj op a = Done () (pj_log op a)" "pj_level quiet_pj l = 0"
  by (simp_all add: quiet_pj_def pj_do_def)

lemma demo_config_simps:
  "sip_host demo_config = ''env-host''" "destination demo_config = ''200''"
  "answer_timeout_s demo_config = 30" "answer_delay_s demo_config = 1" "silence_s demo_config = 10"
  "record_dir demo_config = ''./recordings''" "silence_threshold demo_config = 10"
  "audio_source demo_config = \<lparr>source_type = ''wav'', path_or_text = ''/a.wav''\<rparr>"
  by (simp_all add: demo_config_def Config_def)

lemmas eval_world = scenario_simps quiet_pj_simps demo_config_simps cancel_def call_in_def
  tock_eq waitFor_def waitEvent_def blocks_def wakeDispatcher_def onRegState_def onCallState_def
  onCallMediaState_def onEof2_def pushEvent_def InternalEvent_def inv_state_defs

lemmas eval_agent = SipAgent_def init_def placeCall_def hangup_def startRecorder_def startPlayer_def
  getRxLevel_def setCallStartTime_def pj_log_def libRegisterThread_def drop_call_def drop_player_def
  stopRecorder_def SilenceDetector_def arm_def feed_def

lemmas eval_executor = CallExecutor_def sipCodeToCallStatus_def isCancelled_def nowMs_def Let_def updates agent_do_def
  agent_hangup_def hang_up_cancelled_def failed_status_def is_disconnect_def handleDisconnect_def
  run_def run_setup_def step_init_def step_register_def register_round_def check_not_placed_def
  run_dial_def step_dial_def step_answer_def answer_round_def deadline_hangup_def safety_net_def
  answer_event_def answer_check_def check_answered_def
  run_play_def step_record_def recording_file_def choose_audio_def step_delay_def delay_round_def
  check_cancelled_def step_play_def step_playback_def play_round_def check_played_def
  run_end_def step_silence_def silence_setup_def silence_round_def check_silence_def
  step_disconnect_def drain_round_def

lemmas evaluation = loop_eval eval_world eval_agent eval_executor

lemma answered_run_ex:
  "\<exists>s. run answered_call (CallExecutor demo_config) = Some (Return s)
     \<and> status (x_result s) = ANSWERED \<and> billing_seconds (x_result s) = 63
     \<and> map status (x_emitted s) = [REGISTERING, REGISTERED, DIALING, ANSWERED, PLAYING, PLAYED,
         SILENCE_DETECTED, HANGING_UP, RECORDING_READY, ANSWERED]
     \<and> sa_thread_registered (x_agent s) \<and> length (filter (\<lambda>op. op = Hangup 603) (sa_log (x_agent s))) = 1
     \<and> x_tick s < 100 \<and> sa_call_start_ms (x_agent s) = 24000 \<and> CreatePlayer ''/a.wav'' \<in> set (sa_log (x_agent s))"
  unfolding answered_call_def
  by (simp add: evaluation One_nat_def [symmetric] del: One_nat_def cong: eval_congs)

lemma answered_run:
  obtains s where "run answered_call (CallExecutor demo_config) = Some (Return s)"
    and "status (x_result s) = ANSWERED"
    and "billing_seconds (x_result s) = 63"
    and "map status (x_emitted s) = [REGISTERING, REGISTERED, DIALING, ANSWERED, PLAYING, PLAYED, SILENCE_DETECTED, HANGING_UP, RECORDING_READY, ANSWERED]"
    and "sa_thread_registered (x_agent s)"
    and "length (filter (\<lambda>op. op = Hangup 603) (sa_log (x_agent s))) = 1"
    and "x_tick s < 100" and "sa_call_start_ms (x_agent s) = 24000"
    and "CreatePlayer ''/a.wav'' \<in> set (sa_log (x_agent s))"
proof -
  from answered_run_ex show thesis by (elim exE conjE) (rule that)
qed

lemma unanswered_run_ex:
  "\<exists>s. run unanswered_call (CallExecutor demo_config) = Some (Return s)
     \<and> status (x_result s) = NO_ANSWER \<and> sip_code (x_result s) = 487 \<and> billing_seconds (x_result s) = 0
     \<and> map status (x_emitted s) = [REGISTERING, REGISTERED, DIALING, RINGING, NO_ANSWER]"
  unfolding unanswered_call_def
  by (simp add: evaluation One_nat_def [symmetric] del: One_nat_def cong: eval_congs)

lemma unanswered_run:
  obtains s where "run unanswered_call (CallExecutor demo_config) = Some (Return s)"
    and "status (x_result s) = NO_ANSWER"
    and "sip_code (x_result s) = 487"
    and "billing_seconds (x_result s) = 0"
    and "map status (x_emitted s) = [REGISTERING, REGISTERED, DIALING, RINGING, NO_ANSWER]"
proof -
  from unanswered_run_ex show thesis by (elim exE conjE) (rule that)
qed

lemma cancelled_run_ex:
  "\<exists>s. run cancelled_call (CallExecutor demo_config) = Some (Return s)
     \<and> status (x_result s) = CANCELLED \<and> map status (x_emitted s) = [REGISTERING, REGISTERED, DIALING, RINGING]"
  unfolding cancelled_call_def
  by (simp add: evaluation One_nat_def [symmetric] del: One_nat_def cong: eval_congs)

lemma cancelled_run:
  obtains s where "run cancelled_call (CallExecutor demo_config) = Some (Return s)"
    and "status (x_result s) = CANCELLED"
    and "map status (x_emitted s) = [REGISTERING, REGISTERED, DIALING, RINGING]"
proof -
  from cancelled_run_ex show thesis by (elim exE conjE) (rule that)
qed

end
