(* ===== verification/Executor_Safety.thy ===== *)
theory Executor_Safety
  imports Scenarios
begin

text \<open>
  What \<open>run()\<close> tells the outside world, for every environment: the emitted events follow the public
  call lifecycle (an automaton, the abstract specification of the executor), the last event of a run
  that was not cancelled is the one and only result and agrees with the returned one, and a cancelled
  run reports no result at all.
\<close>

section \<open>The lifecycle automaton\<close>

datatype life =
    Fresh | Registering | Registered | Dialing | Talking | Playing | Listening | Quiet | Closing
  | Recorded | Finished

definition advance :: "life \<Rightarrow> agent_event \<Rightarrow> life option" where
  "advance q e =
    (if result_event e then
       if q \<in> {Registering, Dialing, Talking, Recorded} \<and> outcome_status (status e) \<and> status e \<noteq> CANCELLED
       then Some Finished else None
     else case (q, status e) of
       (Fresh, REGISTERING) \<Rightarrow> Some Registering
     | (Registering, REGISTERED) \<Rightarrow> Some Registered
     | (Registered, DIALING) \<Rightarrow> Some Dialing
     | (Dialing, RINGING) \<Rightarrow> Some Dialing
     | (Dialing, ANSWERED) \<Rightarrow> Some Talking
     | (Talking, RINGING) \<Rightarrow> Some Talking
     | (Talking, ANSWERED) \<Rightarrow> Some Talking
     | (Talking, PLAYING) \<Rightarrow> Some Playing
     | (Playing, PLAYED) \<Rightarrow> Some Listening
     | (Playing, RECORDING_READY) \<Rightarrow> Some Recorded
     | (Listening, SILENCE_DETECTED) \<Rightarrow> Some Quiet
     | (Listening, RECORDING_READY) \<Rightarrow> Some Recorded
     | (Quiet, HANGING_UP) \<Rightarrow> Some Closing
     | (Closing, RECORDING_READY) \<Rightarrow> Some Recorded
     | _ \<Rightarrow> None)"

fun lifecycle :: "life \<Rightarrow> agent_event list \<Rightarrow> life option" where
  "lifecycle q [] = Some q"
| "lifecycle q (e # es) = Option.bind (advance q e) (\<lambda>q'. lifecycle q' es)"

lemma lifecycle_append: "lifecycle q (xs @ ys) = Option.bind (lifecycle q xs) (\<lambda>q'. lifecycle q' ys)"
proof (induction xs arbitrary: q)
  case (Cons e es)
  then show ?case by (cases "advance q e") simp_all
qed simp

lemma lifecycle_snoc [simp]: "lifecycle q (es @ [e]) = Option.bind (lifecycle q es) (\<lambda>q'. advance q' e)"
  by (cases "lifecycle q es") (simp_all add: lifecycle_append)

lemma advance_result: "advance q e = Some q' \<Longrightarrow> (q' = Finished) = result_event e \<and> q \<noteq> Finished"
  by (auto simp: advance_def split: if_splits prod.splits life.splits call_status.splits)

text \<open>A word of the lifecycle holds a result exactly when it is finished, and then only at its end.\<close>

lemma lifecycle_results:
  "lifecycle Fresh es = Some q \<Longrightarrow>
     (q \<noteq> Finished \<longrightarrow> filter result_event es = [])
     \<and> (q = Finished \<longrightarrow> es \<noteq> [] \<and> filter result_event es = [last es])"
proof (induction es arbitrary: q rule: rev_induct)
  case (snoc e es)
  then obtain q' where q': "lifecycle Fresh es = Some q'" "advance q' e = Some q"
    by (auto simp: bind_eq_Some_conv)
  from advance_result [OF q'(2)] snoc.IH [OF q'(1)] show ?case by auto
qed simp

section \<open>Agent calls leave the executor's own state alone\<close>

lemma level_identity: "attempt_post (\<lambda>_ b. sa_config b = sa_config a \<and> sa_call_id b = sa_call_id a)
    (\<lambda>b. sa_config b = sa_config a \<and> sa_call_id b = sa_call_id a) (getRxLevel lib a)"
  by (simp add: getRxLevel_def libRegisterThread_def pj_do_def)

interpretation agent_identity: agent_invariant "\<lambda>a. sa_config a = c \<and> sa_call_id a = cid" lib for c cid lib
proof unfold_locales
  fix a :: sip_agent and path
  assume a: "sa_config a = c \<and> sa_call_id a = cid"
  note ops = libRegisterThread_def pj_do_def drop_call_def drop_player_def stopRecorder_def
  show "attempt_post (\<lambda>_ a. sa_config a = c \<and> sa_call_id a = cid) (\<lambda>a. sa_config a = c \<and> sa_call_id a = cid)
      (init lib a)"
    using a by (simp add: init_def ops Let_def)
  show "attempt_post (\<lambda>_ a. sa_config a = c \<and> sa_call_id a = cid) (\<lambda>a. sa_config a = c \<and> sa_call_id a = cid)
      (placeCall lib a)"
    using a by (simp add: placeCall_def ops)
  show "attempt_post (\<lambda>_ a. sa_config a = c \<and> sa_call_id a = cid) (\<lambda>a. sa_config a = c \<and> sa_call_id a = cid)
      (hangup lib a)"
    using a by (simp add: hangup_def ops)
  show "attempt_post (\<lambda>_ a. sa_config a = c \<and> sa_call_id a = cid) (\<lambda>a. sa_config a = c \<and> sa_call_id a = cid)
      (startPlayer lib path a)"
    using a by (simp add: startPlayer_def ops)
  show "attempt_post (\<lambda>_ a. sa_config a = c \<and> sa_call_id a = cid) (\<lambda>a. sa_config a = c \<and> sa_call_id a = cid)
      (startRecorder lib path a)"
    using a by (simp add: startRecorder_def ops)
  show "attempt_post (\<lambda>_ a. sa_config a = c \<and> sa_call_id a = cid) (\<lambda>a. sa_config a = c \<and> sa_call_id a = cid)
      (getRxLevel lib a)"
    using level_identity [of a lib] a by simp
qed (simp_all add: stopRecorder_def setCallStartTime_def)

lemma post_agent_do:
  assumes "\<And>a. attempt_post (\<lambda>_ b. sa_config b = sa_config a \<and> sa_call_id b = sa_call_id a)
      (\<lambda>b. sa_config b = sa_config a \<and> sa_call_id b = sa_call_id a) (f a)"
    and "\<And>s'. agent_step s s' \<Longrightarrow> N s'" and "\<And>s'. agent_step s s' \<Longrightarrow> T s'"
  shows "post N R T (agent_do f s)"
  using assms(1) [of "x_agent s"] assms(2,3)
  by (cases "f (x_agent s)") (auto simp: agent_do_def agent_step_def)

lemma post_hangup:
  assumes "\<And>s'. agent_step s s' \<Longrightarrow> N s'" and "\<And>s'. agent_step s s' \<Longrightarrow> T s'"
  shows "post N R T (agent_hangup w s)"
  unfolding agent_hangup_def
  using agent_identity.inv_hangup assms by (intro post_agent_do) simp_all

lemma init_ok: "init w a = Done ok a' \<Longrightarrow> ok"
  by (auto simp: init_def Let_def pj_do_def split: if_splits)

section \<open>Assertions\<close>

abbreviation at :: "life \<Rightarrow> exec \<Rightarrow> bool" where
  "at q s \<equiv> lifecycle Fresh (x_emitted s) = Some q"

definition matches :: "agent_event \<Rightarrow> agent_event \<Rightarrow> bool" where
  "matches e r \<longleftrightarrow> status e = status r \<and> sip_code e = sip_code r \<and> reason e = reason r
     \<and> billing_seconds e = billing_seconds r \<and> recording_path e = recording_path r"

text \<open>Nothing of the outcome has been recorded in \<open>result_\<close> yet, apart from the status and the path.\<close>

definition pending :: "string \<Rightarrow> exec \<Rightarrow> bool" where
  "pending path s \<longleftrightarrow> recording_path (x_result s) = path \<and> billing_seconds (x_result s) = 0
     \<and> sip_code (x_result s) = 0"

definition finished :: "exec \<Rightarrow> bool" where
  "finished s \<longleftrightarrow> at Finished s \<and> matches (last (x_emitted s)) (x_result s)
     \<and> (billing_seconds (x_result s) \<noteq> 0 \<longrightarrow> status (x_result s) = ANSWERED)"

definition aborted :: "exec \<Rightarrow> bool" where
  "aborted s \<longleftrightarrow> status (x_result s) = CANCELLED \<and> billing_seconds (x_result s) = 0 \<and> x_cancelled s
     \<and> (\<exists>q. at q s \<and> q \<noteq> Finished)"

definition returned :: "exec \<Rightarrow> bool" where
  "returned s \<longleftrightarrow> finished s \<or> aborted s"

definition thrown :: "exec \<Rightarrow> bool" where
  "thrown s \<longleftrightarrow> (\<exists>q. at q s \<and> q \<noteq> Finished)"

lemma disconnect_finishes:
  assumes "at q s" and "q \<in> {Dialing, Talking} \<and> recording_path (x_result s) = []
    \<or> q \<in> {Playing, Listening, Closing} \<and> recording_path (x_result s) \<noteq> []"
  shows "returned (handleDisconnect w code why s)"
  using assms
  by (auto simp: returned_def finished_def matches_def handleDisconnect_def reads updates advance_def
      result_event_def)

section \<open>The phases\<close>

lemma init_post:
  assumes "at Fresh s" and "pending '''' s"
  shows "post (\<lambda>s. at Fresh s \<and> pending '''' s) returned thrown (step_init w s)"
proof (cases "init (pjsip w) (x_agent (set_status FAILED s))")
  case (Done ok a)
  with init_ok [OF Done] assms show ?thesis by (simp add: step_init_def updates pending_def)
next
  case (Threw a)
  with assms show ?thesis by (simp add: step_init_def updates thrown_def)
qed

lemma register_post:
  assumes "at Fresh s" and "pending '''' s"
  shows "post (\<lambda>s. pending '''' s \<and> (at Registered s \<or> at Registering s \<and> x_cancelled s)) returned thrown
    (step_register w s)"
  unfolding step_register_def reads
proof (rule loop_post [where I = "\<lambda>s. at Registering s \<and> pending '''' s"])
  fix s assume "at Registering s \<and> pending '''' s"
  then show "iter_post (\<lambda>s. at Registering s \<and> pending '''' s)
      (\<lambda>s. pending '''' s \<and> (at Registered s \<or> at Registering s \<and> x_cancelled s)) returned thrown
      (register_round w s)"
    by (auto simp: register_round_def reads updates pending_def returned_def finished_def matches_def
        advance_def result_event_def split: option.splits)
qed (use assms in \<open>simp add: updates pending_def advance_def result_event_def\<close>)

lemma setup_post:
  assumes "at Fresh s" and "pending '''' s"
  shows "post (\<lambda>s. at Registered s \<and> pending '''' s) returned thrown (run_setup w s)"
  unfolding run_setup_def
proof (rule post_then_do [OF init_post [OF assms]], rule post_then_do [OF register_post])
  fix s assume "pending '''' s \<and> (at Registered s \<or> at Registering s \<and> x_cancelled s)"
  then show "post (\<lambda>s. at Registered s \<and> pending '''' s) returned thrown (check_not_placed w s)"
    by (auto simp: check_not_placed_def reads updates pending_def returned_def aborted_def)
qed simp_all

lemma dial_post:
  assumes "at Registered s" and "pending '''' s"
  shows "post (\<lambda>s. at Dialing s \<and> pending '''' s) returned thrown (step_dial w s)"
  unfolding step_dial_def
  using agent_identity.inv_place assms
  by (intro post_agent_do)
    (auto simp: agent_step_def updates pending_def thrown_def advance_def result_event_def)

text \<open>While waiting for the answer: the lifecycle is at \<open>Talking\<close> exactly when it has been seen.\<close>

definition answering :: "exec \<Rightarrow> bool" where
  "answering s \<longleftrightarrow> pending '''' s
     \<and> (if x_answered s then at Talking s \<and> status (x_result s) = ANSWERED else at Dialing s)"

definition answered_or_cancelled :: "exec \<Rightarrow> bool" where
  "answered_or_cancelled s \<longleftrightarrow> answering s \<and> (x_answered s \<or> x_cancelled s)"

lemma answering_thrown: "answering s \<Longrightarrow> thrown s"
  by (auto simp: answering_def thrown_def split: if_splits)

lemma answering_agent_step: "agent_step s s' \<Longrightarrow> answering s' = answering s"
  by (auto simp: agent_step_def answering_def pending_def)

lemma answering_stable [simp]: "answering (tock w s) = answering s"
  "answering (snd (waitFor w t s)) = answering s"
  "answering (s\<lparr>x_answer_timeout_hit := b\<rparr>) = answering s"
  "answering (s\<lparr>x_media_active := b\<rparr>) = answering s"
  by (simp_all add: answering_def pending_def)

lemma answering_ringing [simp]: "answering s \<Longrightarrow> answering (emitState RINGING s)"
  by (auto simp: answering_def pending_def updates advance_def result_event_def split: if_splits)

lemma disconnect_answering: "answering s \<Longrightarrow> returned (handleDisconnect w code why s)"
  by (rule disconnect_finishes [where q = "if x_answered s then Talking else Dialing"])
    (auto simp: answering_def pending_def split: if_splits)

lemma answer_check_post:
  "answering s \<Longrightarrow> iter_post answering answered_or_cancelled returned thrown (answer_check s)"
  by (simp add: answer_check_def answered_or_cancelled_def)

lemma answer_event_post:
  assumes "answering s"
  shows "iter_post answering answered_or_cancelled returned thrown (answer_event w ev s)"
proof -
  have confirmed: "answering (emitState ANSWERED (s'\<lparr>x_call_connected_ms := now, x_agent := a\<rparr>))"
    if "answering s" "s' = tock w (set_status ANSWERED (s\<lparr>x_answered := True\<rparr>))" for s' a now
    using that by (auto simp: answering_def pending_def updates advance_def result_event_def split: if_splits)
  show ?thesis
    using assms by (auto simp: answer_event_def reads intro!: answer_check_post disconnect_answering confirmed)
qed

lemma answer_round_post:
  assumes "answering s"
  shows "iter_post answering answered_or_cancelled returned thrown (answer_round w s)"
proof -
  have dl: "post answering returned thrown (deadline_hangup w s)" if "answering s" for s
    using that by (auto simp: deadline_hangup_def reads answering_agent_step intro!: post_hangup answering_thrown)
  have net: "post answering returned thrown (safety_net w s)" if "answering s" for s
    using that by (auto simp: safety_net_def reads)
      (auto simp: updates answering_def pending_def returned_def finished_def matches_def advance_def
        result_event_def split: if_splits)
  show ?thesis
    using assms unfolding answer_round_def reads
    by (auto simp: answered_or_cancelled_def intro!: iter_post_in_body [OF dl] iter_post_in_body [OF net]
        answer_event_post split: option.split)
qed

lemma run_dial_post:
  assumes "at Registered s" and "pending '''' s"
  shows "post (\<lambda>s. at Talking s \<and> pending '''' s \<and> status (x_result s) = ANSWERED) returned thrown (run_dial w s)"
  unfolding run_dial_def
proof (rule post_then_do [OF dial_post [OF assms]], rule post_then_do [where M = answered_or_cancelled])
  fix s assume "at Dialing s \<and> pending '''' s"
  then show "post answered_or_cancelled returned thrown (step_answer w s)"
    unfolding step_answer_def reads
    by (intro loop_post [where I = answering] answer_round_post) (simp_all add: answering_def pending_def)
next
  fix s assume s: "answered_or_cancelled s"
  then have a: "answering (tock w s)" by (simp add: answered_or_cancelled_def)
  have cancelled: "post N returned thrown (then_do (agent_hangup w (tock w s))
      (\<lambda>s. Some (Return (set_reason ''cancelled by user'' (set_status CANCELLED s)))))"
    if "x_cancelled (tock w s)" for N
    using a that
    by (intro post_then_do [where M = "\<lambda>s. answering s \<and> x_cancelled s"] post_hangup)
      (auto simp: answering_agent_step agent_step_frame answering_thrown updates returned_def aborted_def
        answering_def pending_def split: if_splits)
  have "at Talking s \<and> pending '''' (tock w s) \<and> status (x_result s) = ANSWERED"
    if "\<not> x_cancelled (tock w s)"
    using s that tock_cancelled [of s w]
    by (auto simp: answered_or_cancelled_def answering_def pending_def split: if_splits)
  with cancelled show "post (\<lambda>s. at Talking s \<and> pending '''' s \<and> status (x_result s) = ANSWERED)
      returned thrown (check_answered w s)"
    by (simp add: check_answered_def reads failed_status_def)
qed

text \<open>From the start of the recording on, a path is set and nothing else of the outcome is.\<close>

definition active :: "life \<Rightarrow> exec \<Rightarrow> bool" where
  "active q s \<longleftrightarrow> at q s \<and> recording_path (x_result s) \<noteq> [] \<and> billing_seconds (x_result s) = 0
     \<and> status (x_result s) = ANSWERED"

lemma active_agent_step: "agent_step s s' \<Longrightarrow> active q s' = active q s"
  by (auto simp: agent_step_def active_def)

lemma active_stable [simp]:
  "active q (tock w s) = active q s" "active q (snd (waitFor w t s)) = active q s"
  "active q (s\<lparr>x_played := b\<rparr>) = active q s" "active q (s\<lparr>x_silent := b\<rparr>) = active q s"
  "active q (s\<lparr>x_sd := d\<rparr>) = active q s" "active q (s\<lparr>x_play_at_ms := u\<rparr>) = active q s"
  "active q (s\<lparr>x_agent := a\<rparr>) = active q s" "active q (silence_setup s) = active q s"
  "active q (choose_audio w s) = active q s" "active q (s\<lparr>x_playback_started_ms := u\<rparr>) = active q s"
  by (simp_all add: active_def silence_setup_def choose_audio_def Let_def case_prod_unfold)

lemma active_thrown: "active q s \<Longrightarrow> q \<noteq> Finished \<Longrightarrow> thrown s"
  by (auto simp: active_def thrown_def)

lemma active_aborted: "active q s \<Longrightarrow> q \<noteq> Finished \<Longrightarrow> x_cancelled s \<Longrightarrow> returned (set_status CANCELLED s)"
  by (auto simp: active_def returned_def aborted_def updates)

lemma active_emit:
  "active q s \<Longrightarrow> advance q (AgentEvent st (callId s) '''' 0 0 '''') = Some q' \<Longrightarrow> active q' (emitState st s)"
  by (simp add: active_def updates)

lemma active_disconnect:
  "active q s \<Longrightarrow> q \<in> {Playing, Listening, Closing} \<Longrightarrow> returned (handleDisconnect w code why s)"
  by (rule disconnect_finishes [where q = q]) (auto simp: active_def)

lemma hang_up_cancelled_post:
  assumes "active q s" and "q \<noteq> Finished" and "x_cancelled s"
  shows "post N returned thrown (hang_up_cancelled w s)"
  unfolding hang_up_cancelled_def
  by (rule post_then_do [where M = "\<lambda>s. active q s \<and> x_cancelled s"], rule post_hangup)
    (use assms in \<open>auto simp: active_agent_step agent_step_frame intro: active_thrown active_aborted\<close>)

lemma drain_post:
  assumes "active q s" and "q \<in> {Playing, Listening, Closing}"
  shows "post (\<lambda>s. active q s \<and> x_cancelled s) returned thrown (loop (drain_round w) s)"
  by (rule loop_post [where I = "active q"])
    (use assms in \<open>auto simp: drain_round_def reads intro: active_disconnect split: option.split\<close>)

lemma record_post:
  assumes "at Talking s" "pending '''' s" "status (x_result s) = ANSWERED"
  shows "post (active Talking) returned thrown (step_record w s)"
  unfolding step_record_def Let_def
  by (rule post_then_do [where M = "\<lambda>s. at Talking s \<and> pending '''' s \<and> status (x_result s) = ANSWERED"],
      rule post_agent_do)
    (use assms agent_identity.inv_recorder in \<open>auto simp: agent_step_frame pending_def active_def thrown_def
        recording_file_def\<close>)

lemma delay_post: "active q s \<Longrightarrow> post (active q) returned thrown (step_delay w s)"
  unfolding step_delay_def
  by (rule loop_post [where I = "active q"]) (auto simp: delay_round_def reads)

lemma check_cancelled_post:
  "active q s \<Longrightarrow> q \<noteq> Finished \<Longrightarrow> post (active q) returned thrown (check_cancelled w s)"
  by (auto simp: check_cancelled_def reads intro: hang_up_cancelled_post)

lemma play_post: "active Talking s \<Longrightarrow> post (active Playing) returned thrown (step_play w s)"
  unfolding step_play_def reads
  using agent_identity.inv_player active_emit [of Talking s PLAYING Playing]
  by (intro post_agent_do) (auto simp: active_agent_step advance_def result_event_def intro: active_thrown)

lemma playback_post:
  assumes "active Playing s"
  shows "post (\<lambda>s. active Listening s \<or> active Playing s \<and> x_cancelled s) returned thrown (step_playback w s)"
  unfolding step_playback_def
proof (rule loop_post [where I = "\<lambda>s. active Playing s \<and> \<not> x_played s"])
  fix s assume s: "active Playing s \<and> \<not> x_played s"
  have max_duration: "post N returned thrown (then_do (agent_hangup w s) (loop (drain_round w)))"
    if "active Playing s" "\<And>s. active Playing s \<Longrightarrow> x_cancelled s \<Longrightarrow> N s" for s N
    by (rule post_then_do [where M = "active Playing"], rule post_hangup)
      (use that in \<open>auto simp: active_agent_step intro: active_thrown post_mono [OF drain_post]\<close>)
  have played: "active Listening (emitState PLAYED (s\<lparr>x_played := True\<rparr>))" if "active Playing s" for s
    using that by (intro active_emit [of Playing]) (simp_all add: advance_def result_event_def)
  show "iter_post (\<lambda>s. active Playing s \<and> \<not> x_played s)
      (\<lambda>s. active Listening s \<or> active Playing s \<and> x_cancelled s) returned thrown (play_round w s)"
    using s by (auto simp: play_round_def reads iter_post_Stop intro!: max_duration
        intro: active_disconnect played split: option.split)
qed (use assms in simp)

lemma check_played_post:
  assumes "active Listening s \<or> active Playing s \<and> x_cancelled s"
  shows "post (active Listening) returned thrown (check_played w s)"
proof -
  have "\<not> failed_status (tock w s)" if "active q s" for q
    using that by (simp add: failed_status_def active_def)
  with assms show ?thesis
    by (auto simp: check_played_def reads intro: hang_up_cancelled_post)
qed

lemma run_play_post:
  assumes "at Talking s" "pending '''' s" "status (x_result s) = ANSWERED"
  shows "post (active Listening) returned thrown (run_play w s)"
  unfolding run_play_def
  by (rule post_then_do [OF record_post [OF assms]], rule post_then_do [OF delay_post], simp,
      rule post_then_do [OF check_cancelled_post], assumption, simp,
      rule post_then_do [OF play_post], assumption, rule post_then_do [OF playback_post], assumption,
      rule check_played_post)

lemma silence_loop_post:
  assumes "active Listening s"
  shows "post (active Listening) returned thrown (loop (silence_round w) s)"
proof (rule loop_post [where I = "active Listening"])
  fix s assume s: "active Listening s"
  show "iter_post (active Listening) (active Listening) returned thrown (silence_round w s)"
    using s by (auto simp: silence_round_def reads intro: active_disconnect active_thrown split: attempt.split)
qed (rule assms)

lemma check_silence_post:
  assumes "active Listening s"
  shows "post (active Closing) returned thrown (check_silence w s)"
  using assms
  by (auto simp: check_silence_def reads active_agent_step intro!: post_hangup active_aborted)
    (auto simp: active_def updates thrown_def advance_def result_event_def agent_step_frame lifecycle_append)

lemma run_end_post:
  assumes "active Listening s"
  shows "post (\<lambda>_. False) returned thrown (run_end w s)"
  unfolding run_end_def step_silence_def step_disconnect_def
  by (rule post_then_do [where M = "active Closing"], rule post_then_do [OF silence_loop_post],
      simp add: assms, rule check_silence_post, assumption, rule post_then_do [OF drain_post], assumption)
    (auto intro: active_aborted)

section \<open>The whole run\<close>

lemma run_post:
  assumes "at Fresh s" and "pending '''' s"
  shows "post (\<lambda>_. False) returned thrown (run w s)"
  unfolding run_def
  by (rule post_then_do [OF setup_post [OF assms]], rule post_then_do [OF run_dial_post], simp, simp,
      rule post_then_do [OF run_play_post], simp, simp, simp, rule run_end_post)

lemma run_from_start: "post (\<lambda>_. False) returned thrown (run w (CallExecutor c))"
  by (rule run_post) (simp_all add: CallExecutor_def pending_def)

lemma never_falls_through: "run w (CallExecutor c) \<noteq> Some (Next s)"
  using run_from_start [of w c] by auto

lemma finished_outcome:
  assumes "finished s"
  shows "outcome_status (status (x_result s)) \<and> status (x_result s) \<noteq> CANCELLED"
proof -
  from assms have "x_emitted s \<noteq> []" by (auto simp: finished_def)
  then obtain es e where e: "x_emitted s = es @ [e]" by (metis rev_exhaust)
  with assms obtain q where "advance q e = Some Finished"
    by (auto simp: finished_def bind_eq_Some_conv)
  then have "outcome_status (status e) \<and> status e \<noteq> CANCELLED"
    by (auto simp: advance_def split: if_splits prod.splits life.splits call_status.splits)
  with assms e show ?thesis by (simp add: finished_def matches_def)
qed

lemma finished_results:
  "finished s \<Longrightarrow> x_emitted s \<noteq> [] \<and> filter result_event (x_emitted s) = [last (x_emitted s)]"
  using lifecycle_results by (auto simp: finished_def)

lemma unfinished_results: "at q s \<Longrightarrow> q \<noteq> Finished \<Longrightarrow> filter result_event (x_emitted s) = []"
  using lifecycle_results by blast

text \<open>
  C1: the events of a run always form a word of the call lifecycle: registration, dialling, ringing
  and answer, playback, silence, hang-up, recording, result, each only where it belongs; when the run
  returned without having been cancelled the word is complete, when it was cancelled or left by an
  exception it stops before the result.
\<close>

theorem run_follows_lifecycle:
  assumes "run w (CallExecutor c) = Some f"
  shows "case f of
      Return s \<Rightarrow> (if status (x_result s) = CANCELLED
         then \<exists>q. lifecycle Fresh (x_emitted s) = Some q \<and> q \<noteq> Finished
         else lifecycle Fresh (x_emitted s) = Some Finished)
    | Throw s \<Rightarrow> \<exists>q. lifecycle Fresh (x_emitted s) = Some q \<and> q \<noteq> Finished
    | Next s \<Rightarrow> False"
proof (cases f)
  case (Return s)
  from run_from_start [of w c] assms Return have "returned s" by simp
  then show ?thesis
    using finished_outcome [of s] Return by (auto simp: returned_def finished_def aborted_def)
qed (use run_from_start [of w c] assms in \<open>auto simp: thrown_def\<close>)

theorem run_follows_lifecycle_witness:
  "\<exists>s. run answered_call (CallExecutor demo_config) = Some (Return s) \<and> length (x_emitted s) = 10
     \<and> lifecycle Fresh (x_emitted s) = Some Finished"
proof -
  obtain s where r: "run answered_call (CallExecutor demo_config) = Some (Return s)"
      and st: "status (x_result s) = ANSWERED"
      and es: "map status (x_emitted s) = [REGISTERING, REGISTERED, DIALING, ANSWERED, PLAYING, PLAYED,
         SILENCE_DETECTED, HANGING_UP, RECORDING_READY, ANSWERED]"
    by (rule answered_run)
  have "length (map status (x_emitted s)) = 10" unfolding es by simp
  then have "length (x_emitted s) = 10" by (simp only: length_map)
  moreover from run_follows_lifecycle [OF r] st have "lifecycle Fresh (x_emitted s) = Some Finished"
    by (simp only: flow.case call_status.distinct if_False)
  ultimately show ?thesis using r by blast
qed

text \<open>
  C2: a run that was not cancelled reports exactly one result, as its last event, and the result it
  returns carries the same status, SIP code, reason, billing and recording. A run that was cancelled
  reports no result at all and bills nothing.
\<close>

theorem run_reports_result_once:
  assumes "run w (CallExecutor c) = Some (Return s)"
  shows "if status (x_result s) = CANCELLED
    then filter result_event (x_emitted s) = [] \<and> billing_seconds (x_result s) = 0 \<and> x_cancelled s
    else filter result_event (x_emitted s) = [last (x_emitted s)]
      \<and> status (last (x_emitted s)) = status (x_result s)
      \<and> sip_code (last (x_emitted s)) = sip_code (x_result s)
      \<and> reason (last (x_emitted s)) = reason (x_result s)
      \<and> billing_seconds (last (x_emitted s)) = billing_seconds (x_result s)
      \<and> recording_path (last (x_emitted s)) = recording_path (x_result s)"
proof -
  from run_from_start [of w c] assms have "returned s" by simp
  then show ?thesis unfolding returned_def
  proof
    assume "finished s"
    with finished_outcome [OF this] finished_results [OF this] show ?thesis
      by (simp add: finished_def matches_def)
  next
    assume "aborted s"
    then show ?thesis using unfinished_results by (auto simp: aborted_def)
  qed
qed

theorem run_reports_result_once_witness:
  "\<exists>s. run unanswered_call (CallExecutor demo_config) = Some (Return s)
     \<and> filter result_event (x_emitted s) = [last (x_emitted s)] \<and> sip_code (last (x_emitted s)) = 487"
proof -
  obtain s where r: "run unanswered_call (CallExecutor demo_config) = Some (Return s)"
      and st: "status (x_result s) = NO_ANSWER" "sip_code (x_result s) = 487"
    by (rule unanswered_run)
  from run_reports_result_once [OF r] st have "filter result_event (x_emitted s) = [last (x_emitted s)]
      \<and> sip_code (last (x_emitted s)) = 487"
    by (simp only: call_status.distinct if_False)
  with r show ?thesis by blast
qed

text \<open>
  The exit code of a finished call is one of the documented ones, 0 (answered), 3 (busy),
  4 (no answer), 5 (failed) or 6 (cancelled), never the internal error 1; 6 means that somebody
  cancelled, and only an answered call is billed.
\<close>

lemma run_exit_code:
  assumes "run w (CallExecutor c) = Some (Return s)"
  shows "statusToExitCode (status (x_result s)) \<in> {0, 3, 4, 5, 6}
    \<and> (statusToExitCode (status (x_result s)) \<noteq> 6 \<or> x_cancelled s)
    \<and> (statusToExitCode (status (x_result s)) = 0 \<or> billing_seconds (x_result s) = 0)"
proof -
  from run_from_start [of w c] assms have "returned s" by simp
  then show ?thesis unfolding returned_def
  proof
    assume "finished s"
    with finished_outcome [OF this] show ?thesis
      by (auto simp: outcome_status_def statusToExitCode_def finished_def)
  next
    assume "aborted s"
    then show ?thesis by (simp add: aborted_def statusToExitCode_def)
  qed
qed

end
