(* ===== verification/Executor_Timing.thy ===== *)
theory Executor_Timing
  imports Executor_Safety
begin

text \<open>
  The executor's rules that depend on time: the arithmetic of the bill, and the answer deadline.
\<close>

section \<open>Billing\<close>

lemma ceiling_div:
  fixes n k :: nat
  assumes "0 < k"
  shows "n \<le> k * ((n + (k - 1)) div k) \<and> k * ((n + (k - 1)) div k) < n + k"
  using mult_div_mod_eq [of k "n + (k - 1)"] mod_less_divisor [OF assms, of "n + (k - 1)"] assms
  by linarith

text \<open>
  Billing is in started seconds: the elapsed milliseconds divided by 1000 and rounded up, without
  overflow for any call shorter than 136 years.
\<close>

lemma billed_seconds:
  assumes "t0 \<le> t1" and "unat t1 - unat t0 = ms" "ms \<le> 4294967295 * 1000"
  shows "let b = unat (ucast ((t1 - t0 + 999) div 1000 :: u64) :: u32) in ms \<le> 1000 * b \<and> 1000 * b < ms + 1000"
proof -
  have e: "unat (t1 - t0) = ms" using assms by (simp add: unat_sub)
  have "unat (t1 - t0 + 999) = ms + 999"
    using e assms(3) by (subst unat_add_lem [THEN iffD1]) simp_all
  then have "unat ((t1 - t0 + 999) div 1000) = (ms + 999) div 1000"
    by (simp add: unat_div)
  moreover have "(ms + 999) div 1000 < 2 ^ 32" using assms(3) by auto
  ultimately have "unat (ucast ((t1 - t0 + 999) div 1000) :: u32) = (ms + 999) div 1000"
    by (subst unat_ucast_64_32) simp_all
  then show ?thesis using ceiling_div [of 1000 ms] by simp
qed

text \<open>
  A call that was never connected is never billed, and its status is decided by the SIP code alone.
\<close>

lemma unanswered_outcome:
  assumes "x_call_connected_ms s = 0"
  shows "let s' = handleDisconnect w code why s in billing_seconds (x_result s') = 0
    \<and> status (x_result s') = sipCodeToCallStatus code \<and> x_tick s' = x_tick s
    \<and> x_emitted s' = x_emitted s @ (if recording_path (x_result s) = [] then []
        else [AgentEvent RECORDING_READY (callId s) (recording_path (x_result s)) 0 0 ''''])
      @ [(AgentEvent (sipCodeToCallStatus code) (callId s) (recording_path (x_result s)) 0 code why)
          \<lparr>is_result := True\<rparr>]"
  using assms by (simp add: handleDisconnect_def reads updates stopRecorder_def)

section \<open>The answer deadline\<close>

text \<open>
  Once the executor has given up waiting for the answer, the end of the call is reported as no
  answer, exit code 4 and code 487, whatever code PJSIP gives for it (it records the local hang-up of
  an early call as 603, which would otherwise count as busy), and nothing is billed.
\<close>

lemma answer_timeout_is_no_answer:
  assumes "x_answer_timeout_hit s" and "x_call_connected_ms s = 0" and "is_disconnect ev"
  shows "\<exists>s'. answer_event w ev s = Some (Stop (Return s')) \<and> status (x_result s') = NO_ANSWER
    \<and> statusToExitCode (status (x_result s')) = 4 \<and> sip_code (x_result s') = 487
    \<and> reason (x_result s') = ''answer timeout'' \<and> billing_seconds (x_result s') = 0"
  using assms
  by (simp add: answer_event_def is_disconnect_def inv_state_defs handleDisconnect_def reads updates
      sipCodeToCallStatus_def statusToExitCode_def)

end
