(* ===== verification/Executor_Answer.thy ===== *)
theory Executor_Answer
  imports Executor_Invariants
begin

text \<open>
  The moment of the answer. The wait for the answer passes through rounds; in one of them it takes a
  \<open>CONFIRMED\<close> out of the queue, and its next interaction is the clock reading that becomes the connect time.
  Every later state of the run still holds a reading taken at such a moment.
\<close>

section \<open>The rounds of the wait for the answer\<close>

definition confirmed :: "internal_event \<Rightarrow> bool" where
  "confirmed ev \<longleftrightarrow> ev_type ev = CALL_STATE \<and> ev_call_state ev = INV_STATE_CONFIRMED"

text \<open>The run of configuration \<open>c\<close> reaches a round of the wait for the answer that begins in \<open>r\<close>.\<close>

definition waits_from :: "env \<Rightarrow> config \<Rightarrow> exec \<Rightarrow> bool" where
  "waits_from w c r \<longleftrightarrow> (\<exists>s0 s1. run_setup w (CallExecutor c) = Some (Next s0) \<and> step_dial w s0 = Some (Next s1)
     \<and> makes_round (answer_round w) (start_waiting w s1) r)"

text \<open>In one of these rounds the executor takes out a \<open>CONFIRMED\<close>; its next interaction is the n-th.\<close>

definition answered_at :: "env \<Rightarrow> config \<Rightarrow> nat \<Rightarrow> bool" where
  "answered_at w c n \<longleftrightarrow> (\<exists>r s ev. waits_from w c r \<and> waits_in w r s \<and> fst (waitFor w 500 s) = Some ev
     \<and> confirmed ev \<and> n = Suc (x_tick s))"

definition connected :: "env \<Rightarrow> config \<Rightarrow> exec \<Rightarrow> bool" where
  "connected w c s \<longleftrightarrow> (x_answered s \<or> x_call_connected_ms s > 0
     \<longrightarrow> (\<exists>j < x_tick s. answered_at w c j \<and> clock w j = x_call_connected_ms s))"

text \<open>When an answered call is reported, the reading for its end came after the one at the answer.\<close>

definition connected_before :: "env \<Rightarrow> config \<Rightarrow> exec \<Rightarrow> bool" where
  "connected_before w c s \<longleftrightarrow> connected w c s \<and> (status (x_result s) = ANSWERED \<and> x_call_connected_ms s > 0
     \<longrightarrow> (\<exists>j. Suc j < x_tick s \<and> answered_at w c j \<and> clock w j = x_call_connected_ms s))"

text \<open>An invariant of a run holds at the start of these rounds; and none begins with both flags set.\<close>

context exec_invariant begin

lemma I_waits_from:
  assumes "waits_from w c r" and "I (CallExecutor c)"
  shows "I r"
proof -
  from assms(1) obtain s0 s1 where s: "run_setup w (CallExecutor c) = Some (Next s0)" "step_dial w s0 = Some (Next s1)"
    and r: "makes_round (answer_round w) (start_waiting w s1) r"
    by (auto simp: waits_from_def)
  have "I s0" using run_setup_keeps [OF assms(2)] s(1) by simp
  then have "I s1" using I_place [of "emitState DIALING s0"] s(2) by (simp add: step_dial_def)
  then show ?thesis by (intro I_rounds [OF r] I_start)
qed

end

lemma open_round:
  assumes "\<not> on_call s"
  shows "iter_post (\<lambda>s. \<not> on_call s) (\<lambda>_. True) (\<lambda>_. True) (\<lambda>_. True) (answer_round w s)"
proof -
  let ?K = "\<lambda>s. \<not> on_call s" and ?T = "\<lambda>_ :: exec. True"
  have [simp]: "on_call (tock w s) = on_call s" "on_call (snd (waitFor w t s)) = on_call s" for t s
    by (simp_all add: on_call_def)
  have check: "iter_post ?K ?T ?T ?T (answer_check s)" for s
    by (simp add: answer_check_def on_call_def)
  have dl: "post ?K ?T ?T (deadline_hangup w s)" if "?K s" for s
    using that by (auto simp: deadline_hangup_def reads agent_hangup_def agent_do_def split: attempt.split)
      (simp_all add: on_call_def)
  have net: "post ?K ?T ?T (safety_net w s)" if "?K s" for s
    using that by (simp add: safety_net_def reads)
  have ev: "iter_post ?K ?T ?T ?T (answer_event w ev s)" for ev s
    by (simp add: answer_event_def check reads)
  show ?thesis
    using assms by (auto simp: answer_round_def reads ev
        intro!: iter_post_in_body [OF dl] iter_post_in_body [OF net] split: option.split)
qed

lemma waits_from_open: "waits_from w c r \<Longrightarrow> \<not> on_call r"
  by (auto simp: waits_from_def on_call_def start_waiting_def dest!: rounds_keep [OF _ open_round])

section \<open>The connect time is kept\<close>

lemma connected_grows:
  assumes "connected w c s" and "x_tick s \<le> x_tick s'" "x_answered s' = x_answered s"
    "x_call_connected_ms s' = x_call_connected_ms s"
  shows "connected w c s'"
  using assms by (auto simp: connected_def intro: order_less_le_trans)

lemma connected_agent [simp]: "connected w c (s\<lparr>x_agent := a\<rparr>) = connected w c s"
  by (simp add: connected_def)

lemma connected_do: "connected w c s \<Longrightarrow> post (connected w c) R (connected w c) (agent_do f s)"
  by (cases "f (x_agent s)") (simp_all add: agent_do_def)

lemma connected_disconnect:
  assumes "connected w c s"
  shows "connected_before w c (handleDisconnect w code why s)"
proof -
  have "connected w c (handleDisconnect w code why s)"
    by (rule connected_grows [OF assms]) (simp_all add: handleDisconnect_def reads updates)
  moreover have "\<exists>j. Suc j < x_tick (handleDisconnect w code why s) \<and> answered_at w c j
      \<and> clock w j = x_call_connected_ms s" if "x_call_connected_ms s > 0"
    using assms that by (auto simp: connected_def handleDisconnect_def reads updates)
  ultimately show ?thesis by (auto simp: connected_before_def handleDisconnect_def reads updates)
qed

interpretation connecting: exec_setup "connected w c" "connected_before w c" w for w c
proof unfold_locales
  fix s code why t assume s: "connected w c s"
  show "connected w c (tock w s)" by (rule connected_grows [OF s]) simp_all
  show "connected w c (snd (waitFor w t s))" by (rule connected_grows [OF s]) simp_all
  show "connected_before w c (handleDisconnect w code why s)" by (rule connected_disconnect [OF s])
  show "post (connected w c) (connected_before w c) (connected w c) (agent_do (hangup (pjsip w)) s)"
    by (rule connected_do [OF s])
  show "attempt_post (\<lambda>_ a. connected w c (s\<lparr>x_agent := a\<rparr>)) (\<lambda>a. connected w c (s\<lparr>x_agent := a\<rparr>))
      (init (pjsip w) (x_agent s))"
    using s by (cases "init (pjsip w) (x_agent s)") simp_all
qed (simp_all add: connected_def connected_before_def)

interpretation connecting: exec_overdue "connected w c" "connected_before w c" w for w c
  by unfold_locales (simp_all add: connected_do, simp add: connected_def)

interpretation connecting: exec_talk "connected w c" "connected_before w c" w for w c
proof unfold_locales
  fix s assume s: "connected w c s"
  have "connected w c ((tock w (emitState PLAYING s))\<lparr>x_playback_started_ms := t\<rparr>)" for t
    by (rule connected_grows [OF s]) (simp_all add: updates)
  then show "post (connected w c) (connected_before w c) (connected w c) (step_play w s)"
    by (simp add: step_play_def reads connected_do)
  have "connected w c (s\<lparr>x_files := fs\<rparr>)" for fs using s by (simp add: connected_def)
  then show "post (connected w c) (connected_before w c) (connected w c) (step_record w s)"
    unfolding step_record_def Let_def
    by (intro post_then_do [OF connected_do]) (simp_all add: connected_def)
  show "attempt_post (\<lambda>_ a. connected w c (s\<lparr>x_agent := a\<rparr>)) (\<lambda>a. connected w c (s\<lparr>x_agent := a\<rparr>))
      (getRxLevel (pjsip w) (x_agent s))"
    using s by (cases "getRxLevel (pjsip w) (x_agent s)") simp_all
qed (rule connected_do)

lemma connected_now:
  assumes "waits_from w c r" and "waits_in w r s" "fst (waitFor w 500 s) = Some ev" "confirmed ev"
  shows "connected w c (connect_now w s)"
proof -
  have "answered_at w c (Suc (x_tick s))" using assms by (auto simp: answered_at_def)
  then show ?thesis by (auto simp: connected_def connect_now_def Let_def)
qed

lemma answer_connects:
  assumes "run_setup w (CallExecutor c) = Some (Next s0)" and "step_dial w s0 = Some (Next s1)" and "connected w c s1"
  shows "post (\<lambda>s. connected w c s \<and> on_call s) (connected_before w c) (connected w c)
    (then_do (step_answer w s1) (check_answered w))"
proof (rule connecting.answered_after)
  show "connected w c (start_waiting w s1)"
    using connecting.I_tock [OF assms(3)] by (simp add: connected_def start_waiting_def tock_eq)
  show "connected w c (connect_now w s)"
    if "makes_round (answer_round w) (start_waiting w s1) r" "waits_in w r s" "fst (waitFor w 500 s) = Some ev"
      "ev_type ev = CALL_STATE" "ev_call_state ev = INV_STATE_CONFIRMED" for r s ev
    by (rule connected_now) (use that assms(1,2) in \<open>auto simp: waits_from_def confirmed_def\<close>)
qed

lemma run_connected: "post (connected w c) (connected_before w c) (connected w c) (run w (CallExecutor c))"
proof -
  have init: "connected w c (CallExecutor c)" by (simp add: connected_def CallExecutor_def)
  have dial: "post (connected w c) (connected_before w c) (connected w c) (run_dial w s0)"
    if s0: "connected w c s0" "run_setup w (CallExecutor c) = Some (Next s0)" for s0
  proof -
    have "post (connected w c) (connected_before w c) (connected w c) (step_dial w s0)"
      unfolding step_dial_def by (rule connected_do) (use s0(1) in simp)
    from post_here [OF this] show ?thesis
      unfolding run_dial_def
      by (rule post_then_do) (auto intro: post_mono [OF answer_connects [OF s0(2)]])
  qed
  show ?thesis
    unfolding run_def
    by (rule post_then_do [OF post_here [OF connecting.run_setup_keeps [OF init]]], elim conjE,
        rule post_then_do [OF dial], assumption, assumption,
        rule post_then_do [OF connecting.run_play_keeps], assumption, rule connecting.run_end_keeps)
qed

end
