(* ===== verification/Executor_Liveness.thy ===== *)
theory Executor_Liveness
  imports Executor_Safety Executor_Answer
begin

text \<open>
  When \<open>run()\<close> ends. Cancellation is enough: if the cancel flag is set at any moment, every loop of
  the run ends, whatever PJSIP, the clock and the other threads do. The argument is one measure for
  all loops, the number of interactions left until the flag is set. Without a cancellation nothing
  bounds the wait for the end of the call: when the disconnect never arrives the run never returns.
\<close>

section \<open>Total correctness of blocks\<close>

text \<open>
  A block that ends, in a state where \<open>K\<close> holds; one round of a loop that either stops so or
  continues with \<open>K\<close> and a smaller measure.
\<close>

definition total :: "('s \<Rightarrow> bool) \<Rightarrow> 's flow option \<Rightarrow> bool" where
  "total K m \<longleftrightarrow> returns m \<and> post K K K m"

definition progress :: "('s \<Rightarrow> bool) \<Rightarrow> ('s \<Rightarrow> nat) \<Rightarrow> nat \<Rightarrow> 's iter option \<Rightarrow> bool" where
  "progress K mu bound m \<longleftrightarrow> (\<exists>i. m = Some i \<and>
     (case i of Continue s \<Rightarrow> K s \<and> mu s < bound | Stop f \<Rightarrow> flow_post K K K f))"

lemma total_simps [simp]:
  "total K (Some (Next s)) = K s" "total K (Some (Return s)) = K s" "total K (Some (Throw s)) = K s"
  by (simp_all add: total_def)

lemma progress_simps [simp]:
  "progress K mu b (Some (Continue s)) \<longleftrightarrow> K s \<and> mu s < b"
  "progress K mu b (Some (Stop (Next s))) = K s" "progress K mu b (Some (Stop (Return s))) = K s"
  "progress K mu b (Some (Stop (Throw s))) = K s"
  by (simp_all add: progress_def flow_post_def)

lemma total_then_do: "total K m \<Longrightarrow> (\<And>s. K s \<Longrightarrow> total K (k s)) \<Longrightarrow> total K (then_do m k)"
  unfolding total_def by (blast intro: returns_then_do post_then_do)

lemma progress_in_body:
  assumes "total K m" and "\<And>s. K s \<Longrightarrow> m = Some (Next s) \<Longrightarrow> progress K mu b (k s)"
  shows "progress K mu b (in_body m k)"
proof (cases m)
  case (Some f)
  with assms show ?thesis by (cases f) simp_all
qed (use assms in \<open>simp add: total_def\<close>)

lemma progress_Stop: "total K m \<Longrightarrow> progress K mu b (map_option Stop m)"
  by (auto simp: total_def returns_def progress_def post_def)

lemma progress_post: "progress K mu b m \<Longrightarrow> iter_post K K K K m"
  unfolding progress_def by (elim exE conjE) (simp add: iter_post_def split: iter.split_asm)

lemma total_loop:
  assumes body: "\<And>s. K s \<Longrightarrow> progress K mu (mu s) (body s)" and "K s"
  shows "total K (loop body s)"
  unfolding total_def
proof
  show "returns (loop body s)"
  proof (rule loop_returns [where I = K and m = mu, OF _ \<open>K s\<close>])
    show "\<exists>i. body s = Some i \<and> (\<forall>s'. i = Continue s' \<longrightarrow> K s' \<and> mu s' < mu s)" if "K s" for s
      using body [OF that] by (auto simp: progress_def)
  qed
  show "post K K K (loop body s)"
    using body progress_post \<open>K s\<close> by (metis loop_post)
qed

section \<open>After a cancellation\<close>

definition due :: "env \<Rightarrow> nat \<Rightarrow> exec \<Rightarrow> bool" where
  "due w n s \<longleftrightarrow> CancelStore \<in> set (others w n) \<and> (n < x_tick s \<longrightarrow> x_cancelled s)"

definition left :: "nat \<Rightarrow> exec \<Rightarrow> nat" where
  "left n s = Suc n - x_tick s"

lemma due_stable [simp]:
  "due w n (s\<lparr>x_agent := a\<rparr>) = due w n s" "due w n (s\<lparr>x_result := r\<rparr>) = due w n s"
  "due w n (s\<lparr>x_answer_timeout_hit := b\<rparr>) = due w n s" "due w n (s\<lparr>x_answered := b\<rparr>) = due w n s"
  "due w n (s\<lparr>x_media_active := b\<rparr>) = due w n s" "due w n (s\<lparr>x_call_connected_ms := t\<rparr>) = due w n s"
  "due w n (s\<lparr>x_played := b\<rparr>) = due w n s" "due w n (s\<lparr>x_silent := b\<rparr>) = due w n s"
  "due w n (s\<lparr>x_sd := d\<rparr>) = due w n s" "due w n (s\<lparr>x_reg_start := t\<rparr>) = due w n s"
  "due w n (s\<lparr>x_answer_deadline_ms := t\<rparr>) = due w n s" "due w n (s\<lparr>x_play_at_ms := t\<rparr>) = due w n s"
  "due w n (s\<lparr>x_playback_started_ms := t\<rparr>) = due w n s" "due w n (s\<lparr>x_play_path := p\<rparr>) = due w n s"
  "due w n (s\<lparr>x_files := fs\<rparr>) = due w n s" "due w n (s\<lparr>x_emitted := es\<rparr>) = due w n s"
  "due w n (emitEvent e s) = due w n s" "due w n (emitState st s) = due w n s"
  "due w n (set_status st s) = due w n s" "due w n (set_reason why s) = due w n s"
  "due w n (set_sip_code code s) = due w n s"
  by (simp_all add: due_def updates)

lemma ticks_stable [simp]:
  "x_tick (emitEvent e s) = x_tick s" "x_tick (emitState st s) = x_tick s"
  "x_tick (set_status st s) = x_tick s" "x_tick (set_reason why s) = x_tick s"
  "x_tick (set_sip_code code s) = x_tick s"
  by (simp_all add: updates)

lemma due_tock [simp]: "due w n s \<Longrightarrow> due w n (tock w s)"
  by (auto simp: due_def tock_eq less_Suc_eq)

lemma due_waitFor [simp]: "due w n s \<Longrightarrow> due w n (snd (waitFor w t s))"
  using due_tock [of w n s] by (auto simp: due_def waitFor_def Let_def case_prod_unfold tock_eq)

lemma due_disconnect [simp]: "due w n s \<Longrightarrow> due w n (handleDisconnect w code why s)"
  by (simp add: handleDisconnect_def reads)

lemma due_hangup: "due w n s \<Longrightarrow> total (due w n) (agent_hangup w s)"
  by (cases "hangup (pjsip w) (x_agent s)") (simp_all add: agent_hangup_def agent_do_def)

lemma due_agent_do: "due w n s \<Longrightarrow> total (due w n) (agent_do f s)"
  by (cases "f (x_agent s)") (simp_all add: agent_do_def)

text \<open>Not yet cancelled means that there are interactions left.\<close>

lemma left_less: "due w n s \<Longrightarrow> \<not> x_cancelled (tock w s) \<Longrightarrow> x_tick s < x_tick s' \<Longrightarrow> left n s' < left n s"
  using due_tock [of w n s] by (auto simp: due_def left_def)

lemmas rounds = reads left_less

lemma total_drain: "due w n s \<Longrightarrow> total (due w n) (loop (drain_round w) s)"
  by (rule total_loop [where mu = "left n"]) (auto simp: drain_round_def rounds split: option.split)

lemma total_register: "due w n s \<Longrightarrow> total (due w n) (step_register w s)"
  unfolding step_register_def reads
  by (rule total_loop [where mu = "left n"]) (auto simp: register_round_def rounds split: option.split)

lemma total_delay: "due w n s \<Longrightarrow> total (due w n) (step_delay w s)"
  unfolding step_delay_def
proof (rule total_loop [where mu = "left n"])
  fix s assume s: "due w n s"
  have "left n (tock w (tock w s)) < left n s" if "\<not> x_cancelled (tock w (tock w s))"
    using that s by (intro left_less) auto
  with s show "progress (due w n) (left n) (left n s) (delay_round w s)"
    by (auto simp: delay_round_def reads)
qed simp

lemma total_playback: "due w n s \<Longrightarrow> total (due w n) (step_playback w s)"
  unfolding step_playback_def
  by (rule total_loop [where mu = "left n"])
    (auto simp: play_round_def rounds intro!: progress_Stop total_then_do due_hangup total_drain
      split: option.split)

lemma total_silence: "due w n s \<Longrightarrow> total (due w n) (loop (silence_round w) s)"
  by (rule total_loop [where mu = "left n"])
    (auto simp: silence_round_def rounds split: attempt.split)

lemma total_answer: "due w n s \<Longrightarrow> total (due w n) (step_answer w s)"
  unfolding step_answer_def reads
proof (rule total_loop [where mu = "left n"])
  fix s assume s: "due w n s"
  let ?K = "\<lambda>s'. due w n s' \<and> x_tick s < x_tick s'"
  show "progress (due w n) (left n) (left n s) (answer_round w s)"
  proof (cases "x_cancelled (tock w s)")
    case True
    with s show ?thesis by (simp add: answer_round_def reads)
  next
    case False
    have ev: "progress (due w n) (left n) (left n s) (answer_event w ev s')" if "?K s'" for ev s'
      using that s False by (auto simp: answer_event_def answer_check_def reads left_less)
    have tail: "progress (due w n) (left n) (left n s) (case fst (waitFor w 500 s') of
        None \<Rightarrow> Some (Continue (snd (waitFor w 500 s')))
        | Some ev \<Rightarrow> answer_event w ev (snd (waitFor w 500 s')))" if "?K s'" for s'
      using that s False by (auto simp: left_less intro!: ev split: option.split)
    have dl: "total ?K (deadline_hangup w s')" if "?K s'" for s'
      using that by (cases "hangup (pjsip w) (x_agent (tock w s'))")
        (auto simp: deadline_hangup_def agent_hangup_def agent_do_def reads)
    have net: "total ?K (safety_net w s')" if "?K s'" for s'
      using that by (auto simp: safety_net_def reads)
    have body: "progress (due w n) (left n) (left n s) (in_body m k)"
      if "total ?K m" and "\<And>s'. ?K s' \<Longrightarrow> progress (due w n) (left n) (left n s) (k s')"
      for m :: "exec flow option" and k
    proof (cases m)
      case (Some f)
      with that show ?thesis by (cases f) simp_all
    qed (use that in \<open>simp add: total_def\<close>)
    show ?thesis
      using s False unfolding answer_round_def reads
      by (auto intro!: body dl net tail)
  qed
qed simp

lemma total_check_cancelled: "due w n s \<Longrightarrow> total (due w n) (check_cancelled w s)"
  by (auto simp: check_cancelled_def hang_up_cancelled_def reads intro!: total_then_do due_hangup)

lemma total_setup: "due w n s \<Longrightarrow> total (due w n) (run_setup w s)"
proof -
  assume "due w n s"
  then have "total (due w n) (step_init w s)"
    by (cases "init (pjsip w) (x_agent (set_status FAILED s))") (simp_all add: step_init_def Let_def)
  then show ?thesis
    unfolding run_setup_def
    by (rule total_then_do) (rule total_then_do [OF total_register], auto simp: check_not_placed_def reads)
qed

lemma total_dial: "due w n s \<Longrightarrow> total (due w n) (run_dial w s)"
  unfolding run_dial_def
  by (rule total_then_do, simp add: step_dial_def due_agent_do, rule total_then_do [OF total_answer], assumption)
    (auto simp: check_answered_def reads intro!: total_then_do due_hangup)

lemma total_play: "due w n s \<Longrightarrow> total (due w n) (run_play w s)"
proof -
  assume s: "due w n s"
  have rec: "total (due w n) (step_record w s)"
    unfolding step_record_def Let_def by (rule total_then_do, rule due_agent_do) (simp_all add: s)
  have audio: "due w n (choose_audio w s)" if "due w n s" for s
    using that by (simp add: choose_audio_def Let_def case_prod_unfold)
  have play: "total (due w n) (step_play w s)" if "due w n s" for s
    unfolding step_play_def reads by (rule due_agent_do) (simp add: that)
  have tl: "total (due w n) (check_played w s)" if "due w n s" for s
    using that by (auto simp: check_played_def hang_up_cancelled_def reads intro!: total_then_do due_hangup)
  show ?thesis unfolding run_play_def
    by (rule total_then_do [OF rec], rule total_then_do [OF total_delay [OF audio]], assumption,
        rule total_then_do [OF total_check_cancelled], assumption, rule total_then_do [OF play], assumption,
        rule total_then_do [OF total_playback], assumption, rule tl)
qed

lemma total_end: "due w n s \<Longrightarrow> total (due w n) (run_end w s)"
  unfolding run_end_def step_silence_def step_disconnect_def
  by (rule total_then_do, rule total_then_do [OF total_silence], simp add: silence_setup_def)
    (auto simp: check_silence_def reads intro!: due_hangup total_then_do [OF total_drain])

lemma total_run: "due w n s \<Longrightarrow> total (due w n) (run w s)"
  unfolding run_def
  by (rule total_then_do [OF total_setup], assumption, rule total_then_do [OF total_dial], assumption,
      rule total_then_do [OF total_play], assumption, rule total_end)

section \<open>Without a disconnect\<close>

definition no_cancel :: "env \<Rightarrow> bool" where
  "no_cancel w \<longleftrightarrow> (\<forall>n. CancelStore \<notin> set (others w n) \<union> set (during w n))"

lemma uncancelled_tock: "no_cancel w \<Longrightarrow> x_cancelled (tock w s) = x_cancelled s"
  by (simp add: tock_eq no_cancel_def)

lemma uncancelled_waitFor: "no_cancel w \<Longrightarrow> x_cancelled (snd (waitFor w t s)) = x_cancelled s"
  by (simp add: waitFor_def tock_eq no_cancel_def Let_def case_prod_unfold)

text \<open>Where nobody cancels no run is cancelled: an instance of the executor's interface.\<close>

definition spared :: "env \<Rightarrow> exec \<Rightarrow> bool" where
  "spared w s \<longleftrightarrow> (no_cancel w \<longrightarrow> \<not> x_cancelled s)"

lemma spared_agent [simp]: "spared w (s\<lparr>x_agent := a\<rparr>) = spared w s"
  by (simp add: spared_def)

lemma spared_do: "spared w s \<Longrightarrow> post (spared w) (spared w) (spared w) (agent_do f s)"
  by (cases "f (x_agent s)") (simp_all add: agent_do_def)

lemma spared_play: "spared w s \<Longrightarrow> post (spared w) (spared w) (spared w) (step_play w s)"
  unfolding step_play_def reads by (rule spared_do) (simp add: spared_def uncancelled_tock updates)

lemma spared_record: "spared w s \<Longrightarrow> post (spared w) (spared w) (spared w) (step_record w s)"
  unfolding step_record_def Let_def
  by (rule post_then_do [where M = "spared w"], rule spared_do) (simp_all add: spared_def)

lemma attempt_always: "attempt_post (\<lambda>_ _. True) (\<lambda>_. True) m"
  by (cases m) simp_all

interpretation uncancelled: exec_invariant "spared w" "spared w" w for w
  by unfold_locales (simp_all add: spared_do spared_play spared_record attempt_always,
      simp_all add: spared_def uncancelled_tock uncancelled_waitFor handleDisconnect_def updates reads)

lemma uncancelled_run:
  assumes "no_cancel w" and "run w (CallExecutor c) = Some f"
  shows "\<not> x_cancelled (flow_state f)"
proof -
  have "spared w (CallExecutor c)" by (simp add: spared_def CallExecutor_def)
  from post_flow_state [OF uncancelled.run_keeps [OF this] assms(2)] assms(1) show ?thesis
    by (simp add: spared_def)
qed

section \<open>Phases that time bounds\<close>

text \<open>
  A loop whose round stops once the interactions have passed a bound, and otherwise makes at least
  one interaction.
\<close>

lemma loop_returns_by_tick:
  fixes body :: "exec \<Rightarrow> exec iter option"
  assumes "\<And>s. K s \<Longrightarrow> \<exists>i. body s = Some i
      \<and> (\<forall>s'. i = Continue s' \<longrightarrow> K s' \<and> x_tick s < x_tick s' \<and> x_tick s \<le> n)" and "K s"
  shows "returns (loop body s)"
proof (rule loop_returns [where I = K and m = "left n", OF _ assms(2)])
  show "\<exists>i. body s = Some i \<and> (\<forall>s'. i = Continue s' \<longrightarrow> K s' \<and> left n s' < left n s)" if "K s" for s
    using assms(1) [OF that] by (fastforce simp: left_def)
qed

lemma hangup_queue:
  "attempt_post (\<lambda>_ b. sa_queue b = sa_queue a) (\<lambda>b. sa_queue b = sa_queue a) (hangup lib a)"
  by (simp add: hangup_def libRegisterThread_def pj_do_def)

lemma agent_hangup_cases:
  obtains s' where "agent_hangup w s = Some (Next s')" "agent_step s s'" "sa_queue (x_agent s') = sa_queue (x_agent s)"
  | s' where "agent_hangup w s = Some (Throw s')"
  using agent_identity.inv_hangup [of "x_agent s" _ _ "pjsip w"] hangup_queue [of "x_agent s" "pjsip w"]
  by (cases "hangup (pjsip w) (x_agent s)") (auto simp: agent_hangup_def agent_do_def agent_step_def)

section \<open>Properties\<close>

text \<open>
  C6: cancelling always ends a run: if some thread sets the cancel flag at any moment, \<open>run()\<close>
  returns (or lets an exception of PJSIP out), for every configuration, whatever PJSIP answers, the
  clock reads and the other threads do before and after.
\<close>

theorem cancel_ends_run:
  assumes "CancelStore \<in> set (others w n)"
  shows "\<exists>f. run w (CallExecutor c) = Some f \<and> flow_post (\<lambda>_. False) (\<lambda>s. x_tick s \<le> n \<or> x_cancelled s)
    (\<lambda>s. x_tick s \<le> n \<or> x_cancelled s) f"
proof -
  have "due w n (CallExecutor c)" using assms by (simp add: due_def CallExecutor_def)
  from total_run [OF this] obtain f where f: "run w (CallExecutor c) = Some f" "flow_post (due w n) (due w n) (due w n) f"
    by (auto simp: total_def returns_def post_def)
  with never_falls_through [of w c] show ?thesis
    by (cases f) (auto simp: flow_post_def due_def)
qed

theorem cancel_ends_run_witness:
  "\<exists>f. run (scenario [(3, cancel)]) (CallExecutor demo_config) = Some f"
proof -
  have "CancelStore \<in> set (others (scenario [(3, cancel)]) 3)" by (simp add: scenario_def cancel_def)
  from cancel_ends_run [OF this] show ?thesis by blast
qed

text \<open>
  After it has asked for the hang-up the executor waits without any bound: as long as no callback
  reports the end of the call and nobody cancels, the wait of step 8 never returns, whatever other
  events arrive and however far the clock advances.
\<close>

lemma wait_for_end_is_unbounded:
  assumes "no_cancel w" and "delivers (\<lambda>ev. \<not> is_disconnect ev) w"
    and "\<not> x_cancelled s" and "queued (\<lambda>ev. \<not> is_disconnect ev) s"
  shows "step_disconnect w s = None"
proof -
  let ?P = "\<lambda>ev. \<not> is_disconnect ev"
  have "loop (drain_round w) s = None"
  proof (rule loop_diverges [where I = "\<lambda>s. \<not> x_cancelled s \<and> queued ?P s"])
    fix s assume s: "\<not> x_cancelled s \<and> queued ?P s"
    let ?r = "waitFor w 500 (tock w s)"
    have "queued ?P (snd ?r) \<and> (case fst ?r of None \<Rightarrow> True | Some ev \<Rightarrow> ?P ev)"
      using s by (intro queued_waitFor queued_tock assms) simp
    then show "\<exists>s'. drain_round w s = Some (Continue s') \<and> \<not> x_cancelled s' \<and> queued ?P s'"
      using s by (auto simp: drain_round_def reads uncancelled_tock uncancelled_waitFor assms(1) split: option.splits)
  qed (use assms in simp)
  then show ?thesis by (simp add: step_disconnect_def)
qed

text \<open>
  Once the clock has passed the answer timeout and the ten seconds of grace for good, the waiting for an
  answer that never comes returns, even if PJSIP never reports anything.
\<close>

lemma unanswered_wait_ends:
  assumes late: "\<And>m. n \<le> m \<Longrightarrow> clock w (x_tick s) + ucast (answer_timeout_s (x_config s)) * 1000 + 10000 \<le> clock w m"
    and no_wrap: "clock w (x_tick s) + ucast (answer_timeout_s (x_config s)) * 1000
      \<le> clock w (x_tick s) + ucast (answer_timeout_s (x_config s)) * 1000 + 10000"
    and never: "delivers (\<lambda>ev. \<not> confirmed ev) w"
      "queued (\<lambda>ev. \<not> confirmed ev) s"
  shows "\<exists>f. step_answer w s = Some f"
proof -
  let ?P = "\<lambda>ev. \<not> confirmed ev"
  let ?d = "clock w (x_tick s) + ucast (answer_timeout_s (x_config s)) * 1000"
  let ?K = "\<lambda>s. queued ?P s \<and> \<not> x_answered s \<and> x_answer_deadline_ms s = ?d"
  have "returns (loop (answer_round w) s')" if "?K s'" for s'
  proof (rule loop_returns_by_tick [where K = ?K, OF _ that])
    fix s assume s: "?K s"
    let ?L = "\<lambda>s'. ?K s' \<and> x_tick s < x_tick s'"
    have dl: "\<exists>f. deadline_hangup w s1 = Some f
        \<and> (\<forall>s2. f = Next s2 \<longrightarrow> ?L s2 \<and> (n < x_tick s \<longrightarrow> x_answer_timeout_hit s2))" if "?L s1" for s1
    proof (cases "\<not> x_answer_timeout_hit s1 \<and> ?d \<le> clock w (x_tick s1)")
      case True
      let ?s = "(tock w s1)\<lparr>x_answer_timeout_hit := True\<rparr>"
      have dh: "deadline_hangup w s1 = agent_hangup w ?s"
        using True that by (simp add: deadline_hangup_def reads)
      have q: "queued ?P ?s" using queued_tock [OF never(1), of s1] that by (simp add: queued_def)
      show ?thesis
      proof (rule agent_hangup_cases [of w ?s])
        fix s2 assume "agent_hangup w ?s = Some (Next s2)" "agent_step ?s s2"
          "sa_queue (x_agent s2) = sa_queue (x_agent ?s)"
        with dh q that show ?thesis by (simp add: queued_def agent_step_frame)
      qed (simp add: dh)
    next
      case False
      have "n < x_tick s \<longrightarrow> x_answer_timeout_hit s1"
        using False that late [of "x_tick s1"] no_wrap by auto
      then show ?thesis
        using False that queued_tock [OF never(1), of s1]
        by (cases "x_answer_timeout_hit s1") (simp_all add: deadline_hangup_def reads)
    qed
    have net: "\<exists>f. safety_net w s2 = Some f \<and> (\<forall>s3. f = Next s3 \<longrightarrow> ?L s3 \<and> x_tick s \<le> n)"
      if "?L s2" "n < x_tick s \<longrightarrow> x_answer_timeout_hit s2" for s2
    proof (cases "n < x_tick s")
      case True
      with that late [of "x_tick s2"] show ?thesis by (simp add: safety_net_def reads)
    next
      case False
      with that queued_tock [OF never(1), of s2] show ?thesis by (auto simp: safety_net_def reads)
    qed
    have ev: "\<exists>i. answer_event w ev s3 = Some i \<and> (\<forall>s'. i = Continue s' \<longrightarrow> ?L s')" if "?L s3" "?P ev" for ev s3
      using that by (auto simp: answer_event_def answer_check_def confirmed_def reads queued_def updates)
    have tail: "\<exists>i. (case fst (waitFor w 500 s3) of None \<Rightarrow> Some (Continue (snd (waitFor w 500 s3)))
        | Some ev \<Rightarrow> answer_event w ev (snd (waitFor w 500 s3))) = Some i \<and> (\<forall>s'. i = Continue s' \<longrightarrow> ?L s')"
      if "?L s3" for s3
    proof (cases "fst (waitFor w 500 s3)")
      case (Some e)
      have "?L (snd (waitFor w 500 s3))" and "?P e"
        using queued_waitFor [OF never(1), of s3 500] that Some by simp_all
      from ev [OF this] Some show ?thesis by simp
    qed (use queued_waitFor [OF never(1), of s3 500] that in simp)
    have L: "?L (tock w s)" using s queued_tock [OF never(1)] by simp
    obtain f where f: "deadline_hangup w (tock w s) = Some f"
        "\<And>s2. f = Next s2 \<Longrightarrow> ?L s2 \<and> (n < x_tick s \<longrightarrow> x_answer_timeout_hit s2)"
      using dl [OF L] by blast
    show "\<exists>i. answer_round w s = Some i \<and> (\<forall>s'. i = Continue s' \<longrightarrow> ?K s' \<and> x_tick s < x_tick s' \<and> x_tick s \<le> n)"
    proof (cases f)
      case (Next s2)
      obtain g where g: "safety_net w s2 = Some g" "\<And>s3. g = Next s3 \<Longrightarrow> ?L s3 \<and> x_tick s \<le> n"
        using net f(2) [OF Next] by blast
      then show ?thesis
        using f(1) Next tail by (cases g) (auto simp: answer_round_def reads)
    qed (use f in \<open>auto simp: answer_round_def reads\<close>)
  qed
  moreover have "?K ((tock w (s\<lparr>x_answered := False, x_media_active := False, x_answer_timeout_hit := False\<rparr>))
      \<lparr>x_answer_deadline_ms := ?d\<rparr>)"
    using never(2) queued_tock [OF never(1), of "s\<lparr>x_answered := False, x_media_active := False,
      x_answer_timeout_hit := False\<rparr>"] by (simp add: queued_def)
  ultimately show ?thesis by (simp add: step_answer_def reads returns_def)
qed

text \<open>
  C27: the hard cap on the call's duration is effective while listening for silence: once the clock
  shows 600 seconds since the answer for good, the silence phase returns, whatever the levels are.
\<close>

theorem silence_wait_ends:
  assumes "\<And>m. n \<le> m \<Longrightarrow> 600000 \<le> clock w m - x_call_connected_ms s"
  shows "\<exists>f. loop (silence_round w) (silence_setup s) = Some f"
proof -
  let ?K = "\<lambda>s' :: exec. x_call_connected_ms s' = x_call_connected_ms s"
  have "returns (loop (silence_round w) (silence_setup s))"
  proof (rule loop_returns_by_tick [where K = ?K])
    fix s' assume s': "?K s'"
    have cap: "600000 \<le> clock w (Suc (Suc (Suc (x_tick s')))) - x_call_connected_ms s'" if "n < x_tick s'"
      using assms [of "Suc (Suc (Suc (x_tick s')))"] that s' by simp
    show "\<exists>i. silence_round w s' = Some i
        \<and> (\<forall>s''. i = Continue s'' \<longrightarrow> ?K s'' \<and> x_tick s' < x_tick s'' \<and> x_tick s' \<le> n)"
      using s' cap by (cases "n < x_tick s'")
        (auto simp: silence_round_def reads split: attempt.split)
  qed (simp add: silence_setup_def)
  then show ?thesis by (simp add: returns_def)
qed

theorem silence_wait_ends_witness:
  "\<exists>f. loop (silence_round ((scenario [])\<lparr>clock := \<lambda>n. if n < 50 then of_nat n else 600001\<rparr>))
      (silence_setup ((CallExecutor demo_config)\<lparr>x_call_connected_ms := 1\<rparr>)) = Some f"
  by (rule silence_wait_ends [of 50]) simp

definition bystander :: "internal_event \<Rightarrow> bool" where
  "bystander ev \<longleftrightarrow> \<not> is_disconnect ev \<and> \<not> (ev_type ev = MEDIA_STATE \<and> ev_media_active ev)"

text \<open>
  An answered call whose media never becomes active is not bounded by any timeout: the waiting of step 4
  checks the answer timeout only before the answer and the ten-minute cap not at all.
\<close>

lemma answered_wait_diverges:
  assumes "no_cancel w" and "\<not> x_cancelled s"
    and "delivers bystander w"
    and "queued bystander s"
    and "x_answered s" and "\<not> x_media_active s" and "\<not> x_answer_timeout_hit s"
  shows "loop (answer_round w) s = None"
proof -
  let ?P = bystander
  let ?K = "\<lambda>s. \<not> x_cancelled s \<and> queued ?P s \<and> x_answered s \<and> \<not> x_media_active s \<and> \<not> x_answer_timeout_hit s"
  show ?thesis
  proof (rule loop_diverges [where I = ?K])
    fix s assume s: "?K s"
    then have t: "?K (tock w s)" by (simp add: uncancelled_tock assms(1) queued_tock assms(3))
    have ev: "\<exists>s'. answer_event w ev s1 = Some (Continue s') \<and> ?K s'" if "?K s1" "?P ev" for ev s1
      using that queued_tock [OF assms(3), of "set_status ANSWERED (s1\<lparr>x_answered := True\<rparr>)"]
        uncancelled_tock [OF assms(1), of "set_status ANSWERED (s1\<lparr>x_answered := True\<rparr>)"]
      by (auto simp: answer_event_def answer_check_def bystander_def is_disconnect_def reads queued_def updates setCallStartTime_def)
    let ?r = "waitFor w 500 (tock w s)"
    have r: "?K (snd ?r)" "case fst ?r of None \<Rightarrow> True | Some ev \<Rightarrow> ?P ev"
      using t queued_waitFor [OF assms(3), of "tock w s" 500] by (simp_all add: uncancelled_waitFor assms(1))
    have round: "answer_round w s = (case fst ?r of None \<Rightarrow> Some (Continue (snd ?r)) | Some e \<Rightarrow> answer_event w e (snd ?r))"
      using t by (simp add: answer_round_def deadline_hangup_def safety_net_def reads)
    show "\<exists>s'. answer_round w s = Some (Continue s') \<and> ?K s'"
    proof (cases "fst ?r")
      case None
      with r(1) show ?thesis unfolding round by simp
    next
      case (Some e)
      with r ev [of "snd ?r" e] show ?thesis unfolding round by simp
    qed
  qed (use assms in simp)
qed

end
