(* ===== verification/Executor_Requests.thy ===== *)
theory Executor_Requests
  imports Executor_Rules
begin

text \<open>
  What the calls into the agent leave as it was: the requests of one kind, the queue, the call id and the
  start time of the call. A property of the executor that reads nothing else is kept by each of them.
\<close>

section \<open>What the agent asked for\<close>

text \<open>The requests of one kind, and what an operation leaves as it was.\<close>

definition made :: "(pj_op \<Rightarrow> bool) \<Rightarrow> sip_agent \<Rightarrow> pj_op list" where
  "made P a = filter P (sa_log a)"

fun is_player :: "pj_op \<Rightarrow> bool" where
  "is_player (CreatePlayer p) = True"
| "is_player _ = False"

fun is_recorder :: "pj_op \<Rightarrow> bool" where
  "is_recorder (CreateRecorder p) = True"
| "is_recorder _ = False"

fun is_media :: "pj_op \<Rightarrow> bool" where
  "is_media (CreatePlayer p) = True"
| "is_media (CreateRecorder p) = True"
| "is_media _ = False"

definition untouched :: "(pj_op \<Rightarrow> bool) \<Rightarrow> sip_agent \<Rightarrow> sip_agent \<Rightarrow> bool" where
  "untouched P a b \<longleftrightarrow> made P b = made P a \<and> callStartTime b = callStartTime a \<and> sa_queue b = sa_queue a
     \<and> sa_call_id b = sa_call_id a"

lemma untouched_log [simp]: "\<not> P op \<Longrightarrow> untouched P a (pj_log op b) = untouched P a b"
  by (simp add: untouched_def made_def callStartTime_def pj_log_def)

lemma untouched_fields [simp]:
  "untouched P a a" "untouched P a (b\<lparr>sa_thread_registered := r\<rparr>) = untouched P a b"
  "untouched P a (b\<lparr>sa_ep := r\<rparr>) = untouched P a b" "untouched P a (b\<lparr>sa_account := r\<rparr>) = untouched P a b"
  "untouched P a (b\<lparr>sa_call := r\<rparr>) = untouched P a b" "untouched P a (b\<lparr>sa_recorder := r\<rparr>) = untouched P a b"
  "untouched P a (b\<lparr>sa_player := r\<rparr>) = untouched P a b"
  by (simp_all add: untouched_def made_def callStartTime_def)

lemma untouched_operations:
  assumes P: "\<And>op. P op \<Longrightarrow> is_media op"
  shows "attempt_post (\<lambda>_. untouched P a) (untouched P a) (init lib a)"
    and "attempt_post (\<lambda>_. untouched P a) (untouched P a) (placeCall lib a)"
    and "attempt_post (\<lambda>_. untouched P a) (untouched P a) (hangup lib a)"
    and "attempt_post (\<lambda>_. untouched P a) (untouched P a) (getRxLevel lib a)"
    and "untouched P a (stopRecorder a)"
proof -
  have [simp]: "\<not> P op" if "\<not> is_media op" for op using P that by blast
  show "attempt_post (\<lambda>_. untouched P a) (untouched P a) (init lib a)"
    by (simp add: init_def pj_do_def Let_def)
  show "attempt_post (\<lambda>_. untouched P a) (untouched P a) (placeCall lib a)"
    by (simp add: placeCall_def libRegisterThread_def pj_do_def drop_call_def)
  show "attempt_post (\<lambda>_. untouched P a) (untouched P a) (hangup lib a)"
    by (simp add: hangup_def libRegisterThread_def pj_do_def)
  show "attempt_post (\<lambda>_. untouched P a) (untouched P a) (getRxLevel lib a)"
    by (simp add: getRxLevel_def libRegisterThread_def pj_do_def)
  show "untouched P a (stopRecorder a)" by (simp add: stopRecorder_def)
qed

lemma untouched_recorder:
  assumes "\<And>op. P op \<Longrightarrow> is_player op"
  shows "attempt_post (\<lambda>_. untouched P a) (untouched P a) (startRecorder lib path a)"
proof -
  have [simp]: "\<not> P op" if "\<not> is_player op" for op using assms that by blast
  show ?thesis by (simp add: startRecorder_def libRegisterThread_def pj_do_def stopRecorder_def)
qed

lemma untouched_player:
  assumes "\<And>op. P op \<Longrightarrow> is_recorder op"
  shows "attempt_post (\<lambda>_. untouched P a) (untouched P a) (startPlayer lib path a)"
proof -
  have [simp]: "\<not> P op" if "\<not> is_recorder op" for op using assms that by blast
  show ?thesis by (simp add: startPlayer_def libRegisterThread_def pj_do_def drop_player_def)
qed

lemma made_acts [simp]: "made P (fold agent_act ts a) = made P a" "made P (snd (waitEvent (fold agent_act ts) a)) = made P a"
  "callStartTime (fold agent_act ts a) = callStartTime a"
  "callStartTime (snd (waitEvent (fold agent_act ts) a)) = callStartTime a"
  "made P (setCallStartTime t a) = made P a" "callStartTime (setCallStartTime t a) = t"
  by (simp_all add: made_def callStartTime_def setCallStartTime_def)

lemma start_time_kept [simp]: "callStartTime (stopRecorder a) = callStartTime a"
  using untouched_operations(5) [of "\<lambda>_. False" a] by (simp add: untouched_def)

text \<open>A property of the executor that an untouched agent keeps, every call into the agent keeps.\<close>

lemma untouched_attempt:
  assumes "attempt_post (\<lambda>_. untouched P a) (untouched P a) m" and "\<And>b. untouched P a b \<Longrightarrow> Q b"
  shows "attempt_post (\<lambda>_. Q) Q m"
  using assms by (cases m) simp_all

lemma untouched_do:
  assumes "attempt_post (\<lambda>_. untouched P (x_agent s)) (untouched P (x_agent s)) (f (x_agent s))"
    and "\<And>a. untouched P (x_agent s) a \<Longrightarrow> I (s\<lparr>x_agent := a\<rparr>)"
  shows "post I R I (agent_do f s)"
  using assms by (cases "f (x_agent s)") (simp_all add: agent_do_def)

lemma untouched_keeps:
  assumes P: "\<And>op. P op \<Longrightarrow> is_media op" and I: "\<And>a. untouched P (x_agent s) a \<Longrightarrow> I (s\<lparr>x_agent := a\<rparr>)"
  shows "post I R I (agent_do (hangup lib) s)" "post I R I (agent_do (placeCall lib) s)"
    "attempt_post (\<lambda>_ a. I (s\<lparr>x_agent := a\<rparr>)) (\<lambda>a. I (s\<lparr>x_agent := a\<rparr>)) (init lib (x_agent s))"
    "attempt_post (\<lambda>_ a. I (s\<lparr>x_agent := a\<rparr>)) (\<lambda>a. I (s\<lparr>x_agent := a\<rparr>)) (getRxLevel lib (x_agent s))"
  by (rule untouched_do [where P = P], rule untouched_operations, erule P, erule I)+
    (rule untouched_attempt [where P = P], rule untouched_operations, erule P, erule I)+

lemma untouched_keeps_recorder:
  assumes P: "\<And>op. P op \<Longrightarrow> is_player op"
    and I: "\<And>a fs. untouched P (x_agent s) a \<Longrightarrow> I (s\<lparr>x_files := fs, x_agent := a\<rparr>)"
    and path: "\<And>s p. I s \<Longrightarrow> I (s\<lparr>x_result := (x_result s)\<lparr>recording_path := p\<rparr>\<rparr>)"
  shows "post I R I (step_record w s)"
  unfolding step_record_def Let_def
proof (rule post_then_do)
  let ?s = "s\<lparr>x_files := x_files s @ [Mkdir (record_dir (x_config s))]\<rparr>"
  have "I (?s\<lparr>x_agent := a\<rparr>)" if "untouched P (x_agent s) a" for a
    using I [OF that, of "x_files s @ [Mkdir (record_dir (x_config s))]"] by simp
  then show "post I R I (agent_do (startRecorder (pjsip w) (recording_file ?s)) ?s)"
    by (intro untouched_do [where P = P] untouched_recorder) (simp_all add: P)
qed (simp add: path)

end
