(* ===== verification/Executor_Outcome.thy ===== *)
theory Executor_Outcome
  imports Executor_Timing Executor_Liveness Executor_Requests
begin

text \<open>
  What a whole run amounts to, as instances of the executor's interface: what it bills, when it starts
  to play, and what remains undone when the call is never answered.
\<close>

section \<open>Billing\<close>

text \<open>
  While the run goes on nothing is billed, and the connect time of executor and agent is the same. The bill
  of an answered call is made out by \<open>handleDisconnect\<close>, from the connect time to its own reading of the
  clock, which is the last interaction of the run.
\<close>

definition unbilled :: "exec \<Rightarrow> bool" where
  "unbilled s \<longleftrightarrow> billing_seconds (x_result s) = 0 \<and> callStartTime (x_agent s) = x_call_connected_ms s"

definition ended_in :: "env \<Rightarrow> exec \<Rightarrow> exec \<Rightarrow> bool" where
  "ended_in w s' s \<longleftrightarrow> s = handleDisconnect w (sip_code (x_result s)) (reason (x_result s)) s'"

definition billed :: "env \<Rightarrow> exec \<Rightarrow> bool" where
  "billed w s \<longleftrightarrow> callStartTime (x_agent s) = x_call_connected_ms s
     \<and> (if status (x_result s) = ANSWERED \<and> callStartTime (x_agent s) > 0
        then \<exists>s'. ended_in w s' s \<and> x_tick s = Suc (x_tick s')
          \<and> billing_seconds (x_result s) = ucast ((clock w (x_tick s') - callStartTime (x_agent s) + 999) div 1000)
        else billing_seconds (x_result s) = 0)"

lemma unbilled_untouched: "unbilled s \<Longrightarrow> untouched P (x_agent s) a \<Longrightarrow> unbilled (s\<lparr>x_agent := a\<rparr>)"
  by (simp add: unbilled_def untouched_def)

lemma disconnect_result:
  "status (x_result (handleDisconnect w code why s)) = (if x_call_connected_ms s > 0 then ANSWERED else sipCodeToCallStatus code)"
  "sip_code (x_result (handleDisconnect w code why s)) = code" "reason (x_result (handleDisconnect w code why s)) = why"
  "x_answer_timeout_hit (handleDisconnect w code why s) = x_answer_timeout_hit s"
  by (simp_all add: handleDisconnect_def reads updates)

lemma ended_in_disconnect: "ended_in w s (handleDisconnect w code why s)"
  by (simp only: ended_in_def disconnect_result)

lemma disconnect_bills:
  assumes "unbilled s"
  shows "billed w (handleDisconnect w code why s)"
proof (cases "x_call_connected_ms s > 0")
  case True
  let ?s' = "handleDisconnect w code why s"
  from True assms have "x_tick ?s' = Suc (x_tick s) \<and> callStartTime (x_agent ?s') = x_call_connected_ms s
      \<and> x_call_connected_ms ?s' = x_call_connected_ms s \<and> status (x_result ?s') = ANSWERED
      \<and> billing_seconds (x_result ?s') = ucast ((clock w (x_tick s) - x_call_connected_ms s + 999) div 1000)"
    by (simp add: unbilled_def handleDisconnect_def reads updates tock_eq)
  with True ended_in_disconnect show ?thesis unfolding billed_def by metis
next
  case False
  then show ?thesis using assms by (simp add: billed_def unbilled_def handleDisconnect_def reads updates)
qed

lemma unbilled_play:
  assumes "unbilled s"
  shows "post unbilled R unbilled (step_play w s)"
  unfolding step_play_def reads
  by (rule untouched_do [where P = "\<lambda>_. False"], rule untouched_player, simp)
    (rule unbilled_untouched, use assms in \<open>simp_all add: unbilled_def updates tock_eq\<close>)

interpretation billing: exec_invariant unbilled "billed w" w for w
proof unfold_locales
  fix s path code why ev s' now a t
  assume u: "unbilled s"
  note keeps = untouched_keeps [of "\<lambda>_. False" s unbilled, OF _ unbilled_untouched [OF u]]
  have hang: "post unbilled (billed w) unbilled (agent_do (hangup (pjsip w)) s)" by (rule keeps) simp
  show "post unbilled (billed w) unbilled (agent_do (hangup (pjsip w)) s)"
    and "post unbilled (billed w) unbilled (agent_do (hangup (pjsip w)) s)"
    and "post unbilled (billed w) unbilled (agent_do (hangup (pjsip w)) s)" by (rule hang)+
  show "post unbilled (billed w) unbilled (agent_do (placeCall (pjsip w)) s)" by (rule keeps) simp
  show "post unbilled (billed w) unbilled (step_record w s)"
    by (rule untouched_keeps_recorder [of "\<lambda>_. False"]) (use u in \<open>simp_all add: unbilled_def untouched_def\<close>)
  show "post unbilled (billed w) unbilled (step_play w s)" by (rule unbilled_play [OF u])
  show "attempt_post (\<lambda>_ a. unbilled (s\<lparr>x_agent := a\<rparr>)) (\<lambda>a. unbilled (s\<lparr>x_agent := a\<rparr>)) (init (pjsip w) (x_agent s))"
    by (rule keeps) simp
  show "attempt_post (\<lambda>_ a. unbilled (s\<lparr>x_agent := a\<rparr>)) (\<lambda>a. unbilled (s\<lparr>x_agent := a\<rparr>)) (getRxLevel (pjsip w) (x_agent s))"
    by (rule keeps) simp
  show "billed w (handleDisconnect w code why s)" by (rule disconnect_bills [OF u])
  show "unbilled (tock w s)" using u by (simp add: unbilled_def tock_eq)
  show "unbilled (snd (waitFor w t s))" using u by (simp add: unbilled_def waitFor_def reads tock_eq)
qed (simp_all add: unbilled_def billed_def)

text \<open>The clock of the scenarios does not wrap in the first hundred readings.\<close>

lemma answered_clock: "i < 100 \<Longrightarrow> unat (clock answered_call i) = 3000 * i"
  by (simp add: answered_call_def scenario_def take_bit_nat_eq_self unsigned_of_nat del: of_nat_mult)

text \<open>
  C5: a run that reports an answered call bills exactly its started seconds, the milliseconds divided by 1000
  and rounded up. They count from a clock reading the executor took right after it had taken a \<open>CONFIRMED\<close>
  out of the queue, which the agent keeps as the start time of the call, to the reading with which
  \<open>handleDisconnect\<close> ended the run, its last interaction. The clock is assumed not to go back during the run,
  and the run to take less than 136 years, so that nothing overflows. Every other run bills nothing, also one
  whose answered call was cancelled and one that ended with code 200 before it was connected; and so does
  a call answered at clock reading 0, which the code takes for not connected.
\<close>

theorem run_billing:
  assumes "run w (CallExecutor c) = Some (Return s)"
    and monotone: "\<And>i j. i \<le> j \<Longrightarrow> j < x_tick s \<Longrightarrow> clock w i \<le> clock w j"
    and short: "\<And>i j. j < x_tick s \<Longrightarrow> unat (clock w j) - unat (clock w i) \<le> 4294967295 * 1000"
  shows "if status (x_result s) = ANSWERED \<and> callStartTime (x_agent s) > 0
    then \<exists>j s'. answered_at w c j \<and> clock w j = callStartTime (x_agent s)
      \<and> ended_in w s' s \<and> j < x_tick s' \<and> x_tick s = Suc (x_tick s')
      \<and> (let ms = unat (clock w (x_tick s')) - unat (clock w j); b = unat (billing_seconds (x_result s))
         in ms \<le> 1000 * b \<and> 1000 * b < ms + 1000)
    else billing_seconds (x_result s) = 0"
proof -
  have "unbilled (CallExecutor c)"
    by (simp add: unbilled_def CallExecutor_def SipAgent_def callStartTime_def)
  from billing.run_keeps [OF this, of w] assms(1) have b: "billed w s" by simp
  show ?thesis
  proof (cases "status (x_result s) = ANSWERED \<and> callStartTime (x_agent s) > 0")
    case True
    with b obtain s' where s': "ended_in w s' s" "x_tick s = Suc (x_tick s')"
      and bill: "billing_seconds (x_result s) = ucast ((clock w (x_tick s') - callStartTime (x_agent s) + 999) div 1000)"
      unfolding billed_def by auto
    obtain j where j: "j < x_tick s'" "answered_at w c j" "clock w j = callStartTime (x_agent s)"
      using run_connected [of w c] assms(1) True b s'(2) by (auto simp: connected_before_def billed_def)
    have "unat (clock w (x_tick s')) - unat (clock w j) \<le> 1000 * unat (billing_seconds (x_result s))
        \<and> 1000 * unat (billing_seconds (x_result s)) < unat (clock w (x_tick s')) - unat (clock w j) + 1000"
      using billed_seconds [OF monotone [of j "x_tick s'"] refl short [of "x_tick s'" j]] j s'(2)
      unfolding bill j(3) [symmetric] Let_def by simp
    with s' j show ?thesis unfolding if_P [OF True] Let_def by blast
  qed (use b in \<open>auto simp: billed_def\<close>)
qed

theorem run_billing_witness:
  "\<exists>s j k. run answered_call (CallExecutor demo_config) = Some (Return s) \<and> unat (billing_seconds (x_result s)) = 63
     \<and> answered_at answered_call demo_config j \<and> unat (clock answered_call j) = 24000 \<and> k < x_tick s
     \<and> unat (clock answered_call k) \<le> unat (clock answered_call j) + 63000"
proof (rule answered_run)
  fix s
  assume r: "run answered_call (CallExecutor demo_config) = Some (Return s)" "status (x_result s) = ANSWERED"
    "billing_seconds (x_result s) = 63" "sa_call_start_ms (x_agent s) = 24000" "x_tick s < 100"
  have mono: "clock answered_call i \<le> clock answered_call j" if "i \<le> j" "j < x_tick s" for i j
    using that r(5) by (simp add: word_le_nat_alt answered_clock)
  have short: "unat (clock answered_call j) - unat (clock answered_call i) \<le> 4294967295 * 1000" if "j < x_tick s" for i j
    using that r(5) by (simp add: answered_clock)
  have "status (x_result s) = ANSWERED \<and> callStartTime (x_agent s) > 0" using r(2,4) by (simp add: callStartTime_def)
  from run_billing [OF r(1) mono short, unfolded if_P [OF this] Let_def] obtain j and s' :: exec where
      "answered_at answered_call demo_config j" "clock answered_call j = callStartTime (x_agent s)" "x_tick s = Suc (x_tick s')"
      "unat (clock answered_call (x_tick s')) - unat (clock answered_call j) \<le> 1000 * unat (billing_seconds (x_result s))"
    by auto
  with r(1,3,4) show ?thesis
    by (intro exI [of _ s] exI [of _ j] exI [of _ "x_tick s'"]) (auto simp: callStartTime_def)
qed

section \<open>The start of the playback\<close>

definition steady_clock :: "env \<Rightarrow> nat \<Rightarrow> bool" where
  "steady_clock w n \<longleftrightarrow> (\<forall>j < n. \<forall>i \<le> j. clock w i \<le> clock w j)"

text \<open>
  Up to the answer no player exists; from then on, if one does, the playback started at a reading of
  the clock not before the end of the answer delay.
\<close>

definition unplayed :: "config \<Rightarrow> env \<Rightarrow> exec \<Rightarrow> bool" where
  "unplayed c w s \<longleftrightarrow> x_config s = c \<and> made is_player (x_agent s) = []"

definition timely :: "config \<Rightarrow> env \<Rightarrow> exec \<Rightarrow> bool" where
  "timely c w s \<longleftrightarrow> x_config s = c \<and> x_answered s
     \<and> (made is_player (x_agent s) \<noteq> [] \<longrightarrow> steady_clock w (x_tick s) \<longrightarrow>
        x_call_connected_ms s + ucast (answer_delay_s c) * 1000 \<le> x_playback_started_ms s
        \<and> (\<exists>k < x_tick s. clock w k = x_playback_started_ms s))"

lemma steady_clock_less: "steady_clock w n \<Longrightarrow> m \<le> n \<Longrightarrow> steady_clock w m"
  by (simp add: steady_clock_def)

lemma reading_later: "\<exists>j < m. clock w j = t \<Longrightarrow> m \<le> n \<Longrightarrow> \<exists>j < n. clock w j = t"
  by (blast intro: order_less_le_trans)

lemma unplayed_later:
  assumes "unplayed c w s" and "x_tick s \<le> x_tick s'" "made is_player (x_agent s') = made is_player (x_agent s)"
    "x_config s' = x_config s" "x_answered s' = x_answered s" "x_call_connected_ms s' = x_call_connected_ms s"
  shows "unplayed c w s'"
  using assms by (simp add: unplayed_def)

lemma timely_later:
  assumes "timely c w s" and "x_tick s \<le> x_tick s'" "made is_player (x_agent s') = made is_player (x_agent s)"
    "x_config s' = x_config s" "x_call_connected_ms s' = x_call_connected_ms s"
    "x_playback_started_ms s' = x_playback_started_ms s" "x_answered s' = x_answered s"
  shows "timely c w s'"
  using assms reading_later [of "x_tick s" w _ "x_tick s'"] steady_clock_less [of w "x_tick s'" "x_tick s"]
  by (auto simp: timely_def)

lemma player_is_media: "is_player op \<Longrightarrow> is_media op"
  by (cases op) simp_all

lemma player_kept [simp]: "made is_player (stopRecorder a) = made is_player a"
  using untouched_operations(5) [of is_player a, OF player_is_media] by (simp add: untouched_def)

lemma disconnect_frame:
  "x_tick s \<le> x_tick (handleDisconnect w code why s)" "x_config (handleDisconnect w code why s) = x_config s"
  "made is_player (x_agent (handleDisconnect w code why s)) = made is_player (x_agent s)"
  "x_answered (handleDisconnect w code why s) = x_answered s"
  "x_call_connected_ms (handleDisconnect w code why s) = x_call_connected_ms s"
  "x_playback_started_ms (handleDisconnect w code why s) = x_playback_started_ms s"
  by (simp_all add: handleDisconnect_def reads updates tock_eq)

lemma timely_play:
  assumes "timely c w s" and "delay_over w s"
  shows "post (timely c w) R (timely c w) (step_play w s)"
proof -
  let ?s = "(tock w (emitState PLAYING s))\<lparr>x_playback_started_ms := clock w (x_tick s)\<rparr>"
  obtain k where k: "k < x_tick s" "x_call_connected_ms s + ucast (answer_delay_s (x_config s)) * 1000 \<le> clock w k"
    using assms(2) by (auto simp: delay_over_def)
  have "clock w k \<le> clock w (x_tick s)" if "steady_clock w (Suc (x_tick s))"
    using that k(1) by (simp add: steady_clock_def)
  with k(2) have "x_call_connected_ms s + ucast (answer_delay_s (x_config s)) * 1000 \<le> clock w (x_tick s)"
    if "steady_clock w (Suc (x_tick s))" using that by (blast intro: order_trans)
  then have "timely c w (?s\<lparr>x_agent := a\<rparr>)" for a
    using assms(1) by (auto simp: timely_def updates tock_eq)
  moreover have "step_play w s = agent_do (startPlayer (pjsip w) (x_play_path s)) ?s"
    by (simp add: step_play_def reads updates)
  ultimately show ?thesis
    by (cases "startPlayer (pjsip w) (x_play_path s) (x_agent ?s)") (simp_all add: agent_do_def)
qed

interpretation before_playback: exec_setup "unplayed c w" "unplayed c w" w for c w
proof unfold_locales
  fix s code why t
  assume u: "unplayed c w s"
  have same: "unplayed c w (s\<lparr>x_agent := a\<rparr>)" if "untouched is_player (x_agent s) a" for a
    using u that by (simp add: unplayed_def untouched_def)
  show "unplayed c w (tock w s)" by (rule unplayed_later [OF u]) (simp_all add: tock_eq)
  show "unplayed c w (snd (waitFor w t s))" by (rule unplayed_later [OF u]) (simp_all add: waitFor_def reads tock_eq)
  show "unplayed c w (handleDisconnect w code why s)" by (rule unplayed_later [OF u]) (rule disconnect_frame)+
  show "post (unplayed c w) (unplayed c w) (unplayed c w) (agent_do (hangup (pjsip w)) s)"
    by (rule untouched_keeps [of is_player], erule player_is_media, erule same)
  show "attempt_post (\<lambda>_ a. unplayed c w (s\<lparr>x_agent := a\<rparr>)) (\<lambda>a. unplayed c w (s\<lparr>x_agent := a\<rparr>))
      (init (pjsip w) (x_agent s))"
    by (rule untouched_keeps [of is_player], erule player_is_media, erule same)
qed (simp_all add: unplayed_def)

interpretation before_playback: exec_wait "unplayed c w" "unplayed c w" w for c w
proof unfold_locales
  fix s
  assume u: "unplayed c w s"
  have same: "unplayed c w (s\<lparr>x_agent := a\<rparr>)" if "untouched is_player (x_agent s) a" for a
    using u that by (simp add: unplayed_def untouched_def)
  show "post (unplayed c w) (unplayed c w) (unplayed c w) (agent_do (hangup (pjsip w)) s)"
    by (rule untouched_keeps [of is_player], erule player_is_media, erule same)
qed (auto simp: unplayed_def waitFor_def reads tock_eq)

interpretation playing: exec_talk "timely c w" "timely c w" w for c w
proof unfold_locales
  fix s code why t path
  assume u: "timely c w s"
  have same: "timely c w (s\<lparr>x_agent := a\<rparr>)" if "untouched is_player (x_agent s) a" for a
    using u that by (simp add: timely_def untouched_def)
  show "timely c w (tock w s)" by (rule timely_later [OF u]) (simp_all add: tock_eq)
  show "timely c w (snd (waitFor w t s))" by (rule timely_later [OF u]) (simp_all add: waitFor_def reads tock_eq)
  show "timely c w (handleDisconnect w code why s)" by (rule timely_later [OF u]) (rule disconnect_frame)+
  show "post (timely c w) (timely c w) (timely c w) (agent_do (hangup (pjsip w)) s)"
    and "post (timely c w) (timely c w) (timely c w) (agent_do (hangup (pjsip w)) s)"
    by (rule untouched_keeps [of is_player], erule player_is_media, erule same)+
  show "post (timely c w) (timely c w) (timely c w) (step_record w s)"
    by (rule untouched_keeps_recorder [of is_player]) (use u in \<open>simp_all add: timely_def untouched_def\<close>)
  show "attempt_post (\<lambda>_ a. timely c w (s\<lparr>x_agent := a\<rparr>)) (\<lambda>a. timely c w (s\<lparr>x_agent := a\<rparr>))
      (getRxLevel (pjsip w) (x_agent s))"
    by (rule untouched_keeps [of is_player], erule player_is_media, erule same)
qed (simp_all add: timely_play, simp_all add: timely_def)

text \<open>No player is created up to the answer; after it, whichever way the run ends, the state is timely.\<close>

lemma run_timely: "post (\<lambda>s. unplayed c w s \<or> timely c w s) (\<lambda>s. unplayed c w s \<or> timely c w s)
    (\<lambda>s. unplayed c w s \<or> timely c w s) (run w (CallExecutor c))"
proof -
  let ?Q = "\<lambda>s. unplayed c w s \<or> timely c w s"
  have init: "unplayed c w (CallExecutor c)"
    by (simp add: unplayed_def made_def CallExecutor_def SipAgent_def)
  have dial: "post (unplayed c w) ?Q ?Q (step_dial w s)" if "unplayed c w s" for s
    unfolding step_dial_def
  proof (rule post_mono [where N = "unplayed c w" and R = "unplayed c w" and T = "unplayed c w"])
    have same: "unplayed c w ((emitState DIALING s)\<lparr>x_agent := a\<rparr>)" if "untouched is_player (x_agent (emitState DIALING s)) a" for a
      using that \<open>unplayed c w s\<close> by (simp add: unplayed_def untouched_def updates)
    show "post (unplayed c w) (unplayed c w) (unplayed c w) (agent_do (placeCall (pjsip w)) (emitState DIALING s))"
      by (rule untouched_keeps [of is_player], erule player_is_media, erule same)
  qed simp_all
  have answer: "post (timely c w) ?Q ?Q (then_do (step_answer w s) (check_answered w))" if "unplayed c w s" for s
    by (rule post_mono [OF before_playback.answer_done [OF that]]) (auto simp: on_call_def unplayed_def timely_def)
  have play: "post ?Q ?Q ?Q (then_do (run_play w s) (run_end w))" if "timely c w s" for s
    by (rule post_mono [OF playing.after_answer_keeps [OF that]]) simp_all
  have registered: "post (unplayed c w) ?Q ?Q (run_setup w (CallExecutor c))"
    by (rule post_mono [OF before_playback.run_setup_keeps [OF init]]) simp_all
  have "post (timely c w) ?Q ?Q (run_dial w s)" if "unplayed c w s" for s
    unfolding run_dial_def by (rule post_then_do [OF dial [OF that]]) (rule answer)
  then show ?thesis
    unfolding run_def by (intro post_then_do [OF registered]) (rule post_then_do, assumption, rule play)
qed

text \<open>
  C19: no run plays anything before the answer delay is over: whenever a run created a player, the executor
  noted the start of the playback at a reading of the clock at least \<open>answer_delay_s\<close> seconds after the
  reading it took right after it had taken the answer, a \<open>CONFIRMED\<close>, out of the queue, however the run
  ended. This is under two assumptions on the clock, which the code reads from the system's and not from a
  steady one: it does not go back during the run, and it stays below 2^63 milliseconds.
\<close>

theorem playback_after_delay:
  assumes "run w (CallExecutor c) = Some f" and "CreatePlayer p \<in> set (sa_log (x_agent (flow_state f)))"
    and monotone: "\<And>i j. i \<le> j \<Longrightarrow> j < x_tick (flow_state f) \<Longrightarrow> clock w i \<le> clock w j"
    and range: "\<And>i. i < x_tick (flow_state f) \<Longrightarrow> unat (clock w i) < 2 ^ 63"
  shows "\<exists>j k. answered_at w c j \<and> j < x_tick (flow_state f) \<and> clock w j = x_call_connected_ms (flow_state f)
    \<and> k < x_tick (flow_state f) \<and> clock w k = x_playback_started_ms (flow_state f)
    \<and> unat (clock w j) + 1000 * unat (answer_delay_s c) \<le> unat (clock w k)"
proof -
  let ?s = "flow_state f"
  have "unplayed c w ?s \<or> timely c w ?s" by (rule post_flow_state [OF run_timely assms(1)])
  moreover have p: "made is_player (x_agent ?s) \<noteq> []" using assms(2)
    by (auto simp: made_def filter_empty_conv intro: bexI [of _ "CreatePlayer p"])
  moreover have "steady_clock w (x_tick ?s)" using monotone by (simp add: steady_clock_def)
  ultimately obtain k where k: "x_answered ?s" "k < x_tick ?s"
      "clock w k = x_playback_started_ms ?s" "x_call_connected_ms ?s + ucast (answer_delay_s c) * 1000 \<le> clock w k"
    by (auto simp: unplayed_def timely_def)
  have "connected w c ?s"
    by (rule post_flow_state [OF post_mono [OF run_connected] assms(1)]) (simp_all add: connected_before_def)
  with k(1) obtain j where "answered_at w c j" "j < x_tick ?s" "clock w j = x_call_connected_ms ?s"
    by (auto simp: connected_def)
  with k have jk: "j < x_tick ?s" "clock w j = x_call_connected_ms ?s" "k < x_tick ?s"
      "clock w k = x_playback_started_ms ?s" "clock w j + ucast (answer_delay_s c) * 1000 \<le> clock w k" "answered_at w c j"
    by simp_all
  have d: "unat (answer_delay_s c) < 2 ^ 32" by (rule order_less_le_trans [OF unsigned_less]) simp
  then have "unat (ucast (answer_delay_s c) * 1000 :: u64) = unat (answer_delay_s c) * 1000"
    by (subst unat_mult_lem [THEN iffD1]) (simp_all add: unat_ucast_32_64)
  moreover from this have "unat (clock w j + ucast (answer_delay_s c) * 1000)
      = unat (clock w j) + unat (ucast (answer_delay_s c) * 1000 :: u64)"
    using range [OF jk(1)] d by (intro unat_add_lem [THEN iffD1]) simp
  ultimately have "unat (clock w j) + 1000 * unat (answer_delay_s c) \<le> unat (clock w k)"
    using jk(5) by (simp add: word_le_nat_alt)
  with jk show ?thesis by blast
qed

theorem playback_after_delay_witness:
  "\<exists>s j k. run answered_call (CallExecutor demo_config) = Some (Return s)
     \<and> answered_at answered_call demo_config j \<and> clock answered_call k = x_playback_started_ms s
     \<and> unat (clock answered_call j) + 1000 \<le> unat (clock answered_call k)"
proof (rule answered_run)
  fix s
  assume r: "run answered_call (CallExecutor demo_config) = Some (Return s)" "x_tick s < 100"
    "CreatePlayer ''/a.wav'' \<in> set (sa_log (x_agent s))"
  have "clock answered_call i \<le> clock answered_call j" if "i \<le> j" "j < x_tick s" for i j
    using that r(2) by (simp add: word_le_nat_alt answered_clock)
  moreover have "unat (clock answered_call i) < 2 ^ 63" if "i < x_tick s" for i
    using that r(2) by (simp add: answered_clock)
  ultimately show ?thesis
    using playback_after_delay [OF r(1), of "''/a.wav''"] r by (auto simp: demo_config_simps)
qed

section \<open>Calls that are never answered\<close>

definition never_answered :: "env \<Rightarrow> bool" where
  "never_answered w \<longleftrightarrow> delivers (\<lambda>ev. \<not> confirmed ev) w"

definition ringing :: "env \<Rightarrow> exec \<Rightarrow> bool" where
  "ringing w s \<longleftrightarrow> (never_answered w \<longrightarrow> queued (\<lambda>ev. \<not> confirmed ev) s \<and> \<not> x_answered s
     \<and> x_call_connected_ms s = 0 \<and> billing_seconds (x_result s) = 0 \<and> made is_media (x_agent s) = [])"

definition untalked :: "env \<Rightarrow> exec \<Rightarrow> bool" where
  "untalked w s \<longleftrightarrow> (never_answered w \<longrightarrow> x_call_connected_ms s = 0 \<and> billing_seconds (x_result s) = 0
     \<and> made is_media (x_agent s) = [] \<and> (status (x_result s) = ANSWERED \<longrightarrow> sip_code (x_result s) = 200))"

lemma ringing_untouched: "ringing w s \<Longrightarrow> untouched is_media (x_agent s) a \<Longrightarrow> ringing w (s\<lparr>x_agent := a\<rparr>)"
  by (simp add: ringing_def untouched_def queued_def)

lemma made_media_kept [simp]: "made is_media (stopRecorder a) = made is_media a"
  using untouched_operations(5) [of is_media a] by (simp add: untouched_def)

lemma ringing_disconnect: "ringing w s \<Longrightarrow> untalked w (handleDisconnect w code why s)"
  by (auto simp: ringing_def untalked_def handleDisconnect_def reads updates sipCodeToCallStatus_def)

interpretation ringing: exec_setup "ringing w" "untalked w" w for w
proof unfold_locales
  fix s code why t
  assume r: "ringing w s"
  show "post (ringing w) (untalked w) (ringing w) (agent_do (hangup (pjsip w)) s)"
    by (rule untouched_keeps [of is_media], assumption, erule ringing_untouched [OF r])
  show "attempt_post (\<lambda>_ a. ringing w (s\<lparr>x_agent := a\<rparr>)) (\<lambda>a. ringing w (s\<lparr>x_agent := a\<rparr>)) (init (pjsip w) (x_agent s))"
    by (rule untouched_keeps [of is_media], assumption, erule ringing_untouched [OF r])
  show "ringing w (tock w s)"
    using r queued_tock [of "\<lambda>ev. \<not> confirmed ev" w s] by (auto simp: ringing_def never_answered_def, simp add: tock_eq)
  show "ringing w (snd (waitFor w t s))"
    using r queued_waitFor [of "\<lambda>ev. \<not> confirmed ev" w s t]
    by (auto simp: ringing_def never_answered_def, simp add: waitFor_def reads tock_eq)
qed (simp_all add: ringing_disconnect, simp_all add: ringing_def untalked_def queued_def)

interpretation ringing: exec_wait "ringing w" "untalked w" w for w
proof unfold_locales
  fix s ev s' now a
  assume r: "ringing w s" and ev: "fst (waitFor w 500 s) = Some ev" "ev_type ev = CALL_STATE" "ev_call_state ev = INV_STATE_CONFIRMED"
  have "\<not> never_answered w"
  proof
    assume n: "never_answered w"
    with r have "queued (\<lambda>ev. \<not> confirmed ev) s" by (simp add: ringing_def)
    with queued_waitFor [of "\<lambda>ev. \<not> confirmed ev" w s 500] n ev show False
      by (auto simp: never_answered_def confirmed_def)
  qed
  then show "ringing w s'" for s' by (simp add: ringing_def)
next
  fix s assume r: "ringing w s"
  show "post (ringing w) (untalked w) (ringing w) (agent_do (hangup (pjsip w)) s)"
    by (rule untouched_keeps [of is_media], assumption, erule ringing_untouched [OF r])
qed (simp_all add: ringing_def queued_def)

text \<open>
  C20: a call that the peer never answers leaves no trace but its outcome: if no \<open>CONFIRMED\<close> state is
  ever delivered, then however a run ends nothing was recorded or played, nothing is billed, and the
  outcome is not an answered call, unless the call ended with SIP code 200. The environment is otherwise
  arbitrary.
\<close>

theorem unanswered_call_untouched:
  assumes "run w (CallExecutor c) = Some f" and "never_answered w"
  shows "billing_seconds (x_result (flow_state f)) = 0 \<and> x_call_connected_ms (flow_state f) = 0
    \<and> CreateRecorder path \<notin> set (sa_log (x_agent (flow_state f)))
    \<and> CreatePlayer path \<notin> set (sa_log (x_agent (flow_state f)))
    \<and> (case f of Next s \<Rightarrow> False | Throw s \<Rightarrow> True
       | Return s \<Rightarrow> status (x_result s) = ANSWERED \<longrightarrow> sip_code (x_result s) = 200)"
proof -
  let ?T = "\<lambda>s. ringing w s \<or> untalked w s"
  have init: "ringing w (CallExecutor c)"
    by (simp add: ringing_def queued_def made_def CallExecutor_def SipAgent_def)
  have dial: "post (ringing w) (untalked w) (ringing w) (step_dial w s)" if "ringing w s" for s
  proof -
    have "ringing w (emitState DIALING s)" using that by simp
    from ringing_untouched [OF this] show ?thesis
      unfolding step_dial_def by (intro untouched_keeps [of is_media])
  qed
  have answer: "post (\<lambda>_. False) (untalked w) (ringing w) (then_do (step_answer w s) (check_answered w))" if "ringing w s" for s
    by (rule post_mono [OF ringing.answer_done [OF that]]) (use assms(2) in \<open>auto simp: on_call_def ringing_def\<close>)
  have "post (\<lambda>_. False) (untalked w) (ringing w) (run w (CallExecutor c))"
    unfolding run_def run_dial_def
    by (rule post_then_do [OF ringing.run_setup_keeps [OF init]], rule post_then_do, rule post_then_do [OF dial],
        assumption, rule answer, assumption, simp)
  then have "post (\<lambda>_. False) (untalked w) (ringing w) (Some f)" unfolding assms(1) .
  moreover have "CreateRecorder path \<notin> set (sa_log a) \<and> CreatePlayer path \<notin> set (sa_log a)"
    if "made is_media a = []" for a
    using that by (auto simp: made_def filter_empty_conv)
  ultimately show ?thesis
    using assms(2) by (cases f) (auto simp: ringing_def untalked_def)
qed

theorem unanswered_call_untouched_witness:
  "\<exists>s. run unanswered_call (CallExecutor demo_config) = Some (Return s)
     \<and> CreatePlayer ''/a.wav'' \<notin> set (sa_log (x_agent s)) \<and> billing_seconds (x_result s) = 0"
proof (rule unanswered_run)
  fix s assume r: "run unanswered_call (CallExecutor demo_config) = Some (Return s)"
  have "never_answered unanswered_call"
    by (auto simp: never_answered_def delivers_def confirmed_def pushed_def unanswered_call_def scenario_def
        call_in_def onRegState_def onCallState_def pushEvent_def InternalEvent_def SipAgent_def inv_state_defs
        split: if_splits)
  from unanswered_call_untouched [OF r this, of "''/a.wav''"] r show ?thesis by simp
qed

section \<open>The recording\<close>

text \<open>The one file a run may record to, and the report of it right before the result.\<close>

definition recording_of :: "config \<Rightarrow> string" where
  "recording_of c = record_dir c @ ''/'' @ destination c @ ''@'' @ sip_host c @ ''.wav''"

definition recording :: "config \<Rightarrow> exec \<Rightarrow> bool" where
  "recording c s \<longleftrightarrow> x_config s = c \<and> callId s = destination c @ ''@'' @ sip_host c
     \<and> set (made is_recorder (x_agent s)) \<subseteq> {CreateRecorder (recording_of c)}
     \<and> (recording_path (x_result s) = [] \<or> recording_path (x_result s) = recording_of c \<and> made is_recorder (x_agent s) \<noteq> [])"

definition announced :: "exec \<Rightarrow> agent_event list" where
  "announced s = (if recording_path (x_result s) = [] then []
     else [AgentEvent RECORDING_READY (callId s) (recording_path (x_result s)) (billing_seconds (x_result s)) 0 ''''])"

definition recording_reported :: "config \<Rightarrow> exec \<Rightarrow> bool" where
  "recording_reported c s \<longleftrightarrow> recording c s \<and> (status (x_result s) = ANSWERED \<longrightarrow> \<not> sa_recorder (x_agent s)
     \<and> (\<exists>es e. x_emitted s = es @ announced s @ [e] \<and> is_result e \<and> recording_path e = recording_path (x_result s)))"

lemma recorder_is_media: "is_recorder op \<Longrightarrow> is_media op"
  by (cases op) simp_all

lemma recorder_kept [simp]: "made is_recorder (stopRecorder a) = made is_recorder a" "sa_call_id (stopRecorder a) = sa_call_id a"
  using untouched_operations(5) [of is_recorder a, OF recorder_is_media] by (simp_all add: untouched_def)

lemma recording_later:
  assumes "recording c s" and "made is_recorder (x_agent s') = made is_recorder (x_agent s)" "callId s' = callId s"
    "x_config s' = x_config s" "recording_path (x_result s') = recording_path (x_result s)"
  shows "recording c s'"
  using assms by (simp add: recording_def)

lemma recorder_path: "recording c s \<Longrightarrow> recording_file s = recording_of c"
  by (simp add: recording_def recording_file_def recording_of_def)

lemma recording_untouched: "recording c s \<Longrightarrow> untouched is_recorder (x_agent s) a \<Longrightarrow> recording c (s\<lparr>x_agent := a\<rparr>)"
  by (erule recording_later) (simp_all add: untouched_def)

lemma disconnect_recording:
  "callId (handleDisconnect w code why s) = callId s"
  "recording_path (x_result (handleDisconnect w code why s)) = recording_path (x_result s)"
  "made is_recorder (x_agent (handleDisconnect w code why s)) = made is_recorder (x_agent s)"
  "\<not> sa_recorder (x_agent (handleDisconnect w code why s))"
  by (simp_all add: handleDisconnect_def reads updates tock_eq) (simp add: stopRecorder_def)

lemma disconnect_announces:
  "\<exists>e. x_emitted (handleDisconnect w code why s) = x_emitted s @ announced (handleDisconnect w code why s) @ [e]
     \<and> is_result e \<and> recording_path e = recording_path (x_result s)"
  unfolding announced_def disconnect_recording
  by (cases "x_call_connected_ms s > 0"; cases "recording_path (x_result s) = []")
    (simp_all add: handleDisconnect_def reads updates tock_eq)

lemma disconnect_reports:
  assumes "recording c s"
  shows "recording_reported c (handleDisconnect w code why s)"
proof -
  have "recording c (handleDisconnect w code why s)"
    by (rule recording_later [OF assms]) (simp_all add: disconnect_recording disconnect_frame)
  with disconnect_announces [of w code why s] show ?thesis
    by (auto simp: recording_reported_def disconnect_recording)
qed

lemma recorder_started:
  "attempt_post (\<lambda>_ b. made is_recorder b = made is_recorder a @ [CreateRecorder path] \<and> sa_call_id b = sa_call_id a)
     (\<lambda>b. set (made is_recorder b) \<subseteq> insert (CreateRecorder path) (set (made is_recorder a))
        \<and> (made is_recorder a \<noteq> [] \<longrightarrow> made is_recorder b \<noteq> []) \<and> sa_call_id b = sa_call_id a)
     (startRecorder lib path a)"
proof -
  have [simp]: "made is_recorder (pj_log op b) = made is_recorder b @ (if is_recorder op then [op] else [])" for op b
    by (simp add: made_def)
  have [simp]: "made is_recorder (b\<lparr>sa_thread_registered := r\<rparr>) = made is_recorder b"
    "made is_recorder (b\<lparr>sa_recorder := r\<rparr>) = made is_recorder b" for b r by (simp_all add: made_def)
  show ?thesis
    by (simp add: startRecorder_def libRegisterThread_def pj_do_def) (auto simp: stopRecorder_def)
qed

lemma recording_step:
  assumes "recording c s"
  shows "post (recording c) R (recording c) (step_record w s)"
proof -
  let ?s = "s\<lparr>x_files := x_files s @ [Mkdir (record_dir (x_config s))]\<rparr>"
  have "recording_file ?s = recording_of c" using recorder_path [OF assms] by (simp add: recording_file_def)
  moreover note recorder_started [of "x_agent s" "recording_of c" "pjsip w"]
  ultimately show ?thesis
    using assms
    by (cases "startRecorder (pjsip w) (recording_of c) (x_agent s)")
      (auto simp: step_record_def agent_do_def recording_def Let_def)
qed

interpretation recordings: exec_invariant "recording c" "recording_reported c" w for c w
proof unfold_locales
  fix s code why t
  assume r: "recording c s"
  show "recording c (tock w s)" by (rule recording_later [OF r]) (simp_all add: tock_eq)
  show "recording c (snd (waitFor w t s))" by (rule recording_later [OF r]) (simp_all add: waitFor_def reads tock_eq)
  show "recording_reported c (handleDisconnect w code why s)" by (rule disconnect_reports [OF r])
  show "post (recording c) (recording_reported c) (recording c) (agent_do (hangup (pjsip w)) s)"
    and "post (recording c) (recording_reported c) (recording c) (agent_do (hangup (pjsip w)) s)"
    and "post (recording c) (recording_reported c) (recording c) (agent_do (hangup (pjsip w)) s)"
    by (rule untouched_keeps [of is_recorder], erule recorder_is_media, erule recording_untouched [OF r])+
  show "post (recording c) (recording_reported c) (recording c) (agent_do (placeCall (pjsip w)) s)"
    by (rule untouched_keeps [of is_recorder], erule recorder_is_media, erule recording_untouched [OF r])
  show "attempt_post (\<lambda>_ a. recording c (s\<lparr>x_agent := a\<rparr>)) (\<lambda>a. recording c (s\<lparr>x_agent := a\<rparr>)) (init (pjsip w) (x_agent s))"
    by (rule untouched_keeps [of is_recorder], erule recorder_is_media, erule recording_untouched [OF r])
  show "attempt_post (\<lambda>_ a. recording c (s\<lparr>x_agent := a\<rparr>)) (\<lambda>a. recording c (s\<lparr>x_agent := a\<rparr>)) (getRxLevel (pjsip w) (x_agent s))"
    by (rule untouched_keeps [of is_recorder], erule recorder_is_media, erule recording_untouched [OF r])
  show "post (recording c) (recording_reported c) (recording c) (step_record w s)" by (rule recording_step [OF r])
  have "recording c ((tock w (emitState PLAYING s))\<lparr>x_playback_started_ms := k\<rparr>)" for k
    by (rule recording_later [OF r]) (simp_all add: tock_eq updates)
  then show "post (recording c) (recording_reported c) (recording c) (step_play w s)"
    unfolding step_play_def reads
    by (intro untouched_do [where P = is_recorder] untouched_player recording_untouched)
next
  fix s ev s' now a
  assume r: "recording c s" and s': "s' = snd (waitFor w 500 s)" and a: "a = setCallStartTime now (x_agent (tock w s'))"
  show "recording c ((tock w s')\<lparr>x_answered := True, x_call_connected_ms := now, x_agent := a\<rparr>)"
    by (rule recording_later [OF r]) (simp_all add: s' a tock_eq waitFor_def reads, simp_all add: setCallStartTime_def)
qed (simp_all add: recording_def recording_reported_def)

text \<open>
  C18: what a run records and reports of it: the only file it ever has PJSIP record to is the one named after
  the call in the recording directory, the result names it only if the recorder was created, and a run that
  reports an answered call has closed the recorder and announced the recording, if there is one, right
  before the result, with the duration that is billed.
\<close>

theorem run_recording:
  assumes "run w (CallExecutor c) = Some f"
  shows "(CreateRecorder p \<in> set (sa_log (x_agent (flow_state f))) \<longrightarrow> p = recording_of c)
    \<and> (recording_path (x_result (flow_state f)) = [] \<or> recording_path (x_result (flow_state f)) = recording_of c
        \<and> CreateRecorder (recording_of c) \<in> set (sa_log (x_agent (flow_state f))))
    \<and> (case f of Return s \<Rightarrow> status (x_result s) = ANSWERED \<longrightarrow> \<not> sa_recorder (x_agent s)
          \<and> (\<exists>es e. x_emitted s = es @ announced s @ [e] \<and> is_result e \<and> recording_path e = recording_path (x_result s))
       | _ \<Rightarrow> True)"
proof -
  have "recording c (CallExecutor c)"
    by (simp add: recording_def made_def CallExecutor_def SipAgent_def)
  then have "post (recording c) (recording_reported c) (recording c) (Some f)"
    unfolding assms [symmetric] by (rule recordings.run_keeps)
  then have "recording c (flow_state f)" "case f of Return s \<Rightarrow> recording_reported c s | _ \<Rightarrow> True"
    by (cases f; simp add: recording_reported_def)+
  moreover have "CreateRecorder p \<in> set (made is_recorder a) \<longleftrightarrow> CreateRecorder p \<in> set (sa_log a)" for p a
    by (simp add: made_def)
  moreover have "CreateRecorder (recording_of c) \<in> set (made is_recorder a)"
    if "set (made is_recorder a) \<subseteq> {CreateRecorder (recording_of c)}" "made is_recorder a \<noteq> []" for a
    using that by (cases "made is_recorder a") auto
  ultimately show ?thesis
    by (cases f) (auto simp: recording_def recording_reported_def)
qed

theorem run_recording_witness:
  "\<exists>s es e. run answered_call (CallExecutor demo_config) = Some (Return s)
     \<and> x_emitted s = es @ announced s @ [e] \<and> recording_path e = recording_path (x_result s)"
proof (rule answered_run)
  fix s assume r: "run answered_call (CallExecutor demo_config) = Some (Return s)" "status (x_result s) = ANSWERED"
  from run_recording [OF r(1), of "''''"] r show ?thesis by auto
qed

end
