(* ===== verification/Executor_Agent.thy ===== *)
theory Executor_Agent
  imports Executor_Safety Executor_Requests
begin

text \<open>
  What a run asks of PJSIP, for every environment: the thread discipline of the library (nothing but
  the initialisation before the executor's thread is registered) and the single call of an executor.
  Both are invariants of the agent's log, carried through \<open>run()\<close> by the locales of
  \<open>Executor_Rules\<close>.
\<close>

section \<open>Thread registration\<close>

abbreviation executor_thread :: pj_op where
  "executor_thread \<equiv> LibRegisterThread ''pjcppagent-executor''"

fun setup_op :: "pj_op \<Rightarrow> bool" where
  "setup_op LibCreate = True"
| "setup_op (LibInit _ _ _) = True"
| "setup_op TransportCreateUdp = True"
| "setup_op LibStart = True"
| "setup_op SetNullDev = True"
| "setup_op (AccountCreate _ _ _ _) = True"
| "setup_op _ = False"

text \<open>Some registration of the thread in the log did not throw; every other use of PJSIP comes later.\<close>

definition registered_in :: "pj \<Rightarrow> pj_op list \<Rightarrow> bool" where
  "registered_in lib log \<longleftrightarrow>
     (\<exists>i < length log. log ! i = executor_thread \<and> \<not> pj_fails lib (take i log) executor_thread)"

definition disciplined :: "pj \<Rightarrow> pj_op list \<Rightarrow> bool" where
  "disciplined lib log \<longleftrightarrow>
     (\<forall>i < length log. setup_op (log ! i) \<or> log ! i = executor_thread \<or> registered_in lib (take i log))"

lemma registered_in_Nil [simp]: "\<not> registered_in lib []"
  by (simp add: registered_in_def)

lemma disciplined_Nil [simp]: "disciplined lib []"
  by (simp add: disciplined_def)

lemma registered_in_snoc [simp]: "registered_in lib (log @ [op]) \<longleftrightarrow>
    registered_in lib log \<or> op = executor_thread \<and> \<not> pj_fails lib log executor_thread"
proof -
  have "(\<exists>i < Suc (length log). P i) \<longleftrightarrow> (\<exists>i < length log. P i) \<or> P (length log)" for P
    using less_Suc_eq by auto
  then show ?thesis by (auto simp: registered_in_def nth_append)
qed

lemma disciplined_snoc [simp]: "disciplined lib (log @ [op]) \<longleftrightarrow>
    disciplined lib log \<and> (setup_op op \<or> op = executor_thread \<or> registered_in lib log)"
proof -
  have "(\<forall>i < Suc (length log). P i) \<longleftrightarrow> (\<forall>i < length log. P i) \<and> P (length log)" for P
    using less_Suc_eq by auto
  then show ?thesis by (auto simp: disciplined_def nth_append)
qed

lemma registered_in_snocs [simp]:
  "registered_in lib log \<Longrightarrow> registered_in lib (log @ ops)"
  by (induction ops rule: rev_induct) (simp_all flip: append_assoc)

lemma disciplined_snocs [simp]:
  "registered_in lib log \<Longrightarrow> disciplined lib log \<Longrightarrow> disciplined lib (log @ ops)"
  by (induction ops rule: rev_induct) (simp_all flip: append_assoc)

definition threaded :: "pj \<Rightarrow> sip_agent \<Rightarrow> bool" where
  "threaded lib a \<longleftrightarrow> disciplined lib (sa_log a)
     \<and> (sa_thread_registered a \<or> sa_recorder a \<longrightarrow> registered_in lib (sa_log a))"

definition ready :: "pj \<Rightarrow> sip_agent \<Rightarrow> bool" where
  "ready lib a \<longleftrightarrow> disciplined lib (sa_log a) \<and> registered_in lib (sa_log a)"

lemma ready_threaded: "ready lib a \<Longrightarrow> threaded lib a"
  by (simp add: ready_def threaded_def)

lemma ready_stable [simp]:
  "ready lib a \<Longrightarrow> ready lib (pj_log op a)"
  "ready lib (a\<lparr>sa_call := b\<rparr>) = ready lib a" "ready lib (a\<lparr>sa_player := b\<rparr>) = ready lib a"
  "ready lib (a\<lparr>sa_recorder := b\<rparr>) = ready lib a"
  by (simp_all add: ready_def)

lemma ready_drop [simp]:
  "ready lib a \<Longrightarrow> ready lib (drop_call a)" "ready lib a \<Longrightarrow> ready lib (drop_player a)"
  "ready lib a \<Longrightarrow> ready lib (stopRecorder a)"
  by (simp_all add: drop_call_def drop_player_def stopRecorder_def)

lemma register_ready:
  "threaded lib a \<Longrightarrow> attempt_post (\<lambda>_. ready lib) (threaded lib) (libRegisterThread lib name a)
     \<or> name \<noteq> ''pjcppagent-executor''"
  by (auto simp: libRegisterThread_def pj_do_def threaded_def ready_def)

lemma after_register:
  assumes "threaded lib a" and "\<And>a. ready lib a \<Longrightarrow> attempt_post (\<lambda>_. ready lib) (ready lib) (k a)"
  shows "attempt_post (\<lambda>_. threaded lib) (threaded lib)
    (attempt_then (libRegisterThread lib ''pjcppagent-executor'' a) k)"
proof (rule attempt_post_then)
  show "attempt_post (\<lambda>_. ready lib) (threaded lib) (libRegisterThread lib ''pjcppagent-executor'' a)"
    using register_ready [OF assms(1)] by blast
  show "attempt_post (\<lambda>_. threaded lib) (threaded lib) (k a)" if "ready lib a" for a
    using assms(2) [OF that] by (cases "k a") (simp_all add: ready_threaded)
qed

lemma ready_do: "ready lib a \<Longrightarrow> attempt_post (\<lambda>_. ready lib) (ready lib) (pj_do w op a)"
  by (rule pj_do_post) simp

lemma ready_seq: "ready lib a \<Longrightarrow> attempt_post (\<lambda>_. ready lib) (ready lib) (pj_seq w ops a)"
  by (rule pj_seq_post) simp_all

lemma ready_caught [simp]: "ready lib a \<Longrightarrow> ready lib (caught (pj_seq w ops a))"
  by (rule attempt_post_caught [OF ready_seq])

lemma ready_hangup [simp]: "ready lib a \<Longrightarrow> ready lib (caught (pj_do w op a))"
  by (rule attempt_post_caught [OF ready_do])

lemma threaded_wait: "threaded lib a \<Longrightarrow> threaded lib (snd (waitEvent (fold agent_act ts) a))"
  by (simp add: threaded_def)

interpretation thread_discipline: agent_invariant "threaded lib" lib for lib
proof unfold_locales
  fix a path assume a: "threaded lib a"
  show "attempt_post (\<lambda>_. threaded lib) (threaded lib) (init lib a)"
    using a by (simp add: init_def pj_do_def threaded_def Let_def flip: append_assoc)
  show "attempt_post (\<lambda>_. threaded lib) (threaded lib) (placeCall lib a)"
    unfolding placeCall_def by (rule after_register [OF a]) (simp add: ready_do)
  show "attempt_post (\<lambda>_. threaded lib) (threaded lib) (hangup lib a)"
    unfolding hangup_def by (rule after_register [OF a]) simp
  show "attempt_post (\<lambda>_. threaded lib) (threaded lib) (startPlayer lib path a)"
    unfolding startPlayer_def
    by (rule after_register [OF a], rule attempt_post_then, rule ready_do) (simp_all del: pj_seq.simps)
  show "attempt_post (\<lambda>_. threaded lib) (threaded lib) (startRecorder lib path a)"
    unfolding startRecorder_def
    by (rule after_register [OF a], rule attempt_post_then, rule ready_do) (simp_all del: pj_seq.simps)
  show "attempt_post (\<lambda>_. threaded lib) (threaded lib) (getRxLevel lib a)"
    unfolding getRxLevel_def by (rule after_register [OF a]) (simp add: pj_do_def)
qed (simp_all add: threaded_wait, auto simp: threaded_def stopRecorder_def setCallStartTime_def)

section \<open>One call\<close>

fun is_make_call :: "pj_op \<Rightarrow> bool" where
  "is_make_call (MakeCall _) = True"
| "is_make_call _ = False"

definition calls :: "sip_agent \<Rightarrow> nat" where
  "calls a = length (filter is_make_call (sa_log a))"

lemma calls_log [simp]: "\<not> is_make_call op \<Longrightarrow> calls (pj_log op a) = calls a"
  by (simp add: calls_def)

lemma calls_fields [simp]:
  "calls (a\<lparr>sa_call := b\<rparr>) = calls a" "calls (a\<lparr>sa_player := b\<rparr>) = calls a"
  "calls (a\<lparr>sa_recorder := b\<rparr>) = calls a" "calls (a\<lparr>sa_ep := b\<rparr>) = calls a"
  "calls (a\<lparr>sa_account := b\<rparr>) = calls a" "calls (a\<lparr>sa_thread_registered := b\<rparr>) = calls a"
  "calls (drop_player a) = calls a" "calls (stopRecorder a) = calls a"
  by (simp_all add: calls_def drop_player_def stopRecorder_def)

lemma count_do: "calls a = n \<Longrightarrow> \<not> is_make_call op \<Longrightarrow>
    attempt_post (\<lambda>_ a. calls a = n) (\<lambda>a. calls a = n) (pj_do w op a)"
  by (rule pj_do_post) simp

lemma count_seq: "calls a = n \<Longrightarrow> list_all (\<lambda>op. \<not> is_make_call op) ops \<Longrightarrow>
    attempt_post (\<lambda>_ a. calls a = n) (\<lambda>a. calls a = n) (pj_seq w ops a)"
  by (rule pj_seq_post) (simp_all add: list_all_iff)

lemma count_caught [simp]: "list_all (\<lambda>op. \<not> is_make_call op) ops \<Longrightarrow>
    calls (caught (pj_seq w ops a)) = calls a" "\<not> is_make_call op \<Longrightarrow> calls (caught (pj_do w op a)) = calls a"
  by (rule attempt_post_caught [OF count_seq], simp, assumption,
      rule attempt_post_caught [OF count_do], simp)

lemma count_register: "calls a = n \<Longrightarrow>
    attempt_post (\<lambda>_ a. calls a = n) (\<lambda>a. calls a = n) (libRegisterThread w name a)"
  by (simp add: libRegisterThread_def pj_do_def)

interpretation call_count: agent_setup "\<lambda>a. calls a = n" lib for n lib
proof unfold_locales
  fix a path assume a: "calls a = n"
  show "attempt_post (\<lambda>_ a. calls a = n) (\<lambda>a. calls a = n) (init lib a)"
    unfolding init_def Let_def
    by (rule attempt_post_then, rule count_seq, simp add: a, simp, rule attempt_post_then, rule count_do) simp_all
  show "attempt_post (\<lambda>_ a. calls a = n) (\<lambda>a. calls a = n) (hangup lib a)"
    unfolding hangup_def by (rule attempt_post_then [OF count_register [OF a]]) simp
  show "attempt_post (\<lambda>_ a. calls a = n) (\<lambda>a. calls a = n) (startPlayer lib path a)"
    unfolding startPlayer_def
    by (rule attempt_post_then [OF count_register [OF a]], rule attempt_post_then, rule count_do)
      (simp_all del: pj_seq.simps)
  show "attempt_post (\<lambda>_ a. calls a = n) (\<lambda>a. calls a = n) (startRecorder lib path a)"
    unfolding startRecorder_def
    by (rule attempt_post_then [OF count_register [OF a]], rule attempt_post_then, rule count_do)
      (simp_all del: pj_seq.simps)
  show "attempt_post (\<lambda>_ a. calls a = n) (\<lambda>a. calls a = n) (getRxLevel lib a)"
    unfolding getRxLevel_def by (rule attempt_post_then [OF count_register [OF a]]) (simp add: pj_do_def)
qed (simp_all add: calls_def setCallStartTime_def stopRecorder_def)

lemma place_one_call:
  "calls a = 0 \<Longrightarrow> attempt_post (\<lambda>_ a. calls a = 1) (\<lambda>a. calls a \<le> 1) (placeCall lib a)"
  by (simp add: placeCall_def libRegisterThread_def pj_do_def drop_call_def calls_def)

section \<open>Properties\<close>

text \<open>
  C11: a run touches PJSIP only as its threading rules allow: whatever the library answers and however
  the run ends, every request after the initialisation comes after a registration of the executor's
  thread that succeeded.
\<close>

theorem run_respects_threads:
  assumes "run w (CallExecutor c) = Some f"
  shows "disciplined (pjsip w) (sa_log (x_agent (flow_state f)))"
proof -
  have "threaded (pjsip w) (x_agent (CallExecutor c))"
    by (simp add: CallExecutor_def SipAgent_def threaded_def)
  from post_flow_state [OF thread_discipline.run_keeps [OF refl this] assms]
  show ?thesis by (simp add: threaded_def)
qed

theorem run_respects_threads_witness:
  "\<exists>s. run answered_call (CallExecutor demo_config) = Some (Return s)
     \<and> Hangup 603 \<in> set (sa_log (x_agent s)) \<and> disciplined quiet_pj (sa_log (x_agent s))"
proof -
  obtain s where r: "run answered_call (CallExecutor demo_config) = Some (Return s)"
      and "length (filter (\<lambda>op. op = Hangup 603) (sa_log (x_agent s))) = 1"
    by (rule answered_run)
  then have "filter (\<lambda>op. op = Hangup 603) (sa_log (x_agent s)) \<noteq> []"
    by (metis list.size(3) zero_neq_one)
  then have "Hangup 603 \<in> set (sa_log (x_agent s))" by (simp add: filter_empty_conv)
  moreover have "pjsip answered_call = quiet_pj" by (simp add: answered_call_def scenario_def)
  ultimately show ?thesis
    using run_respects_threads [OF r] r by (metis flow_state.simps(2))
qed

text \<open>A callback reported before the n-th interaction that the registrar accepts the registration.\<close>

definition registration_reported :: "env \<Rightarrow> nat \<Rightarrow> bool" where
  "registration_reported w n \<longleftrightarrow> (\<exists>k < n. \<exists>code why. Callback (OnRegState code why) \<in> set (others w k) \<union> set (during w k)
     \<and> 200 \<le> code \<and> code < 300)"

lemma pushed_registration:
  assumes "ev \<in> set (pushed t)" and "ev_type ev = REG_STATE" "ev_connected ev"
  shows "\<exists>code why. t = Callback (OnRegState code why) \<and> 200 \<le> code \<and> code < 300"
proof (cases t)
  case (Callback cb)
  with assms show ?thesis
    by (cases cb) (auto simp: pushed_def SipAgent_def onRegState_def onCallState_def onCallMediaState_def onEof2_def
        pushEvent_def InternalEvent_def Let_def split: option.splits if_splits)
qed (use assms in \<open>simp_all add: pushed_def SipAgent_def wakeDispatcher_def\<close>)

lemma delivered_registration:
  "delivered w n ev \<Longrightarrow> ev_type ev = REG_STATE \<Longrightarrow> ev_connected ev \<Longrightarrow> registration_reported w n"
  unfolding delivered_def registration_reported_def by (metis pushed_registration)

lemma registration_later: "registration_reported w m \<Longrightarrow> m \<le> n \<Longrightarrow> registration_reported w n"
  unfolding registration_reported_def by (meson order_less_le_trans)

lemma setup_registered:
  "post (\<lambda>s. registration_reported w (x_tick s)) (\<lambda>_. True) (\<lambda>_. True) (run_setup w (CallExecutor c))"
proof -
  let ?I = "\<lambda>s. queued (delivered w (x_tick s)) s" and ?T = "\<lambda>_ :: exec. True"
  let ?N = "\<lambda>s. x_cancelled s \<or> registration_reported w (x_tick s)"
  have "untouched (\<lambda>_. False) (SipAgent c) a \<Longrightarrow> sa_queue a = []" for a
    by (simp add: untouched_def SipAgent_def)
  then have init: "post ?I ?T ?T (step_init w (CallExecutor c))"
    using untouched_operations(1) [of "\<lambda>_. False" "SipAgent c" "pjsip w"]
    by (cases "init (pjsip w) (SipAgent c)")
      (simp_all add: step_init_def CallExecutor_def queued_def updates Let_def)
  have round: "iter_post ?I ?N ?T ?T (register_round w s)" if s: "?I s" for s
  proof -
    let ?u = "snd (waitFor w 500 (tock w s))"
    have t: "?I (tock w s)" using delivered_tock [OF s] by simp
    have u: "?I ?u" "?I (tock w ?u)"
      using delivered_waitFor [OF t, of 500] delivered_tock [of w ?u] by simp_all
    have "registration_reported w (x_tick ?u)"
      if "fst (waitFor w 500 (tock w s)) = Some ev" "ev_type ev = REG_STATE" "ev_connected ev" for ev
      using delivered_waitFor [OF t, of 500] that delivered_registration [of w _ ev] by simp
    with u show ?thesis by (auto simp: register_round_def reads updates split: option.split)
  qed
  have register: "post ?N ?T ?T (step_register w s)" if "?I s" for s
  proof -
    have "?I (tock w (emitState REGISTERING s))"
      using delivered_tock [of w "emitState REGISTERING s"] that by (simp add: updates queued_def)
    then have "?I ((tock w (emitState REGISTERING s))\<lparr>x_reg_start := clock w (x_tick (emitState REGISTERING s))\<rparr>)"
      unfolding queued_def by simp
    then show ?thesis unfolding step_register_def reads by (intro loop_post [where I = ?I] round)
  qed
  have "post (\<lambda>s. registration_reported w (x_tick s)) ?T ?T (check_not_placed w s)" if "?N s" for s
    using that tock_cancelled [of s w] by (auto simp: check_not_placed_def reads intro: registration_later)
  then show ?thesis
    unfolding run_setup_def by (intro post_then_do [OF init] post_then_do [OF register])
qed

text \<open>
  C12: an executor places at most one call, and only after the registration has been confirmed: if a run has
  placed a call, then its steps 1 and 2 were completed without placing one, with \<open>REGISTERED\<close> as the last
  event they emitted, and before they were completed a callback of PJSIP had reported the registration with
  a code between 200 and 299. In particular a run whose registration is only ever refused places none.
\<close>

theorem one_call_after_registration:
  assumes "run w (CallExecutor c) = Some f"
  shows "calls (x_agent (flow_state f)) \<le> 1
    \<and> (calls (x_agent (flow_state f)) > 0 \<longrightarrow> (\<exists>s. run_setup w (CallExecutor c) = Some (Next s)
         \<and> calls (x_agent s) = 0 \<and> status (last (x_emitted s)) = REGISTERED \<and> registration_reported w (x_tick s)))"
proof -
  let ?ones = "\<lambda>s. calls (x_agent s) \<le> 1"
  have init: "calls (x_agent (CallExecutor c)) = 0"
    by (simp add: CallExecutor_def SipAgent_def calls_def)
  note set_up = call_count.run_setup_keeps [OF refl init, of w]
  have after: "post ?ones ?ones ?ones (then_do (then_do (step_answer w s) (check_answered w))
      (\<lambda>s. then_do (run_play w s) (run_end w)))" if "calls (x_agent s) = 1" for s
    using call_count.after_dial_keeps [OF refl that, of w] by (rule post_mono) simp_all
  have dial: "post (\<lambda>s. calls (x_agent s) = 1) ?ones ?ones (step_dial w s)" if "calls (x_agent s) = 0" for s
  proof -
    from that have "calls (x_agent (emitState DIALING s)) = 0" by (simp add: updates)
    from place_one_call [OF this, of "pjsip w"] show ?thesis
      by (cases "placeCall (pjsip w) (x_agent (emitState DIALING s))") (simp_all add: step_dial_def agent_do_def)
  qed
  have "post ?ones ?ones ?ones (run w (CallExecutor c))"
    unfolding run_def run_dial_def then_do_assoc
    by (rule post_then_do [OF post_mono [OF set_up]], assumption, simp, simp,
        rule post_then_do [OF dial], assumption, rule after [unfolded then_do_assoc])
  then have le: "?ones (flow_state f)" using assms by (rule post_flow_state)
  obtain f1 where f1: "run_setup w (CallExecutor c) = Some f1" using assms by (cases "run_setup w (CallExecutor c)") (simp_all add: run_def)
  have zero: "calls (x_agent (flow_state f1)) = 0" using set_up f1 by (rule post_flow_state)
  have "post (\<lambda>s. at Registered s \<and> pending '''' s) returned thrown (run_setup w (CallExecutor c))"
    by (rule setup_post) (simp_all add: CallExecutor_def pending_def)
  moreover have "status (last (x_emitted s)) = REGISTERED" if "at Registered s" for s
  proof -
    from that have "x_emitted s \<noteq> []" by auto
    then obtain es e where e: "x_emitted s = es @ [e]" by (metis rev_exhaust)
    with that obtain q where "advance q e = Some Registered" by (auto simp: bind_eq_Some_conv)
    with e show ?thesis by (auto simp: advance_def split: if_splits prod.splits life.splits call_status.splits)
  qed
  ultimately have "case f1 of Next s \<Rightarrow> status (last (x_emitted s)) = REGISTERED \<and> registration_reported w (x_tick s) | _ \<Rightarrow> f = f1"
    using assms f1 setup_registered [of w c] by (cases f1) (auto simp: run_def)
  with zero le f1 show ?thesis by (cases f1) auto
qed

theorem one_call_after_registration_witness:
  "\<exists>s s1. run answered_call (CallExecutor demo_config) = Some (Return s) \<and> calls (x_agent s) = 1
     \<and> run_setup answered_call (CallExecutor demo_config) = Some (Next s1) \<and> registration_reported answered_call (x_tick s1)"
proof -
  have "\<exists>s. run answered_call (CallExecutor demo_config) = Some (Return s) \<and> calls (x_agent s) = 1"
    unfolding answered_call_def
    by (simp add: evaluation calls_def One_nat_def [symmetric] del: One_nat_def cong: eval_congs)
  then obtain s where r: "run answered_call (CallExecutor demo_config) = Some (Return s)" "calls (x_agent s) = 1" by blast
  with one_call_after_registration [OF r(1)] show ?thesis by auto
qed

section \<open>The registration flag\<close>

text \<open>
  The agent's flag \<open>registered_\<close> is never set: \<open>isRegistered()\<close> is false in every state of every run, also
  after the executor has reported \<open>REGISTERED\<close>.
\<close>

lemma registered_frame [simp]:
  "isRegistered (pj_log op a) = isRegistered a" "isRegistered (drop_call a) = isRegistered a"
  "isRegistered (drop_player a) = isRegistered a" "isRegistered (stopRecorder a) = isRegistered a"
  "isRegistered (setCallStartTime t a) = isRegistered a" "isRegistered (agent_act t' a) = isRegistered a"
  "isRegistered (a\<lparr>sa_ep := b\<rparr>) = isRegistered a" "isRegistered (a\<lparr>sa_account := b\<rparr>) = isRegistered a"
  "isRegistered (a\<lparr>sa_call := b\<rparr>) = isRegistered a" "isRegistered (a\<lparr>sa_player := b\<rparr>) = isRegistered a"
  "isRegistered (a\<lparr>sa_recorder := b\<rparr>) = isRegistered a"
  "isRegistered (a\<lparr>sa_thread_registered := b\<rparr>) = isRegistered a"
  "isRegistered (a\<lparr>sa_dispatcher_wake := b\<rparr>) = isRegistered a" "isRegistered (a\<lparr>sa_queue := q\<rparr>) = isRegistered a"
proof -
  have "isRegistered (run_callback cb a) = isRegistered a" for cb
    by (cases cb) (simp_all add: isRegistered_def onRegState_def onCallState_def onCallMediaState_def onEof2_def
        pushEvent_def Let_def split: option.split)
  then show "isRegistered (agent_act t' a) = isRegistered a"
    by (cases t') (simp_all, simp add: isRegistered_def wakeDispatcher_def)
qed (simp_all add: isRegistered_def pj_log_def drop_call_def drop_player_def stopRecorder_def setCallStartTime_def)

lemma registered_acts [simp]: "isRegistered (fold agent_act ts a) = isRegistered a"
  by (induction ts arbitrary: a) simp_all

interpretation registration: agent_invariant "\<lambda>a. \<not> isRegistered a" lib for lib
  by unfold_locales
    (simp_all add: waitEvent_def init_def placeCall_def hangup_def startPlayer_def startRecorder_def getRxLevel_def
      libRegisterThread_def pj_do_def Let_def split: list.split)

lemma registered_flag_never_set:
  assumes "run w (CallExecutor c) = Some f"
  shows "\<not> isRegistered (x_agent (flow_state f))"
proof -
  have "\<not> isRegistered (x_agent (CallExecutor c))" by (simp add: CallExecutor_def SipAgent_def isRegistered_def)
  from post_flow_state [OF registration.run_keeps [OF refl this] assms] show ?thesis .
qed

end
