(* ===== verification/Executor_Hangup.thy ===== *)
theory Executor_Hangup
  imports Executor_Agent
begin

text \<open>
  What a cancellation does to the call (\<open>src/call_executor.cpp\<close>, against "Cancelling the RPC hangs up
  the call" of \<open>src/protos/call_agent.proto\<close>): every way to return cancelled once a call has been
  placed has asked PJSIP to hang up, except in the phase that listens for silence.
\<close>

section \<open>The call and the log\<close>

text \<open>Once there is a call object the agent keeps it, and its log only grows.\<close>

definition grown :: "sip_agent \<Rightarrow> sip_agent \<Rightarrow> bool" where
  "grown a b \<longleftrightarrow> (sa_call a \<longrightarrow> sa_call b) \<and> set (sa_log a) \<subseteq> set (sa_log b)"

lemma grown_refl [simp]: "grown a a" "grown a (b\<lparr>sa_thread_registered := r\<rparr>) = grown a b"
    "grown a (b\<lparr>sa_player := r\<rparr>) = grown a b" "grown a (b\<lparr>sa_recorder := r\<rparr>) = grown a b"
  by (simp_all add: grown_def)

lemma grown_log [simp]: "grown a b \<Longrightarrow> grown a (pj_log op b)"
  by (auto simp: grown_def)

lemma grown_drop [simp]: "grown a b \<Longrightarrow> grown a (drop_player b)" "grown a b \<Longrightarrow> grown a (stopRecorder b)"
  by (auto simp: grown_def drop_player_def stopRecorder_def)

lemma grown_do: "grown a b \<Longrightarrow> attempt_post (\<lambda>_. grown a) (grown a) (pj_do w op b)"
  by (rule pj_do_post) simp

lemma grown_seq: "grown a b \<Longrightarrow> attempt_post (\<lambda>_. grown a) (grown a) (pj_seq w ops b)"
  by (rule pj_seq_post) simp_all

lemma grown_caught [simp]: "grown a b \<Longrightarrow> grown a (caught (pj_seq w ops b))" "grown a b \<Longrightarrow> grown a (caught (pj_do w op b))"
  by (rule attempt_post_caught [OF grown_seq], assumption, rule attempt_post_caught [OF grown_do], assumption)

lemma grown_register: "grown a b \<Longrightarrow> attempt_post (\<lambda>_. grown a) (grown a) (libRegisterThread w name b)"
  by (simp add: libRegisterThread_def pj_do_def)

interpretation call_kept: agent_steps "grown a" lib for a lib
proof unfold_locales
  fix b path assume "grown a b"
  note reg = attempt_post_then [OF grown_register [OF this]]
  show "attempt_post (\<lambda>_. grown a) (grown a) (hangup lib b)"
    unfolding hangup_def by (rule reg) simp
  show "attempt_post (\<lambda>_. grown a) (grown a) (startPlayer lib path b)"
    unfolding startPlayer_def by (rule reg, rule attempt_post_then [OF grown_do]) (simp_all del: pj_seq.simps)
  show "attempt_post (\<lambda>_. grown a) (grown a) (startRecorder lib path b)"
    unfolding startRecorder_def by (rule reg, rule attempt_post_then [OF grown_do]) (simp_all del: pj_seq.simps)
  show "attempt_post (\<lambda>_. grown a) (grown a) (getRxLevel lib b)"
    unfolding getRxLevel_def by (rule reg) (simp add: pj_do_def)
qed (simp_all add: grown_def setCallStartTime_def, auto simp: stopRecorder_def)

lemmas kept_base = call_kept.exec_base [OF refl]
lemmas kept_ring = call_kept.exec_ring [OF refl]
lemmas kept_talk = call_kept.exec_talk [OF refl]

section \<open>Ways to return cancelled\<close>

definition hung_up :: "exec \<Rightarrow> bool" where
  "hung_up s \<longleftrightarrow> Hangup 603 \<in> set (sa_log (x_agent s))"

definition accounted :: "exec \<Rightarrow> bool" where
  "accounted s \<longleftrightarrow> (status (x_result s) = CANCELLED \<longrightarrow> hung_up s \<or> calls (x_agent s) = 0 \<or> at Listening s)"

lemma hangup_logged:
  "sa_call (x_agent s) \<Longrightarrow> post hung_up (\<lambda>_. False) (\<lambda>_. True) (agent_hangup w s)"
  by (simp add: agent_hangup_def agent_do_def hangup_def libRegisterThread_def pj_do_def hung_up_def)

lemma return_after_hangup:
  assumes "sa_call (x_agent s)" and "\<And>v. hung_up v \<Longrightarrow> accounted (k v)"
  shows "post N accounted (\<lambda>_. True) (then_do (agent_hangup w s) (\<lambda>v. Some (Return (k v))))"
  by (rule post_then_do [where M = hung_up], rule post_mono [OF hangup_logged]) (use assms in simp_all)

text \<open>The end of a call is never reported as cancelled.\<close>

lemma disconnect_status: "status (x_result (handleDisconnect w code why s)) \<noteq> CANCELLED"
  by (simp add: handleDisconnect_def reads emitEvent_def sipCodeToCallStatus_def)

lemma disconnect_accounted [simp]: "accounted (handleDisconnect w code why s)"
  using disconnect_status by (simp add: accounted_def)

lemma never_returns: "post (\<lambda>_. True) accounted (\<lambda>_. True) (agent_do f s)"
  by (cases "f (x_agent s)") (simp_all add: agent_do_def)

lemma drain_accounted: "post (\<lambda>_. True) accounted (\<lambda>_. True) (loop (drain_round w) s)"
  by (rule loop_post [where I = "\<lambda>_. True"]) (auto simp: drain_round_def reads split: option.split)

lemma silence_accounted: "post (\<lambda>_. True) accounted (\<lambda>_. True) (loop (silence_round w) s)"
  by (rule loop_post [where I = "\<lambda>_. True"]) (auto simp: silence_round_def reads split: attempt.split)

lemma playback_accounted: "post (\<lambda>_. True) accounted (\<lambda>_. True) (step_playback w s)"
  unfolding step_playback_def
  by (rule loop_post [where I = "\<lambda>_. True"])
    (auto simp: play_round_def reads iter_post_Stop agent_hangup_def
      intro!: post_then_do [OF never_returns] drain_accounted split: option.split)

lemma answer_accounted: "post (\<lambda>_. True) accounted (\<lambda>_. True) (step_answer w s)"
  unfolding step_answer_def reads
proof (rule loop_post [where I = "\<lambda>_. True"])
  fix s
  have dl: "post (\<lambda>_. True) accounted (\<lambda>_. True) (deadline_hangup w v)" for v
    by (simp add: deadline_hangup_def agent_hangup_def reads never_returns)
  have net: "post (\<lambda>_. True) accounted (\<lambda>_. True) (safety_net w v)" for v
    by (simp add: safety_net_def reads accounted_def updates)
  have "iter_post (\<lambda>_. True) (\<lambda>_. True) accounted (\<lambda>_. True) (answer_check v)" for v
    by (simp add: answer_check_def)
  then have ev: "iter_post (\<lambda>_. True) (\<lambda>_. True) accounted (\<lambda>_. True) (answer_event w ev v)" for ev v
    by (simp add: answer_event_def reads)
  show "iter_post (\<lambda>_. True) (\<lambda>_. True) accounted (\<lambda>_. True) (answer_round w s)"
    by (auto simp: answer_round_def reads intro!: iter_post_in_body [OF dl] iter_post_in_body [OF net] ev
        split: option.split)
qed simp

section \<open>The phases\<close>

abbreviation in_call :: "exec \<Rightarrow> bool" where
  "in_call s \<equiv> sa_call (x_agent s)"

text \<open>A block that stays in the call, and accounts for every return.\<close>

definition stays :: "exec flow option \<Rightarrow> bool" where
  "stays m \<longleftrightarrow> post in_call accounted (\<lambda>_. True) m"

lemma stays_then_do: "stays m \<Longrightarrow> (\<And>s. in_call s \<Longrightarrow> stays (k s)) \<Longrightarrow> stays (then_do m k)"
  unfolding stays_def by (rule post_then_do)

lemma stays_kept:
  assumes "in_call s" and "\<And>a. grown a (x_agent s) \<Longrightarrow>
      post (\<lambda>s. grown a (x_agent s)) (\<lambda>s. grown a (x_agent s)) (\<lambda>s. grown a (x_agent s)) m"
    and "post (\<lambda>_. True) accounted (\<lambda>_. True) m"
  shows "stays m"
  unfolding stays_def
  by (rule post_conj [OF assms(2) [of "x_agent s"] assms(3)]) (use assms(1) in \<open>auto simp: grown_def\<close>)

lemma dial_in_call: "post in_call (\<lambda>_. False) (\<lambda>_. True) (step_dial w s)"
  by (simp add: step_dial_def agent_do_def placeCall_def libRegisterThread_def pj_do_def)

lemma stays_answer:
  assumes "in_call s"
  shows "stays (then_do (step_answer w s) (check_answered w))"
proof (rule stays_then_do)
  show "stays (step_answer w s)"
    by (rule stays_kept [OF assms _ answer_accounted])
      (auto simp: step_answer_def reads
        intro!: post_mono [OF exec_ring.I_answer [OF kept_ring]] exec_base.I_tock [OF kept_base])
next
  fix s assume "in_call s"
  then have "stays (then_do (agent_hangup w (tock w s))
      (\<lambda>v. Some (Return (set_reason ''cancelled by user'' (set_status CANCELLED v)))))"
    unfolding stays_def by (intro return_after_hangup) (simp_all add: accounted_def hung_up_def updates)
  moreover have "accounted (tock w s)" if "failed_status (tock w s)"
    using that by (auto simp: failed_status_def accounted_def)
  ultimately show "stays (check_answered w s)"
    using \<open>in_call s\<close> by (auto simp: check_answered_def reads stays_def)
qed

lemma stays_cancelled: "in_call s \<Longrightarrow> stays (hang_up_cancelled w s)"
  unfolding stays_def hang_up_cancelled_def
  by (rule return_after_hangup) (simp_all add: accounted_def hung_up_def updates)

lemma stays_play:
  assumes "in_call s"
  shows "stays (run_play w s)"
  unfolding run_play_def
proof (intro stays_then_do)
  show "stays (step_record w s)"
    by (rule stays_kept [OF assms])
      (auto simp: step_record_def Let_def intro!: exec_talk.I_record [OF kept_talk, unfolded step_record_def Let_def]
        post_then_do [OF never_returns])
next
  fix s assume "in_call s"
  moreover have "x_agent (choose_audio w s) = x_agent s" for s
    by (simp add: choose_audio_def Let_def case_prod_unfold)
  ultimately show "stays (step_delay w (choose_audio w s))"
    by (intro stays_kept exec_talk.I_delay [OF kept_talk])
      (auto simp: step_delay_def delay_round_def reads intro!: loop_post [where I = "\<lambda>_. True"])
next
  fix s assume "in_call s"
  then have "in_call (tock w s)" by simp
  from stays_cancelled [OF this] \<open>in_call s\<close> show "stays (check_cancelled w s)"
    by (auto simp: check_cancelled_def reads, simp add: stays_def)
next
  fix s assume "in_call s"
  then show "stays (step_play w s)"
    by (rule stays_kept) (auto simp: step_play_def reads updates
        intro!: agent_do_post call_kept.inv_player exec_base.I_tock [OF kept_base] never_returns)
next
  fix s assume "in_call s"
  then show "stays (step_playback w s)"
    by (rule stays_kept) (auto simp: step_playback_def
        intro!: exec_talk.I_playback [OF kept_talk] playback_accounted [unfolded step_playback_def])
next
  fix s assume "in_call s"
  then have "in_call (tock w s)" by simp
  moreover have "accounted (tock w s)" if "failed_status (tock w s)"
    using that by (auto simp: failed_status_def accounted_def)
  ultimately show "stays (check_played w s)"
    using stays_cancelled [of "tock w s"] by (auto simp: check_played_def reads, simp_all add: stays_def)
qed

lemma end_accounted:
  assumes "in_call s" and "active Listening s"
  shows "post (\<lambda>_. False) accounted (\<lambda>_. True) (run_end w s)"
proof -
  let ?S = "\<lambda>s. in_call s \<and> active Listening s"
  have "stays (loop (silence_round w) (silence_setup s))"
    using assms(1) by (intro stays_kept silence_accounted)
      (auto simp: silence_setup_def intro!: exec_talk.I_silence [OF kept_talk])
  then have listen: "post ?S accounted (\<lambda>_. True) (loop (silence_round w) (silence_setup s))"
    unfolding stays_def by (rule post_conj [OF _ silence_loop_post]) (use assms(2) in simp_all)
  have check: "post hung_up accounted (\<lambda>_. True) (check_silence w v)" if v: "?S v" for v
  proof (cases "x_cancelled (tock w v)")
    case True
    with v show ?thesis by (simp add: check_silence_def reads accounted_def updates active_def)
  next
    case False
    let ?v = "emitState HANGING_UP (emitEvent (AgentEvent SILENCE_DETECTED (callId (tock w v)) ''''
        (silence_s (x_config (tock w v))) 0 '''') (tock w v))"
    have "in_call ?v" using v by (simp add: updates)
    then have "post hung_up accounted (\<lambda>_. True) (agent_hangup w ?v)"
      by (rule post_mono [OF hangup_logged]) simp_all
    with False show ?thesis by (simp add: check_silence_def reads)
  qed
  have drain: "post hung_up accounted (\<lambda>_. True) (loop (drain_round w) v)" if "hung_up v" for v
  proof -
    let ?g = "\<lambda>s. grown (x_agent v) (x_agent s)"
    have "post ?g ?g ?g (loop (drain_round w) v)" by (rule exec_base.I_drain [OF kept_base]) simp
    from this drain_accounted show ?thesis
      by (rule post_conj) (use that in \<open>auto simp: grown_def hung_up_def\<close>)
  qed
  show ?thesis
    unfolding run_end_def step_silence_def step_disconnect_def
    by (rule post_then_do [where M = hung_up], rule post_then_do [OF listen], rule check, assumption,
        rule post_then_do [OF drain], assumption) (simp add: accounted_def hung_up_def updates)
qed

lemma run_accounted: "post (\<lambda>_. False) accounted (\<lambda>_. True) (run w (CallExecutor c))"
proof -
  let ?none = "\<lambda>s. calls (x_agent s) = 0"
  let ?R = "\<lambda>s. at Registered s \<and> pending '''' s"
  let ?T = "\<lambda>s. at Talking s \<and> pending '''' s \<and> status (x_result s) = ANSWERED"
  have "post ?none ?none ?none (run_setup w (CallExecutor c))"
    by (rule call_count.run_setup_keeps) (simp_all add: CallExecutor_def SipAgent_def calls_def)
  moreover have "post ?R returned thrown (run_setup w (CallExecutor c))"
    by (rule setup_post) (simp_all add: CallExecutor_def pending_def)
  ultimately have set_up: "post ?R accounted (\<lambda>_. True) (run_setup w (CallExecutor c))"
    by (rule post_conj) (simp_all add: accounted_def)
  have dial: "post (\<lambda>s. ?T s \<and> in_call s) accounted (\<lambda>_. True) (run_dial w s)" if "?R s" for s
  proof -
    have "post in_call accounted (\<lambda>_. True) (run_dial w s)"
      unfolding run_dial_def
      by (rule post_then_do [OF post_mono [OF dial_in_call]]) (use stays_answer in \<open>simp_all add: stays_def\<close>)
    then show ?thesis by (rule post_conj [OF _ run_dial_post]) (use that in simp_all)
  qed
  have play: "post (\<lambda>s. active Listening s \<and> in_call s) accounted (\<lambda>_. True) (run_play w s)"
    if "?T s \<and> in_call s" for s
    by (rule post_conj [OF stays_play [unfolded stays_def] run_play_post]) (use that in simp_all)
  show ?thesis unfolding run_def
    by (rule post_then_do [OF set_up], rule post_then_do [OF dial], assumption, rule post_then_do [OF play], assumption,
        rule end_accounted) simp_all
qed

section \<open>A call cancelled while listening\<close>

definition listening_cancelled :: env where
  "listening_cancelled = scenario
     [(2, [Callback (OnRegState 200 ''OK'')]),
      (7, [Callback (OnCallState (call_in 5 200 ''OK'' []))]),
      (10, [Callback (OnCallMediaState (call_in 5 200 ''OK'' [\<lparr>mi_audio = True, mi_active = True\<rparr>]))]),
      (16, [Callback OnEof2]), (19, cancel)]"

lemma listening_cancelled_run_ex:
  "\<exists>s. run listening_cancelled (CallExecutor demo_config) = Some (Return s)
     \<and> status (x_result s) = CANCELLED \<and> Hangup 603 \<notin> set (sa_log (x_agent s))
     \<and> length (filter is_make_call (sa_log (x_agent s))) = 1"
  unfolding listening_cancelled_def
  by (simp add: evaluation One_nat_def [symmetric] del: One_nat_def cong: eval_congs)

lemma listening_cancelled_run:
  obtains s where "run listening_cancelled (CallExecutor demo_config) = Some (Return s)"
    and "status (x_result s) = CANCELLED" and "Hangup 603 \<notin> set (sa_log (x_agent s))"
    and "length (filter is_make_call (sa_log (x_agent s))) = 1"
proof -
  from listening_cancelled_run_ex show thesis by (elim exE conjE) (rule that)
qed

section \<open>Property\<close>

text \<open>
  C14: cancelling hangs up the call, with one exception: a run that returns cancelled has requested the
  hang-up, or has placed no call at all, or was cancelled while it listened for silence, where the
  code returns without a request and leaves the call to the destruction of its object.
\<close>

theorem cancelled_run_hangs_up:
  assumes "run w (CallExecutor c) = Some (Return s)" and "status (x_result s) = CANCELLED"
  shows "Hangup 603 \<in> set (sa_log (x_agent s)) \<or> calls (x_agent s) = 0
    \<or> lifecycle Fresh (x_emitted s) = Some Listening"
  using run_accounted [of w c] assms by (simp add: accounted_def hung_up_def)

theorem cancelled_run_hangs_up_witness:
  "\<exists>s. run listening_cancelled (CallExecutor demo_config) = Some (Return s)
     \<and> Hangup 603 \<notin> set (sa_log (x_agent s)) \<and> calls (x_agent s) = 1
     \<and> lifecycle Fresh (x_emitted s) = Some Listening"
proof -
  obtain s where s: "run listening_cancelled (CallExecutor demo_config) = Some (Return s)"
      "status (x_result s) = CANCELLED" "Hangup 603 \<notin> set (sa_log (x_agent s))"
      "length (filter is_make_call (sa_log (x_agent s))) = 1" by (rule listening_cancelled_run)
  from cancelled_run_hangs_up [OF s(1,2)] s show ?thesis by (auto simp: calls_def)
qed

end
