(* ===== verification/Executor_Reasons.thy ===== *)
theory Executor_Reasons
  imports Executor_Outcome Executor_Hangup
begin

text \<open>
  Why a run hangs up: it was cancelled, the answer was overdue, it was silent for long enough, or the
  call had lasted ten minutes. Each phase is an instance of the executor's locales; a hang-up keeps the
  invariant because the code has one of these reasons where it asks for it.
\<close>

section \<open>Reasons\<close>

text \<open>The deadline of the answer is the answer timeout after a reading of the clock.\<close>

definition armed :: "env \<Rightarrow> exec \<Rightarrow> bool" where
  "armed w s \<longleftrightarrow> (\<exists>j < x_tick s. x_answer_deadline_ms s = clock w j + ucast (answer_timeout_s (x_config s)) * 1000)"

text \<open>The moment of the answer is a reading of the clock.\<close>

definition connected_at :: "env \<Rightarrow> nat \<Rightarrow> exec \<Rightarrow> bool" where
  "connected_at w j s \<longleftrightarrow> j < x_tick s \<and> clock w j = x_call_connected_ms s"

text \<open>
  Since that reading the call has lasted ten minutes, or has been silent for long enough: the levels that
  the requests in a part of the log gave, dated by the rounds of the loop, amount to silence.
\<close>

definition lasted :: "env \<Rightarrow> nat \<Rightarrow> exec \<Rightarrow> bool" where
  "lasted w j s \<longleftrightarrow> (\<exists>k. j < k \<and> k < x_tick s \<and> 600000 \<le> clock w k - clock w j)"

definition quiet_since :: "env \<Rightarrow> nat \<Rightarrow> exec \<Rightarrow> bool" where
  "quiet_since w j s \<longleftrightarrow> (\<exists>t log ops rest. j < t \<and> t + 4 * length (heard (pjsip w) log ops) \<le> x_tick s
     \<and> sa_log (x_agent s) = log @ ops @ rest
     \<and> silence_spec (word_of_int (silence_threshold (x_config s))) (silence_s (x_config s) * 1000) (samples w t log ops))"

definition call_over :: "env \<Rightarrow> exec \<Rightarrow> bool" where
  "call_over w s \<longleftrightarrow> (\<exists>j. connected_at w j s \<and> (lasted w j s \<or> quiet_since w j s))"

text \<open>How the executor's state moves on while nothing is hung up.\<close>

definition logged :: "sip_agent \<Rightarrow> sip_agent \<Rightarrow> bool" where
  "logged a b \<longleftrightarrow> (\<exists>ops. sa_log b = sa_log a @ ops) \<and> (sa_call a \<longrightarrow> sa_call b)"

definition onward :: "exec \<Rightarrow> exec \<Rightarrow> bool" where
  "onward s s' \<longleftrightarrow> x_config s' = x_config s \<and> x_answer_deadline_ms s' = x_answer_deadline_ms s
     \<and> x_answer_timeout_hit s' = x_answer_timeout_hit s \<and> x_answered s' = x_answered s
     \<and> x_call_connected_ms s' = x_call_connected_ms s \<and> x_tick s \<le> x_tick s'
     \<and> (x_cancelled s \<longrightarrow> x_cancelled s') \<and> logged (x_agent s) (x_agent s')"

lemma armed_later: "armed w s \<Longrightarrow> onward s s' \<Longrightarrow> armed w s'"
  unfolding armed_def onward_def by (metis order_less_le_trans)

lemma overdue_later: "overdue w s \<Longrightarrow> onward s s' \<Longrightarrow> overdue w s'"
  unfolding overdue_def onward_def by (metis order_less_le_trans)

lemma connected_later: "connected_at w j s \<Longrightarrow> onward s s' \<Longrightarrow> connected_at w j s'"
  by (simp add: connected_at_def onward_def)

lemma call_over_later:
  assumes "call_over w s" and "onward s s'"
  shows "call_over w s'"
proof -
  from assms(1) obtain j where j: "connected_at w j s" and d: "lasted w j s \<or> quiet_since w j s" by (auto simp: call_over_def)
  obtain ops where o: "x_tick s \<le> x_tick s'" "sa_log (x_agent s') = sa_log (x_agent s) @ ops" "x_config s' = x_config s"
    using assms(2) by (auto simp: onward_def logged_def)
  have "lasted w j s'" if "lasted w j s" using that o(1) unfolding lasted_def by (metis order_less_le_trans)
  moreover have "quiet_since w j s'" if "quiet_since w j s"
    using that o unfolding quiet_since_def by (elim exE conjE) (intro exI conjI, assumption, erule (1) order_trans, simp_all)
  ultimately show ?thesis
    using d connected_later [OF j assms(2)] unfolding call_over_def by blast
qed

section \<open>Operations\<close>

definition silent_step :: "sip_agent \<Rightarrow> sip_agent \<Rightarrow> bool" where
  "silent_step a b \<longleftrightarrow> logged a b \<and> (Hangup 603 \<in> set (sa_log b) \<longrightarrow> Hangup 603 \<in> set (sa_log a))"

lemma logged_simps [simp]:
  "logged a a" "logged a b \<Longrightarrow> logged a (pj_log op b)" "logged a (b\<lparr>sa_thread_registered := r\<rparr>) = logged a b"
  "logged a (b\<lparr>sa_ep := r\<rparr>) = logged a b" "logged a (b\<lparr>sa_account := r\<rparr>) = logged a b"
  "logged a b \<Longrightarrow> logged a ((drop_call b)\<lparr>sa_call := True\<rparr>)" "logged a (b\<lparr>sa_recorder := r\<rparr>) = logged a b"
  "logged a (b\<lparr>sa_player := r\<rparr>) = logged a b" "logged a (b\<lparr>sa_call_start_ms := t\<rparr>) = logged a b"
  by (auto simp: logged_def pj_log_def drop_call_def)

lemma silent_simps [simp]:
  "silent_step a a" "silent_step a b \<Longrightarrow> op \<noteq> Hangup 603 \<Longrightarrow> silent_step a (pj_log op b)"
  "silent_step a (b\<lparr>sa_thread_registered := r\<rparr>) = silent_step a b"
  "silent_step a (b\<lparr>sa_ep := r\<rparr>) = silent_step a b" "silent_step a (b\<lparr>sa_account := r\<rparr>) = silent_step a b"
  "silent_step a b \<Longrightarrow> silent_step a ((drop_call b)\<lparr>sa_call := True\<rparr>)" "silent_step a (b\<lparr>sa_recorder := r\<rparr>) = silent_step a b"
  "silent_step a (b\<lparr>sa_player := r\<rparr>) = silent_step a b" "silent_step a (b\<lparr>sa_call_start_ms := t\<rparr>) = silent_step a b"
  by (auto simp: silent_step_def, simp add: drop_call_def split: if_splits)

lemma silent_operations:
  "attempt_post (\<lambda>_. silent_step a) (silent_step a) (init lib a)"
  "attempt_post (\<lambda>_. silent_step a) (silent_step a) (placeCall lib a)"
  "attempt_post (\<lambda>_. silent_step a) (silent_step a) (startRecorder lib path a)"
  "attempt_post (\<lambda>_. silent_step a) (silent_step a) (startPlayer lib path a)"
  "attempt_post (\<lambda>_. silent_step a) (silent_step a) (getRxLevel lib a)"
  "silent_step a (stopRecorder a)"
  by (simp_all add: init_def placeCall_def startRecorder_def startPlayer_def getRxLevel_def libRegisterThread_def
      pj_do_def Let_def drop_player_def stopRecorder_def)

lemma hangup_logs: "attempt_post (\<lambda>_. logged a) (logged a) (hangup lib a)"
  by (simp add: hangup_def libRegisterThread_def pj_do_def)

lemma onward_agent: "logged (x_agent s) a \<Longrightarrow> onward s (s\<lparr>x_agent := a\<rparr>)"
  by (simp add: onward_def)

lemma onward_step [simp]: "onward s (tock w s)" "onward s (snd (waitFor w t s))"
  by (simp_all add: onward_def logged_def)

lemma onward_disconnect [simp]: "onward s (handleDisconnect w code why s)"
  using silent_operations(6) [of "x_agent (tock w s)"] silent_operations(6) [of "x_agent s"]
  by (simp add: onward_def handleDisconnect_def reads updates silent_step_def logged_def)

lemma disconnect_hung [simp]: "hung_up (handleDisconnect w code why s) = hung_up s"
proof -
  have "Hangup 603 \<in> set (sa_log (stopRecorder a)) \<longleftrightarrow> Hangup 603 \<in> set (sa_log a)" for a
    by (simp add: stopRecorder_def)
  then show ?thesis by (simp add: hung_up_def handleDisconnect_def reads updates)
qed

section \<open>The phases\<close>

text \<open>Up to the call, while it is awaited, and from the answer on.\<close>

definition unplaced :: "config \<Rightarrow> exec \<Rightarrow> bool" where
  "unplaced c s \<longleftrightarrow> x_config s = c \<and> (hung_up s \<longrightarrow> x_cancelled s)"

definition waiting :: "config \<Rightarrow> env \<Rightarrow> exec \<Rightarrow> bool" where
  "waiting c w s \<longleftrightarrow> x_config s = c \<and> sa_call (x_agent s) \<and> armed w s \<and> (x_answered s \<longrightarrow> (\<exists>j. connected_at w j s))
     \<and> (hung_up s \<longrightarrow> x_cancelled s \<or> overdue w s)"

definition talking :: "config \<Rightarrow> env \<Rightarrow> exec \<Rightarrow> bool" where
  "talking c w s \<longleftrightarrow> x_config s = c \<and> sa_call (x_agent s) \<and> armed w s \<and> (\<exists>j. connected_at w j s)
     \<and> (hung_up s \<longrightarrow> x_cancelled s \<or> overdue w s \<or> call_over w s)"

text \<open>Nothing is lost as long as the state moves on, and a hang-up only needs its reason.\<close>

lemma unplaced_later: "unplaced c s \<Longrightarrow> onward s s' \<Longrightarrow> (hung_up s' \<Longrightarrow> hung_up s \<or> x_cancelled s) \<Longrightarrow> unplaced c s'"
  by (auto simp: unplaced_def onward_def)

lemma waiting_later:
  assumes "waiting c w s" and "onward s s'" "hung_up s' \<Longrightarrow> hung_up s \<or> x_cancelled s \<or> overdue w s"
  shows "waiting c w s'"
  using assms armed_later [OF _ assms(2)] connected_later [OF _ assms(2)] overdue_later [OF _ assms(2)]
  unfolding waiting_def by (auto simp: onward_def logged_def)

lemma talking_later:
  assumes "talking c w s" and "onward s s'" "hung_up s' \<Longrightarrow> hung_up s \<or> x_cancelled s \<or> overdue w s \<or> call_over w s"
  shows "talking c w s'"
  using assms armed_later [OF _ assms(2)] connected_later [OF _ assms(2)] overdue_later [OF _ assms(2)]
    call_over_later [OF _ assms(2)]
  unfolding talking_def by (auto simp: onward_def logged_def)

text \<open>A call into the agent: one that does not hang up, and the hang-up itself.\<close>

lemma silent_attempt:
  assumes "attempt_post (\<lambda>_. silent_step (x_agent s)) (silent_step (x_agent s)) (f (x_agent s))"
    and "\<And>a. onward s (s\<lparr>x_agent := a\<rparr>) \<Longrightarrow> (hung_up (s\<lparr>x_agent := a\<rparr>) \<Longrightarrow> hung_up s) \<Longrightarrow> I (s\<lparr>x_agent := a\<rparr>)"
  shows "attempt_post (\<lambda>_ a. I (s\<lparr>x_agent := a\<rparr>)) (\<lambda>a. I (s\<lparr>x_agent := a\<rparr>)) (f (x_agent s))"
  using assms by (cases "f (x_agent s)") (simp_all add: silent_step_def hung_up_def onward_agent)

lemma silent_do:
  assumes "attempt_post (\<lambda>_. silent_step (x_agent s)) (silent_step (x_agent s)) (f (x_agent s))"
    and "\<And>a. onward s (s\<lparr>x_agent := a\<rparr>) \<Longrightarrow> (hung_up (s\<lparr>x_agent := a\<rparr>) \<Longrightarrow> hung_up s) \<Longrightarrow> I (s\<lparr>x_agent := a\<rparr>)"
  shows "post I R I (agent_do f s)"
  using silent_attempt [of s f I, OF assms] by (cases "f (x_agent s)") (simp_all add: agent_do_def)

lemma hangup_do:
  assumes "\<And>a. onward s (s\<lparr>x_agent := a\<rparr>) \<Longrightarrow> I (s\<lparr>x_agent := a\<rparr>)"
  shows "post I R I (agent_do (hangup lib) s)"
  using hangup_logs [of "x_agent s" lib] assms
  by (cases "hangup lib (x_agent s)") (simp_all add: agent_do_def onward_agent)

interpretation before_call: exec_setup "unplaced c" "unplaced c" w for c w
proof unfold_locales
  fix s code why t
  assume u: "unplaced c s"
  note later = unplaced_later [OF u]
  show "unplaced c (tock w s)" "unplaced c (snd (waitFor w t s))"
    by (rule later; simp add: hung_up_def)+
  show "unplaced c (handleDisconnect w code why s)" by (rule later) simp_all
  show "post (unplaced c) (unplaced c) (unplaced c) (agent_do (hangup (pjsip w)) s)" if "x_cancelled s"
    by (rule hangup_do, rule later) (use that in simp_all)
  show "attempt_post (\<lambda>_ a. unplaced c (s\<lparr>x_agent := a\<rparr>)) (\<lambda>a. unplaced c (s\<lparr>x_agent := a\<rparr>)) (init (pjsip w) (x_agent s))"
    by (rule silent_attempt, rule silent_operations, rule later) simp_all
qed (simp_all add: unplaced_def hung_up_def)

interpretation awaiting: exec_ring "waiting c w" "waiting c w" w for c w
proof unfold_locales
  fix s code why t
  assume u: "waiting c w s"
  note later = waiting_later [OF u]
  show "waiting c w (tock w s)" "waiting c w (snd (waitFor w t s))"
    by (rule later; simp add: hung_up_def)+
  show "waiting c w (handleDisconnect w code why s)" by (rule later) simp_all
  have hang: "post (waiting c w) (waiting c w) (waiting c w) (agent_do (hangup (pjsip w)) s)" if "x_cancelled s \<or> overdue w s"
    by (rule hangup_do, rule later) (use that in auto)
  show "post (waiting c w) (waiting c w) (waiting c w) (agent_do (hangup (pjsip w)) s)" if "x_cancelled s"
    by (rule hang) (use that in simp)
  show "post (waiting c w) (waiting c w) (waiting c w) (agent_do (hangup (pjsip w)) s)" if "overdue w s"
    by (rule hang) (use that in simp)
next
  fix s ev s' now a
  assume u: "waiting c w s" and s': "s' = snd (waitFor w 500 s)" and now: "now = clock w (x_tick s')"
    and a: "a = setCallStartTime now (x_agent (tock w s'))"
  let ?s = "(tock w s')\<lparr>x_answered := True, x_call_connected_ms := now, x_agent := a\<rparr>"
  have "waiting c w s'" unfolding s' by (rule waiting_later [OF u]) (simp_all add: hung_up_def)
  then have "waiting c w (tock w s')" by (rule waiting_later) (simp_all add: hung_up_def)
  moreover have "connected_at w (x_tick s') ?s" by (simp add: connected_at_def now)
  ultimately show "waiting c w ?s"
    by (auto simp: waiting_def armed_def overdue_def hung_up_def a setCallStartTime_def)
qed (auto simp: waiting_def armed_def overdue_def connected_at_def hung_up_def)

lemma talking_over:
  assumes "talking c w s0" and over: "detected w s0 s \<or> expired w s0 s" and "x_config s = x_config s0"
    "x_call_connected_ms s = x_call_connected_ms s0" "x_tick s0 \<le> x_tick s"
  shows "call_over w s"
proof -
  from assms(1) obtain j where call: "sa_call (x_agent s0)" and j: "j < x_tick s0" "clock w j = x_call_connected_ms s0"
    by (auto simp: talking_def connected_at_def)
  then have "connected_at w j s" using assms(4,5) by (simp add: connected_at_def)
  moreover have "quiet_since w j s" if "detected w s0 s"
    using that call j(1) assms(3) unfolding detected_def quiet_since_def Let_def by auto
  moreover have "lasted w j s" if "expired w s0 s"
    using that j unfolding expired_def lasted_def by (metis order_less_le_trans)
  ultimately show ?thesis using over unfolding call_over_def by blast
qed

interpretation on_line: exec_talk "talking c w" "talking c w" w for c w
proof unfold_locales
  fix s code why t
  assume u: "talking c w s"
  note later = talking_later [OF u]
  show "talking c w (tock w s)" "talking c w (snd (waitFor w t s))"
    by (rule later; simp add: hung_up_def)+
  show "talking c w (handleDisconnect w code why s)" by (rule later) simp_all
  have hang: "post (talking c w) (talking c w) (talking c w) (agent_do (hangup (pjsip w)) s)"
    if "x_cancelled s \<or> call_over w s"
    by (rule hangup_do, rule later) (use that in auto)
  show "post (talking c w) (talking c w) (talking c w) (agent_do (hangup (pjsip w)) s)" if "x_cancelled s"
    by (rule hang) (use that in simp)
  show "post (talking c w) (talking c w) (talking c w) (agent_do (hangup (pjsip w)) s)"
    if "talking c w s0" "detected w s0 s \<or> expired w s0 s" "x_config s = x_config s0"
      "x_call_connected_ms s = x_call_connected_ms s0" "x_tick s0 \<le> x_tick s" for s0
    by (rule hang) (use talking_over [OF that] in simp)
  show "attempt_post (\<lambda>_ a. talking c w (s\<lparr>x_agent := a\<rparr>)) (\<lambda>a. talking c w (s\<lparr>x_agent := a\<rparr>))
      (getRxLevel (pjsip w) (x_agent s))"
    by (rule silent_attempt, rule silent_operations, rule later) simp_all
  have played: "talking c w ((tock w (emitState PLAYING s))\<lparr>x_playback_started_ms := k\<rparr>)" for k
    by (rule later) (simp_all add: onward_def logged_def hung_up_def updates)
  show "post (talking c w) (talking c w) (talking c w) (step_play w s)"
    unfolding step_play_def reads
    by (rule silent_do, rule silent_operations, rule talking_later [OF played], assumption, blast)
  have files: "talking c w (s\<lparr>x_files := fs\<rparr>)" for fs
    by (rule later) (simp_all add: onward_def hung_up_def)
  show "post (talking c w) (talking c w) (talking c w) (step_record w s)"
    unfolding step_record_def Let_def
  proof (rule post_then_do)
    show "post (talking c w) (talking c w) (talking c w) (agent_do (startRecorder (pjsip w) p) (s\<lparr>x_files := fs\<rparr>))" for p fs
      by (rule silent_do, rule silent_operations, rule talking_later [OF files], assumption, blast)
  next
    fix v p assume "talking c w v"
    then show "post (talking c w) (talking c w) (talking c w) (Some (Next (v\<lparr>x_result := (x_result v)\<lparr>recording_path := p\<rparr>\<rparr>)))"
      by (simp, elim talking_later) (simp_all add: onward_def hung_up_def)
  qed
next
  fix s s' :: exec
  assume u: "talking c w s" and same: "x_agent s' = x_agent s" "x_cancelled s' = x_cancelled s" "x_tick s' = x_tick s"
    "x_config s' = x_config s" "x_call_connected_ms s' = x_call_connected_ms s" "x_answered s' = x_answered s"
    "x_answer_timeout_hit s' = x_answer_timeout_hit s" "x_answer_deadline_ms s' = x_answer_deadline_ms s"
  show "talking c w s'" by (rule talking_later [OF u]) (simp_all add: onward_def hung_up_def same)
qed

section \<open>The whole run\<close>

definition justified :: "config \<Rightarrow> env \<Rightarrow> exec \<Rightarrow> bool" where
  "justified c w s \<longleftrightarrow> x_config s = c \<and> (hung_up s \<longrightarrow> x_cancelled s \<or> armed w s \<and> overdue w s \<or> call_over w s)"

lemma run_justified: "post (justified c w) (justified c w) (justified c w) (run w (CallExecutor c))"
proof -
  let ?J = "justified c w"
  have init: "unplaced c (CallExecutor c)"
    by (simp add: unplaced_def hung_up_def CallExecutor_def SipAgent_def)
  have registered: "post (unplaced c) ?J ?J (run_setup w (CallExecutor c))"
    by (rule post_mono [OF before_call.run_setup_keeps [OF init]]) (simp_all add: unplaced_def justified_def)
  have dial: "post (\<lambda>s. unplaced c s \<and> in_call s) ?J ?J (step_dial w s)" if "unplaced c s" for s
  proof (rule post_conj)
    have "unplaced c (emitState DIALING s)" using that by simp
    from unplaced_later [OF this] show "post (unplaced c) (unplaced c) (unplaced c) (step_dial w s)"
      unfolding step_dial_def by (intro silent_do silent_operations) simp_all
    show "post in_call (\<lambda>_. False) (\<lambda>_. True) (step_dial w s)" by (rule dial_in_call)
  qed (simp_all add: unplaced_def justified_def)
  have answer: "post (talking c w) ?J ?J (then_do (step_answer w s) (check_answered w))" if u: "unplaced c s \<and> in_call s" for s
  proof (rule post_mono [OF awaiting.answered_from])
    have "armed w (start_waiting w s)" by (auto simp: armed_def start_waiting_def)
    then show "waiting c w (start_waiting w s)"
      using u tock_cancelled [of s w] by (auto simp: waiting_def unplaced_def start_waiting_def hung_up_def tock_eq)
  qed (auto simp: waiting_def talking_def justified_def on_call_def)
  have play: "post ?J ?J ?J (then_do (run_play w s) (run_end w))" if "talking c w s" for s
    by (rule post_mono [OF on_line.after_answer_keeps [OF that]]) (auto simp: talking_def justified_def)
  have "post (talking c w) ?J ?J (run_dial w s)" if "unplaced c s" for s
    unfolding run_dial_def by (rule post_then_do [OF dial [OF that]]) (rule answer)
  then show ?thesis
    unfolding run_def by (intro post_then_do [OF registered]) (rule post_then_do, assumption, rule play)
qed

text \<open>
  C9: a run never hangs up without a reason. If it has requested a hang-up, however it ended, then it
  was cancelled; or the executor saw the deadline of the answer pass, which is \<open>answer_timeout_s\<close>
  seconds after a reading of the clock; or, counted from the reading at which it handled the answer,
  ten minutes had passed, or the levels that PJSIP gave to consecutive requests, one per round of the
  loop, stayed below the threshold for at least \<open>silence_s\<close> seconds up to the last one.
\<close>

theorem run_hangs_up_for_reason:
  assumes "run w (CallExecutor c) = Some f" and "Hangup 603 \<in> set (sa_log (x_agent (flow_state f)))"
  shows "let s = flow_state f in x_config s = c \<and> (x_cancelled s \<or> armed w s \<and> overdue w s
    \<or> (\<exists>j. connected_at w j s \<and> (lasted w j s \<or> quiet_since w j s)))"
  using post_flow_state [OF run_justified assms(1)] assms(2)
  by (simp add: justified_def hung_up_def call_over_def Let_def)

text \<open>The run that gives up waiting for the answer: no other reason is there.\<close>

lemma heard_nothing: "GetRxLevel \<notin> set ops \<Longrightarrow> GetAudioMedia \<notin> set ops \<Longrightarrow> heard lib log ops = []"
  by (induction ops arbitrary: log) auto

lemma unanswered_run_reason:
  "\<exists>s. run unanswered_call (CallExecutor demo_config) = Some (Return s) \<and> Hangup 603 \<in> set (sa_log (x_agent s))
     \<and> \<not> x_cancelled s \<and> x_call_connected_ms s = 0 \<and> x_tick s < 100
     \<and> GetRxLevel \<notin> set (sa_log (x_agent s)) \<and> GetAudioMedia \<notin> set (sa_log (x_agent s))"
  unfolding unanswered_call_def
  by (simp add: evaluation One_nat_def [symmetric] del: One_nat_def cong: eval_congs)

theorem run_hangs_up_for_reason_witness:
  "\<exists>s. run unanswered_call (CallExecutor demo_config) = Some (Return s) \<and> Hangup 603 \<in> set (sa_log (x_agent s))
     \<and> armed unanswered_call s \<and> overdue unanswered_call s"
proof -
  obtain s where r: "run unanswered_call (CallExecutor demo_config) = Some (Return s)"
      "Hangup 603 \<in> set (sa_log (x_agent s))" "\<not> x_cancelled s" "x_call_connected_ms s = 0" "x_tick s < 100"
      "GetRxLevel \<notin> set (sa_log (x_agent s))" "GetAudioMedia \<notin> set (sa_log (x_agent s))"
    using unanswered_run_reason by blast
  have clock: "unat (clock unanswered_call i) = 3000 * i" if "i < 100" for i
    using that by (simp add: unanswered_call_def scenario_def take_bit_nat_eq_self unsigned_of_nat del: of_nat_mult)
  have "\<not> lasted unanswered_call j s" if "connected_at unanswered_call j s" for j
  proof -
    from that r(4,5) clock [of j] have "clock unanswered_call j = 0" by (simp add: connected_at_def)
    moreover have "\<not> 600000 \<le> clock unanswered_call k" if "k < x_tick s" for k
      using that r(5) clock [of k] by (simp add: word_le_nat_alt)
    ultimately show ?thesis by (auto simp: lasted_def)
  qed
  moreover have "\<not> quiet_since unanswered_call j s" for j
    using r(6,7) by (auto simp: quiet_since_def samples_def heard_nothing silence_spec_def quiet_tail_def)
  ultimately show ?thesis
    using run_hangs_up_for_reason [OF r(1)] r(1-3) by (auto simp: Let_def)
qed

end
