(* ===== verification/Executor_Cause.thy ===== *)
theory Executor_Cause
  imports Executor_Outcome
begin

text \<open>
  Where the result of a run comes from: it is what PJSIP reported while the run went on, or what a clock that
  ran past a timeout forced. Every phase is shown to return with a cause for its result.
\<close>

section \<open>Causes\<close>

text \<open>The wait for the answer of the run of \<open>c\<close> starts with the j-th interaction, a reading of the clock.\<close>

definition waiting_since :: "env \<Rightarrow> config \<Rightarrow> nat \<Rightarrow> bool" where
  "waiting_since w c j \<longleftrightarrow> (\<exists>s0 s1. run_setup w (CallExecutor c) = Some (Next s0) \<and> step_dial w s0 = Some (Next s1)
     \<and> j = x_tick s1)"

definition deadline_passed :: "env \<Rightarrow> config \<Rightarrow> nat \<Rightarrow> bool" where
  "deadline_passed w c n \<longleftrightarrow> (\<exists>j k. waiting_since w c j \<and> j < k \<and> k < n
     \<and> clock w j + ucast (answer_timeout_s c) * 1000 \<le> clock w k)"

definition registration_failed :: "env \<Rightarrow> exec \<Rightarrow> bool" where
  "registration_failed w s \<longleftrightarrow> (let r = x_result s in status r = FAILED \<and>
     (sip_code r = 0 \<and> reason r = ''registration timeout''
        \<and> (\<exists>k > 0. x_tick s = Suc k \<and> 15000 \<le> clock w k - clock w 0)
      \<or> (\<exists>ev. delivered w (x_tick s) ev \<and> ev_type ev = REG_STATE \<and> \<not> ev_connected ev
           \<and> sip_code r = ev_sip_code ev \<and> reason r = ev_reason ev)))"

definition gave_up :: "env \<Rightarrow> config \<Rightarrow> exec \<Rightarrow> bool" where
  "gave_up w c s \<longleftrightarrow> status (x_result s) = NO_ANSWER \<and> reason (x_result s) = ''answer timeout''
     \<and> deadline_passed w c (x_tick s)
     \<and> (\<exists>j k. waiting_since w c j \<and> j < k \<and> x_tick s = Suc k
          \<and> clock w j + ucast (answer_timeout_s c) * 1000 + 10000 \<le> clock w k)"

text \<open>
  The end of the call was reported. While the executor waits for the answer (not both flags of \<open>on_call\<close> are
  set) and has seen the deadline pass, the report counts as an answer timeout; else it is taken as it is.
\<close>

definition ended_by :: "env \<Rightarrow> config \<Rightarrow> exec \<Rightarrow> bool" where
  "ended_by w c s \<longleftrightarrow> (let r = x_result s in
     status r = (if x_call_connected_ms s > 0 then ANSWERED else sipCodeToCallStatus (sip_code r))
     \<and> (\<exists>ev. delivered w (x_tick s) ev \<and> is_disconnect ev
          \<and> (if x_answer_timeout_hit s \<and> \<not> on_call s
             then deadline_passed w c (x_tick s) \<and> sip_code r = 487 \<and> reason r = ''answer timeout''
             else sip_code r = ev_sip_code ev \<and> reason r = ev_reason ev)))"

definition caused :: "env \<Rightarrow> config \<Rightarrow> exec \<Rightarrow> bool" where
  "caused w c s \<longleftrightarrow> status (x_result s) = CANCELLED \<or> registration_failed w s \<or> gave_up w c s \<or> ended_by w c s"

lemma caused_cancelled [simp]:
  "caused w c (set_status CANCELLED s)" "caused w c (set_reason why (set_status CANCELLED s))"
  by (simp_all add: caused_def updates)

section \<open>What the executor knows\<close>

text \<open>What is queued was delivered by now, and the timeout is noted only once the deadline has passed.\<close>

definition known :: "env \<Rightarrow> config \<Rightarrow> exec \<Rightarrow> bool" where
  "known w c s \<longleftrightarrow> queued (delivered w (x_tick s)) s \<and> (x_answer_timeout_hit s \<longrightarrow> deadline_passed w c (x_tick s))"

lemma deadline_later: "deadline_passed w c m \<Longrightarrow> m \<le> n \<Longrightarrow> deadline_passed w c n"
  unfolding deadline_passed_def by (meson order_less_le_trans)

lemma known_fields [simp]:
  "known w c (s\<lparr>x_emitted := es\<rparr>) = known w c s" "known w c (s\<lparr>x_files := fs\<rparr>) = known w c s"
  "known w c (s\<lparr>x_result := r\<rparr>) = known w c s" "known w c (s\<lparr>x_reg_start := t\<rparr>) = known w c s"
  "known w c (s\<lparr>x_answered := b\<rparr>) = known w c s" "known w c (s\<lparr>x_media_active := b\<rparr>) = known w c s"
  "known w c (s\<lparr>x_answer_deadline_ms := t\<rparr>) = known w c s" "known w c (s\<lparr>x_call_connected_ms := t\<rparr>) = known w c s"
  "known w c (s\<lparr>x_play_path := p\<rparr>) = known w c s" "known w c (s\<lparr>x_play_at_ms := t\<rparr>) = known w c s"
  "known w c (s\<lparr>x_playback_started_ms := t\<rparr>) = known w c s"
  "known w c (s\<lparr>x_played := b\<rparr>) = known w c s" "known w c (s\<lparr>x_sd := d\<rparr>) = known w c s"
  "known w c (s\<lparr>x_silent := b\<rparr>) = known w c s"
  "known w c (emitEvent e s) = known w c s" "known w c (emitState st s) = known w c s"
  "known w c (set_status st s) = known w c s" "known w c (set_reason why s) = known w c s"
  "known w c (set_sip_code i s) = known w c s"
  by (simp_all add: known_def queued_def updates)

lemma known_fresh: "known w c s \<Longrightarrow> known w c (s\<lparr>x_answer_timeout_hit := False\<rparr>)"
  by (simp add: known_def queued_def)

lemma known_tock [simp]: "known w c s \<Longrightarrow> known w c (tock w s)"
  using delivered_tock [of w s] deadline_later [of w c "x_tick s" "Suc (x_tick s)"] by (simp add: known_def)

lemma known_waitFor [simp]: "known w c s \<Longrightarrow> known w c (snd (waitFor w t s))"
  using delivered_waitFor [of w s t] deadline_later [of w c "x_tick s" "Suc (x_tick s)"] by (simp add: known_def)

lemma known_event: "known w c s \<Longrightarrow> fst (waitFor w t s) = Some ev \<Longrightarrow> delivered w (Suc (x_tick s)) ev"
  using delivered_waitFor [of w s t] by (simp add: known_def)

lemma known_untouched: "known w c s \<Longrightarrow> untouched P (x_agent s) a \<Longrightarrow> known w c (s\<lparr>x_agent := a\<rparr>)"
  by (simp add: known_def queued_def untouched_def)

lemma on_call_frame [simp]:
  "on_call (tock w s) = on_call s" "on_call (snd (waitFor w t s)) = on_call s"
  "on_call (handleDisconnect w code why s) = on_call s"
  by (simp_all add: on_call_def disconnect_frame) (simp add: handleDisconnect_def reads updates)

lemma disconnect_caused:
  assumes "known w c s" and "fst (waitFor w t s) = Some ev" "is_disconnect ev"
    and "if x_answer_timeout_hit s \<and> \<not> on_call s then code = 487 \<and> why = ''answer timeout''
      else code = ev_sip_code ev \<and> why = ev_reason ev"
  shows "caused w c (handleDisconnect w code why (snd (waitFor w t s)))"
proof -
  let ?s = "handleDisconnect w code why (snd (waitFor w t s))"
  have late: "Suc (x_tick s) \<le> x_tick ?s"
    using disconnect_frame(1) [of "snd (waitFor w t s)" w code why] by simp
  have ev: "delivered w (x_tick ?s) ev" by (rule delivered_later [OF known_event [OF assms(1,2)] late])
  have dl: "x_answer_timeout_hit s \<Longrightarrow> deadline_passed w c (x_tick ?s)"
    using deadline_later [of w c "x_tick s" "x_tick ?s"] assms(1) late by (simp add: known_def)
  have "ended_by w c ?s"
    unfolding ended_by_def Let_def disconnect_result disconnect_frame on_call_frame waitFor_frame
    using assms(3,4) ev dl by auto
  then show ?thesis by (simp add: caused_def)
qed

section \<open>The phases\<close>

definition talks :: "env \<Rightarrow> config \<Rightarrow> exec \<Rightarrow> bool" where
  "talks w c s \<longleftrightarrow> known w c s \<and> status (x_result s) = ANSWERED \<and> on_call s"

lemma talks_simps [simp]:
  "talks w c s \<Longrightarrow> talks w c (tock w s)" "talks w c s \<Longrightarrow> talks w c (snd (waitFor w t s))"
  "talks w c (s\<lparr>x_emitted := es\<rparr>) = talks w c s" "talks w c (s\<lparr>x_files := fs\<rparr>) = talks w c s"
  "talks w c (s\<lparr>x_play_path := p\<rparr>) = talks w c s" "talks w c (s\<lparr>x_play_at_ms := u\<rparr>) = talks w c s"
  "talks w c (s\<lparr>x_playback_started_ms := u\<rparr>) = talks w c s" "talks w c (s\<lparr>x_played := b\<rparr>) = talks w c s"
  "talks w c (s\<lparr>x_sd := d\<rparr>) = talks w c s" "talks w c (s\<lparr>x_silent := b\<rparr>) = talks w c s"
  "talks w c (emitEvent e s) = talks w c s" "talks w c (emitState st s) = talks w c s"
  by (auto simp: talks_def) (simp_all add: on_call_def updates)

lemma talks_agent: "talks w c s \<Longrightarrow> untouched P (x_agent s) a \<Longrightarrow> talks w c (s\<lparr>x_agent := a\<rparr>)"
  by (simp add: talks_def known_untouched on_call_def)

lemma talks_do:
  assumes "attempt_post (\<lambda>_. untouched (\<lambda>_. False) (x_agent s)) (untouched (\<lambda>_. False) (x_agent s)) (f (x_agent s))"
    and "talks w c s"
  shows "post (talks w c) (caused w c) (\<lambda>_. True) (agent_do f s)"
  using assms talks_agent [of w c s "\<lambda>_. False"] by (cases "f (x_agent s)") (simp_all add: agent_do_def)

lemma talks_hangup: "talks w c s \<Longrightarrow> post (talks w c) (caused w c) (\<lambda>_. True) (agent_hangup w s)"
  unfolding agent_hangup_def by (rule talks_do, rule untouched_operations) simp_all

lemma always_hangup: "post (\<lambda>_. True) (caused w c) (\<lambda>_. True) (agent_hangup w s)"
  by (cases "hangup (pjsip w) (x_agent s)") (simp_all add: agent_hangup_def agent_do_def)

text \<open>During the call the report of its end is taken as it is.\<close>

lemma talks_disconnect:
  assumes "talks w c s" and "fst (waitFor w t (tock w s)) = Some ev" "is_disconnect ev"
  shows "caused w c (handleDisconnect w (ev_sip_code ev) (ev_reason ev) (snd (waitFor w t (tock w s))))"
  by (rule disconnect_caused [OF _ assms(2,3)]) (use assms(1) in \<open>simp_all add: talks_def\<close>)

lemma register_caused:
  assumes "known w c s" and "x_reg_start s = clock w 0" "0 < x_tick s"
  shows "post (known w c) (caused w c) (\<lambda>_. True) (loop (register_round w) s)"
proof (rule loop_post [where I = "\<lambda>s. known w c s \<and> x_reg_start s = clock w 0 \<and> 0 < x_tick s"])
  let ?I = "\<lambda>s. known w c s \<and> x_reg_start s = clock w 0 \<and> 0 < x_tick s"
  fix s assume s: "?I s"
  let ?u = "snd (waitFor w 500 (tock w s))"
  have late: "caused w c (emitEvent e (set_reason ''registration timeout'' (set_sip_code 0 (set_status FAILED (tock w ?u)))))"
    if "15000 \<le> clock w (x_tick ?u) - clock w 0" for e
    using that by (auto simp: caused_def registration_failed_def updates)
  have refused: "caused w c (emitEvent e (set_reason (ev_reason ev) (set_sip_code (ev_sip_code ev) (set_status FAILED ?u))))"
    if "fst (waitFor w 500 (tock w s)) = Some ev" "ev_type ev = REG_STATE" "\<not> ev_connected ev" for e ev
    using that known_event [of w c "tock w s" 500 ev] s
    by (auto simp: caused_def registration_failed_def updates)
  show "iter_post ?I (known w c) (caused w c) (\<lambda>_. True) (register_round w s)"
    using s late refused by (auto simp: register_round_def reads split: option.split)
qed (use assms in simp)

lemma drain_caused: "talks w c s \<Longrightarrow> post (talks w c) (caused w c) (\<lambda>_. True) (loop (drain_round w) s)"
proof (rule loop_post [where I = "talks w c"])
  fix s assume s: "talks w c s"
  show "iter_post (talks w c) (talks w c) (caused w c) (\<lambda>_. True) (drain_round w s)"
    using s talks_disconnect [OF s] by (auto simp: drain_round_def reads split: option.split)
qed

lemma playback_caused: "talks w c s \<Longrightarrow> post (talks w c) (caused w c) (\<lambda>_. True) (step_playback w s)"
  unfolding step_playback_def
proof (rule loop_post [where I = "talks w c"])
  fix s assume s: "talks w c s"
  show "iter_post (talks w c) (talks w c) (caused w c) (\<lambda>_. True) (play_round w s)"
    using s talks_disconnect [OF s]
    by (auto simp: play_round_def reads iter_post_Stop intro!: post_then_do [OF talks_hangup] drain_caused split: option.split)
qed simp

lemma silence_caused: "talks w c s \<Longrightarrow> post (talks w c) (caused w c) (\<lambda>_. True) (loop (silence_round w) s)"
proof (rule loop_post [where I = "talks w c"])
  fix s assume s: "talks w c s"
  let ?u = "snd (waitFor w 100 (tock w s))"
  have "attempt_post (\<lambda>_ a. talks w c (?u\<lparr>x_agent := a\<rparr>)) (\<lambda>_. True) (getRxLevel (pjsip w) (x_agent ?u))"
    using untouched_operations(4) [of "\<lambda>_. False" "x_agent ?u" "pjsip w"] s talks_agent [of w c ?u "\<lambda>_. False"]
    by (cases "getRxLevel (pjsip w) (x_agent ?u)") simp_all
  then show "iter_post (talks w c) (talks w c) (caused w c) (\<lambda>_. True) (silence_round w s)"
    using s talks_disconnect [OF s] by (auto simp: silence_round_def reads split: attempt.splits)
qed

text \<open>
  The wait for the answer: the deadline is counted from its first interaction, the j-th.
\<close>

definition awaits :: "env \<Rightarrow> config \<Rightarrow> nat \<Rightarrow> exec \<Rightarrow> bool" where
  "awaits w c j s \<longleftrightarrow> known w c s \<and> \<not> on_call s \<and> (x_answered s \<longrightarrow> status (x_result s) = ANSWERED)
     \<and> waiting_since w c j \<and> j < x_tick s \<and> x_answer_deadline_ms s = clock w j + ucast (answer_timeout_s c) * 1000"

lemma awaits_simps [simp]:
  "awaits w c j s \<Longrightarrow> awaits w c j (tock w s)" "awaits w c j s \<Longrightarrow> awaits w c j (snd (waitFor w t s))"
  "awaits w c j (emitState st s) = awaits w c j s"
  by (auto simp: awaits_def) (simp_all add: on_call_def updates)

lemma awaits_deadline:
  assumes "awaits w c j s"
  shows "post (awaits w c j) (caused w c) (\<lambda>_. True) (deadline_hangup w s)"
proof -
  have agent: "awaits w c j (v\<lparr>x_agent := a\<rparr>)" if "awaits w c j v" "untouched (\<lambda>_. False) (x_agent v) a" for v a
    using that known_untouched [of w c v "\<lambda>_. False" a] by (simp add: awaits_def on_call_def)
  have hang: "post (awaits w c j) (caused w c) (\<lambda>_. True) (agent_hangup w v)" if "awaits w c j v" for v
    using untouched_operations(3) [of "\<lambda>_. False" "x_agent v" "pjsip w"] agent [OF that]
    by (cases "hangup (pjsip w) (x_agent v)") (simp_all add: agent_hangup_def agent_do_def)
  have "awaits w c j ((tock w s)\<lparr>x_answer_timeout_hit := True\<rparr>)" if "x_answer_deadline_ms s \<le> clock w (x_tick s)"
  proof -
    have "deadline_passed w c (Suc (x_tick s))"
      using assms that unfolding deadline_passed_def
      by (intro exI [of _ j] exI [of _ "x_tick s"]) (simp add: awaits_def)
    with awaits_simps(1) [OF assms] show ?thesis by (simp add: awaits_def known_def queued_def on_call_def)
  qed
  with assms show ?thesis by (auto simp: deadline_hangup_def reads intro!: hang)
qed

lemma awaits_net:
  assumes "awaits w c j s"
  shows "post (awaits w c j) (caused w c) (\<lambda>_. True) (safety_net w s)"
proof -
  have "caused w c (emitEvent e (set_reason ''answer timeout'' (set_status NO_ANSWER (tock w s))))"
    if "x_answer_timeout_hit s" "x_answer_deadline_ms s + 10000 \<le> clock w (x_tick s)" for e
  proof -
    have "deadline_passed w c (Suc (x_tick s))"
      using assms that(1) by (auto simp: awaits_def known_def intro: deadline_later)
    moreover have "clock w j + ucast (answer_timeout_s c) * 1000 + 10000 \<le> clock w (x_tick s)"
        "waiting_since w c j" "j < x_tick s" using assms that(2) by (simp_all add: awaits_def)
    ultimately show ?thesis by (auto simp: caused_def gave_up_def updates)
  qed
  with assms show ?thesis by (auto simp: safety_net_def reads)
qed

lemma awaits_event:
  assumes v: "awaits w c j v" and e: "fst (waitFor w 500 v) = Some ev"
  shows "iter_post (awaits w c j) (\<lambda>s. x_cancelled s \<or> talks w c s) (caused w c) (\<lambda>_. True)
    (answer_event w ev (snd (waitFor w 500 v)))"
proof -
  let ?v = "snd (waitFor w 500 v)" and ?u = "tock w (set_status ANSWERED ((snd (waitFor w 500 v))\<lparr>x_answered := True\<rparr>))"
  let ?J = "\<lambda>s. known w c s \<and> (x_answered s \<longrightarrow> status (x_result s) = ANSWERED) \<and> waiting_since w c j \<and> j < x_tick s
    \<and> x_answer_deadline_ms s = clock w j + ucast (answer_timeout_s c) * 1000"
  have check: "iter_post (awaits w c j) (\<lambda>s. x_cancelled s \<or> talks w c s) (caused w c) (\<lambda>_. True) (answer_check s)"
    if "?J s" for s using that by (auto simp: answer_check_def talks_def awaits_def on_call_def)
  have J: "?J ?v" using awaits_simps(2) [OF v, of 500] by (simp add: awaits_def)
  consider "ev_type ev = CALL_STATE" "ev_call_state ev = INV_STATE_CONFIRMED"
    | "ev_type ev = CALL_STATE" "ev_call_state ev = INV_STATE_DISCONNECTED"
    | "\<not> (ev_type ev = CALL_STATE \<and> ev_call_state ev \<in> {INV_STATE_CONFIRMED, INV_STATE_DISCONNECTED})" by blast
  then show ?thesis
  proof cases
    case 1
    have "known w c ?u" using J by simp
    then have "?J (emitState ANSWERED (?u\<lparr>x_call_connected_ms := t, x_agent := setCallStartTime t (x_agent ?u)\<rparr>))" for t
      using J by (simp add: known_def queued_def setCallStartTime_def updates)
    from check [OF this, of "clock w (x_tick ?v)"] 1 show ?thesis
      by (simp add: answer_event_def inv_state_defs reads updates)
  next
    case 2
    then have "is_disconnect ev" by (simp add: is_disconnect_def)
    note ends = disconnect_caused [of w c v, OF _ e this]
    have "caused w c (handleDisconnect w 487 ''answer timeout'' ?v)" if "x_answer_timeout_hit v"
      by (rule ends) (use v that in \<open>simp_all add: awaits_def\<close>)
    moreover have "caused w c (handleDisconnect w (ev_sip_code ev) (ev_reason ev) ?v)" if "\<not> x_answer_timeout_hit v"
      by (rule ends) (use v that in \<open>simp_all add: awaits_def\<close>)
    ultimately show ?thesis using 2 by (simp add: answer_event_def inv_state_defs)
  next
    case 3
    with J show ?thesis by (auto simp: answer_event_def updates intro!: check)
  qed
qed

lemma answer_caused:
  assumes "known w c s" and "x_config s = c" "waiting_since w c (x_tick s)"
  shows "post (\<lambda>s. x_cancelled s \<or> talks w c s) (caused w c) (\<lambda>_. True) (step_answer w s)"
  unfolding step_answer_eq
proof (rule loop_post [where I = "awaits w c (x_tick s)"])
  let ?N = "\<lambda>s. x_cancelled s \<or> talks w c s"
  fix v assume v: "awaits w c (x_tick s) v"
  show "iter_post (awaits w c (x_tick s)) ?N (caused w c) (\<lambda>_. True) (answer_round w v)"
    using v by (auto simp: answer_round_def reads intro!: iter_post_in_body [OF awaits_deadline]
        iter_post_in_body [OF awaits_net] awaits_event split: option.split) simp_all
next
  have "known w c (tock w (s\<lparr>x_answered := False, x_media_active := False, x_answer_timeout_hit := False\<rparr>))"
    using known_fresh [OF assms(1)] by (intro known_tock) (simp add: known_def queued_def)
  then show "awaits w c (x_tick s) (start_waiting w s)"
    using assms(2,3) by (simp add: awaits_def start_waiting_def on_call_def)
qed

section \<open>The whole run\<close>

lemma setup_caused: "post (\<lambda>s. known w c s \<and> x_config s = c) (caused w c) (\<lambda>_. True) (run_setup w (CallExecutor c))"
proof -
  let ?K = "\<lambda>s. known w c s \<and> x_config s = c"
  have init: "post (\<lambda>s. ?K s \<and> x_tick s = 0) (caused w c) (\<lambda>_. True) (step_init w (CallExecutor c))"
    using untouched_operations(1) [of "\<lambda>_. False" "SipAgent c" "pjsip w"] init_ok [of "pjsip w" "SipAgent c"]
    by (cases "init (pjsip w) (SipAgent c)")
      (auto simp: step_init_def CallExecutor_def known_def queued_def untouched_def updates Let_def SipAgent_def)
  have reg: "post ?K (caused w c) (\<lambda>_. True) (step_register w s)" if "?K s \<and> x_tick s = 0" for s
  proof -
    let ?s = "(tock w (emitState REGISTERING s))\<lparr>x_reg_start := clock w 0\<rparr>"
    have "step_register w s = loop (register_round w) ?s"
      using that by (simp add: step_register_def reads updates)
    moreover have "post (\<lambda>v. x_config v = c) (\<lambda>_. True) (\<lambda>_. True) (loop (register_round w) ?s)"
      by (rule loop_post [where I = "\<lambda>v. x_config v = c"])
        (use that in \<open>auto simp: register_round_def reads updates split: option.split\<close>)
    moreover have "post (known w c) (caused w c) (\<lambda>_. True) (loop (register_round w) ?s)"
      by (rule register_caused) (use that in simp_all)
    ultimately show ?thesis
      using post_conj [of "known w c" "caused w c" "\<lambda>_. True" "loop (register_round w) ?s" "\<lambda>v. x_config v = c" "\<lambda>_. True" "\<lambda>_. True"]
      by simp
  qed
  have "post ?K (caused w c) (\<lambda>_. True) (check_not_placed w s)" if "?K s" for s
    using that by (simp add: check_not_placed_def reads)
  then show ?thesis unfolding run_setup_def
    by (intro post_then_do [OF init] post_then_do [OF reg])
qed

lemma dial_caused:
  assumes "known w c s" and "x_config s = c" and set_up: "run_setup w (CallExecutor c) = Some (Next s)"
  shows "post (talks w c) (caused w c) (\<lambda>_. True) (run_dial w s)"
proof -
  have dial: "post (\<lambda>s. known w c s \<and> x_config s = c) (caused w c) (\<lambda>_. True) (step_dial w s)"
    using untouched_operations(2) [of "\<lambda>_. False" "x_agent (emitState DIALING s)" "pjsip w"] assms(1,2)
      known_untouched [of w c "emitState DIALING s" "\<lambda>_. False"]
    by (cases "placeCall (pjsip w) (x_agent (emitState DIALING s))") (simp_all add: step_dial_def agent_do_def, simp_all add: updates)
  have check: "post (talks w c) (caused w c) (\<lambda>_. True) (check_answered w v)" if "x_cancelled v \<or> talks w c v" for v
    using that tock_cancelled [of v w] talks_simps(1) [of w c v]
    by (auto simp: check_answered_def reads failed_status_def talks_def intro!: post_then_do [OF always_hangup])
  have "waiting_since w c (x_tick v)" if "step_dial w s = Some (Next v)" for v
    using that set_up by (auto simp: waiting_since_def)
  then show ?thesis unfolding run_dial_def
    by (intro post_then_do [OF post_here [OF dial]] post_then_do [OF answer_caused] check) auto
qed

lemma play_caused:
  assumes "talks w c s"
  shows "post (talks w c) (caused w c) (\<lambda>_. True) (run_play w s)"
proof -
  have rec: "post (talks w c) (caused w c) (\<lambda>_. True) (step_record w s)"
    unfolding step_record_def Let_def
    by (rule post_then_do [where M = "talks w c"], rule talks_do, rule untouched_recorder)
      (use assms in \<open>simp_all add: talks_def on_call_def\<close>)
  have delay: "post (talks w c) (caused w c) (\<lambda>_. True) (step_delay w (choose_audio w v))" if "talks w c v" for v
    unfolding step_delay_def
    by (rule loop_post [where I = "talks w c"])
      (use that in \<open>auto simp: delay_round_def reads choose_audio_def\<close>)
  have stop: "post (talks w c) (caused w c) (\<lambda>_. True) (hang_up_cancelled w v)" for v
    unfolding hang_up_cancelled_def by (rule post_then_do [OF always_hangup]) simp
  have cancelled: "post (talks w c) (caused w c) (\<lambda>_. True) (check_cancelled w v)" if "talks w c v" for v
    using that stop by (simp add: check_cancelled_def reads)
  have play: "post (talks w c) (caused w c) (\<lambda>_. True) (step_play w v)" if "talks w c v" for v
    unfolding step_play_def reads by (rule talks_do, rule untouched_player) (use that in simp_all)
  have played: "post (talks w c) (caused w c) (\<lambda>_. True) (check_played w v)" if "talks w c v" for v
    using that talks_simps(1) [OF that] stop
    by (auto simp: check_played_def reads failed_status_def, auto simp: talks_def)
  show ?thesis unfolding run_play_def
    by (rule post_then_do [OF rec], rule post_then_do [OF delay], assumption, rule post_then_do [OF cancelled], assumption,
        rule post_then_do [OF play], assumption, rule post_then_do [OF playback_caused], assumption, rule played)
qed

lemma end_caused:
  assumes "talks w c s"
  shows "post (\<lambda>_. False) (caused w c) (\<lambda>_. True) (run_end w s)"
proof -
  have check: "post (talks w c) (caused w c) (\<lambda>_. True) (check_silence w v)" if "talks w c v" for v
    using that by (auto simp: check_silence_def reads intro!: talks_hangup)
  have "talks w c (silence_setup s)" using assms by (simp add: silence_setup_def)
  then show ?thesis unfolding run_end_def step_silence_def step_disconnect_def
    by (intro post_then_do [OF post_then_do [OF silence_caused check]]) (assumption | rule post_then_do [OF drain_caused] | simp)+
qed

text \<open>
  C3: the result of a run is true. A run that returns cancelled was cancelled; any other ended in one of
  these ways. The registration failed: a callback reported during the run that it was refused, and the result
  carries the code and reason of that report; or the clock showed 15 seconds more than when the registration
  was begun. Or the executor gave up waiting for the answer, ten seconds after its deadline. Or a callback
  reported the end of the call during the run: then, if the executor was still waiting for the answer and had
  seen the deadline pass, the result carries 487 and "answer timeout" whatever the report said, and else the
  code and reason of the report; the status is \<open>ANSWERED\<close> if a connect time is noted, and else what the
  code says. A noted answer has as its connect time a clock reading taken right after a \<open>CONFIRMED\<close> was
  taken out of the queue.
\<close>

theorem run_result_caused:
  assumes "run w (CallExecutor c) = Some (Return s)"
  shows "if status (x_result s) = CANCELLED then x_cancelled s
    else registration_failed w s \<or> gave_up w c s \<or> ended_by w c s \<and> connected w c s"
proof -
  have "post (\<lambda>_. False) (caused w c) (\<lambda>_. True) (run w (CallExecutor c))"
    unfolding run_def
    by (rule post_then_do [OF post_here [OF setup_caused]], elim conjE, rule post_then_do [OF dial_caused], assumption+,
        rule post_then_do [OF play_caused], assumption, rule end_caused)
  with assms run_exit_code [OF assms] run_connected [of w c] show ?thesis
    by (auto simp: caused_def statusToExitCode_def connected_before_def)
qed

theorem run_result_caused_witness:
  "\<exists>s ev. run answered_call (CallExecutor demo_config) = Some (Return s) \<and> delivered answered_call (x_tick s) ev
     \<and> is_disconnect ev \<and> (if x_answer_timeout_hit s \<and> \<not> on_call s then sip_code (x_result s) = 487
         else sip_code (x_result s) = ev_sip_code ev)"
proof (rule answered_run)
  fix s
  assume r: "run answered_call (CallExecutor demo_config) = Some (Return s)" "status (x_result s) = ANSWERED"
  from r(2) have "\<not> registration_failed answered_call s" "\<not> gave_up answered_call demo_config s"
    by (simp_all add: registration_failed_def gave_up_def Let_def)
  with run_result_caused [OF r(1)] r(2) have "ended_by answered_call demo_config s" by simp
  with r(1) show ?thesis by (auto simp: ended_by_def Let_def split: if_splits)
qed

end
