(* ===== verification/Executor_Resources.thy ===== *)
theory Executor_Resources
  imports Executor_Safety
begin

text \<open>
  The lifetime of the PJSIP objects a \<open>SipAgent\<close> owns (\<open>src/sip_agent.cpp\<close>), over whole runs of
  \<open>src/call_executor.cpp\<close> and the destructor. An automaton over the log of requests keeps the set of
  objects alive: it rejects a request on an object that does not exist, creating one that already
  exists, and destroying one whose dependents are still alive.
\<close>

section \<open>The automaton\<close>

datatype pj_object = Library | Account | Call | Player | Recorder

fun needs :: "pj_op \<Rightarrow> pj_object set" where
  "needs LibCreate = {}"
| "needs (AccountCreate _ _ _ _) = {Library}"
| "needs (MakeCall _) = {Library, Account}"
| "needs (Hangup _) = {Call}"
| "needs PlayerTransmit = {Player, Call}"
| "needs RecorderTransmit = {Recorder, Call}"
| "needs GetAudioMedia = {Call}"
| "needs GetRxLevel = {Call}"
| "needs DestroyPlayer = {Player}"
| "needs DestroyRecorder = {Recorder}"
| "needs DestroyCall = {Call}"
| "needs AccountShutdown = {Account}"
| "needs DestroyAccount = {Account}"
| "needs _ = {Library}"

fun creates :: "pj_op \<Rightarrow> pj_object set" where
  "creates LibCreate = {Library}"
| "creates (AccountCreate _ _ _ _) = {Account}"
| "creates (MakeCall _) = {Call}"
| "creates (CreatePlayer _) = {Player}"
| "creates (CreateRecorder _) = {Recorder}"
| "creates _ = {}"

fun destroys :: "pj_op \<Rightarrow> pj_object set" where
  "destroys DestroyPlayer = {Player}"
| "destroys DestroyRecorder = {Recorder}"
| "destroys DestroyCall = {Call}"
| "destroys DestroyAccount = {Account}"
| "destroys DestroyEndpoint = {Library}"
| "destroys _ = {}"

text \<open>What must not exist: the object to be created, and whatever depends on the one destroyed.\<close>

fun excludes :: "pj_op \<Rightarrow> pj_object set" where
  "excludes AccountShutdown = {Call}"
| "excludes DestroyAccount = {Call}"
| "excludes LibDestroy = {Account, Call, Player, Recorder}"
| "excludes DestroyEndpoint = {Account, Call, Player, Recorder}"
| "excludes op = creates op"

definition use :: "pj_op \<Rightarrow> pj_object set \<Rightarrow> pj_object set option" where
  "use op live = (if (\<forall>x \<in> needs op. x \<in> live) \<and> (\<forall>x \<in> excludes op. x \<notin> live)
     then Some ((live \<union> creates op) - destroys op) else None)"

fun lifetimes :: "pj_op list \<Rightarrow> pj_object set \<Rightarrow> pj_object set option" where
  "lifetimes [] live = Some live"
| "lifetimes (op # ops) live = Option.bind (use op live) (lifetimes ops)"

lemma lifetimes_append: "lifetimes (xs @ ys) live = Option.bind (lifetimes xs live) (lifetimes ys)"
proof (induction xs arbitrary: live)
  case (Cons op xs)
  then show ?case by (cases "use op live") simp_all
qed simp

section \<open>What an agent owns\<close>

fun owns :: "sip_agent \<Rightarrow> pj_object \<Rightarrow> bool" where
  "owns a Library = sa_ep a"
| "owns a Account = sa_account a"
| "owns a Call = sa_call a"
| "owns a Player = sa_player a"
| "owns a Recorder = sa_recorder a"

text \<open>The owning pointers of the agent say exactly which objects are alive.\<close>

definition tracked :: "sip_agent \<Rightarrow> bool" where
  "tracked a \<longleftrightarrow> lifetimes (sa_log a) {} = Some (Collect (owns a))"

text \<open>After the initialisation the library and the account stay alive for the whole run.\<close>

definition alive :: "sip_agent \<Rightarrow> bool" where
  "alive a \<longleftrightarrow> tracked a \<and> sa_ep a \<and> sa_account a"

lemma tracked_step:
  assumes "tracked a" and "\<forall>x \<in> needs op. owns a x" and "\<forall>x \<in> excludes op. \<not> owns a x"
    and "\<And>x. owns b x \<longleftrightarrow> (owns a x \<or> x \<in> creates op) \<and> x \<notin> destroys op"
    and "sa_log b = sa_log a @ [op]"
  shows "tracked b"
proof -
  have "Collect (owns b) = (Collect (owns a) \<union> creates op) - destroys op" using assms(4) by auto
  with assms show ?thesis by (simp add: tracked_def lifetimes_append use_def)
qed

lemma same_objects:
  assumes "\<And>x. owns b x = owns a x" and "sa_log b = sa_log a"
  shows "tracked b = tracked a"
proof -
  have "owns b = owns a" using assms(1) by (rule ext)
  with assms(2) show ?thesis by (simp add: tracked_def)
qed

lemma owns_fields [simp]:
  "owns (a\<lparr>sa_thread_registered := b\<rparr>) x = owns a x" "owns (pj_log op a) x = owns a x"
  "owns (setCallStartTime t a) x = owns a x" "owns (snd (waitEvent (fold agent_act ts) a)) x = owns a x"
  "owns (agent_act t' a) x = owns a x"
proof -
  show "owns (a\<lparr>sa_thread_registered := b\<rparr>) x = owns a x" by (cases x) simp_all
  show "owns (pj_log op a) x = owns a x" by (cases x) simp_all
  show "owns (setCallStartTime t a) x = owns a x" by (cases x) (simp_all add: setCallStartTime_def)
  show "owns (snd (waitEvent (fold agent_act ts) a)) x = owns a x" by (cases x) simp_all
  show "owns (agent_act t' a) x = owns a x" by (cases x) simp_all
qed

lemma alive_frame [simp]:
  "alive (a\<lparr>sa_thread_registered := b\<rparr>) = alive a" "alive (setCallStartTime t a) = alive a"
  "alive (snd (waitEvent (fold agent_act ts) a)) = alive a" "alive (agent_act t' a) = alive a"
proof -
  have "alive b = alive a" if "\<And>x. owns b x = owns a x" "sa_log b = sa_log a" for b
    using same_objects [OF that] that(1) [of Library] that(1) [of Account] by (simp add: alive_def)
  note same = this
  show "alive (a\<lparr>sa_thread_registered := b\<rparr>) = alive a" by (rule same) simp_all
  show "alive (setCallStartTime t a) = alive a" by (rule same, rule owns_fields) (simp add: setCallStartTime_def)
  show "alive (snd (waitEvent (fold agent_act ts) a)) = alive a" by (rule same) simp_all
  show "alive (agent_act t' a) = alive a" by (rule same) simp_all
qed

text \<open>A request that neither creates nor destroys.\<close>

lemma tracked_log:
  assumes "tracked a" and "creates op = {}" "destroys op = {}" "excludes op = {}" "\<forall>x \<in> needs op. owns a x"
  shows "tracked (pj_log op a)"
  by (rule tracked_step [of a op]) (use assms in auto)

lemma alive_log [simp]:
  "alive a \<Longrightarrow> creates op = {} \<Longrightarrow> destroys op = {} \<Longrightarrow> excludes op = {} \<Longrightarrow> \<forall>x \<in> needs op. owns a x
    \<Longrightarrow> alive (pj_log op a)"
  by (simp add: alive_def tracked_log)

section \<open>Creating and destroying\<close>

text \<open>One object's pointer is set or reset, and the log says so.\<close>

lemma tracked_drop:
  assumes "tracked a"
  shows "tracked (drop_player a)" "tracked (stopRecorder a)" "tracked (drop_call a)"
proof -
  have "owns (pj_log DestroyPlayer (a\<lparr>sa_player := False\<rparr>)) x \<longleftrightarrow> owns a x \<and> x \<noteq> Player"
    "owns (pj_log DestroyRecorder (a\<lparr>sa_recorder := False\<rparr>)) x \<longleftrightarrow> owns a x \<and> x \<noteq> Recorder"
    "owns (pj_log DestroyCall (a\<lparr>sa_call := False\<rparr>)) x \<longleftrightarrow> owns a x \<and> x \<noteq> Call" for x
    by (cases x, simp_all)+
  note owns = this
  show "tracked (drop_player a)" unfolding drop_player_def
    by (split if_split, intro conjI impI, rule tracked_step [of a DestroyPlayer])
      (use assms owns in simp_all)
  show "tracked (stopRecorder a)" unfolding stopRecorder_def
    by (split if_split, intro conjI impI, rule tracked_step [of a DestroyRecorder])
      (use assms owns in simp_all)
  show "tracked (drop_call a)" unfolding drop_call_def
    by (split if_split, intro conjI impI, rule tracked_step [of a DestroyCall])
      (use assms owns in simp_all)
qed

lemma alive_drop [simp]: "alive a \<Longrightarrow> alive (drop_player a)" "alive a \<Longrightarrow> alive (stopRecorder a)"
    "alive a \<Longrightarrow> alive (drop_call a)"
  by (simp_all add: alive_def tracked_drop, simp_all add: drop_player_def stopRecorder_def drop_call_def)

lemma dropped [simp]: "\<not> sa_player (drop_player a)" "\<not> sa_recorder (stopRecorder a)" "\<not> sa_call (drop_call a)"
  by (simp_all add: drop_player_def stopRecorder_def drop_call_def)

lemma alive_create:
  assumes "alive a"
  shows "\<not> sa_call a \<Longrightarrow> alive (pj_log (MakeCall u) (a\<lparr>sa_call := True\<rparr>))"
    and "\<not> sa_player a \<Longrightarrow> alive (pj_log (CreatePlayer p) (a\<lparr>sa_player := True\<rparr>))"
    and "\<not> sa_recorder a \<Longrightarrow> alive (pj_log (CreateRecorder p) (a\<lparr>sa_recorder := True\<rparr>))"
proof -
  have "owns (pj_log (MakeCall u) (a\<lparr>sa_call := True\<rparr>)) x \<longleftrightarrow> owns a x \<or> x = Call"
    "owns (pj_log (CreatePlayer p) (a\<lparr>sa_player := True\<rparr>)) x \<longleftrightarrow> owns a x \<or> x = Player"
    "owns (pj_log (CreateRecorder p) (a\<lparr>sa_recorder := True\<rparr>)) x \<longleftrightarrow> owns a x \<or> x = Recorder" for x
    by (cases x, simp_all)+
  note owns = this
  show "alive (pj_log (MakeCall u) (a\<lparr>sa_call := True\<rparr>))" if "\<not> sa_call a"
    using assms that owns tracked_step [of a "MakeCall u"] by (simp add: alive_def)
  show "alive (pj_log (CreatePlayer p) (a\<lparr>sa_player := True\<rparr>))" if "\<not> sa_player a"
    using assms that owns tracked_step [of a "CreatePlayer p"] by (simp add: alive_def)
  show "alive (pj_log (CreateRecorder p) (a\<lparr>sa_recorder := True\<rparr>))" if "\<not> sa_recorder a"
    using assms that owns tracked_step [of a "CreateRecorder p"] by (simp add: alive_def)
qed

section \<open>The agent's operations\<close>

definition harmless :: "pj_op \<Rightarrow> bool" where
  "harmless op \<longleftrightarrow> creates op = {} \<and> destroys op = {} \<and> excludes op = {}"

lemma alive_seq:
  assumes "alive a" and "\<forall>op \<in> set ops. harmless op \<and> (\<forall>x \<in> needs op. owns a x)"
  shows "attempt_post (\<lambda>_. alive) alive (pj_seq w ops a)" and "alive (caught (pj_seq w ops a))"
proof -
  let ?P = "\<lambda>b. alive b \<and> owns b = owns a"
  have "attempt_post (\<lambda>_. ?P) ?P (pj_seq w ops a)"
  proof (rule pj_seq_post)
    fix op b assume op: "op \<in> set ops" and b: "?P b"
    have "owns (pj_log op b) = owns b" by (rule ext) simp
    with op b assms show "?P (pj_log op b)" by (simp add: harmless_def)
  qed (use assms in simp)
  then show "attempt_post (\<lambda>_. alive) alive (pj_seq w ops a)" "alive (caught (pj_seq w ops a))"
    by (cases "pj_seq w ops a"; simp)+
qed

lemma alive_register: "alive a \<Longrightarrow> attempt_post (\<lambda>_. alive) alive (libRegisterThread w name a)"
proof -
  assume "alive a"
  moreover from this have "sa_ep a" by (simp add: alive_def)
  ultimately show ?thesis by (simp add: libRegisterThread_def pj_do_def)
qed

interpretation object_lifetimes: agent_calls alive lib for lib
proof unfold_locales
  fix a path assume a: "alive a"
  note reg = attempt_post_then [OF alive_register [OF a]]
  show "attempt_post (\<lambda>_. alive) alive (placeCall lib a)"
    unfolding placeCall_def by (rule reg, rule pj_do_post) (simp add: alive_create)
  show "attempt_post (\<lambda>_. alive) alive (hangup lib a)"
    unfolding hangup_def by (rule reg) (simp add: pj_do_def)
  have media: "alive (caught (pj_seq lib [GetAudioMedia, op] b))"
    if "alive b" "sa_call b" "harmless op" "\<forall>x \<in> needs op. owns b x" for op b
    by (rule alive_seq) (use that in \<open>simp_all add: harmless_def\<close>)
  let ?player = "\<lambda>b. alive b \<and> sa_player b" and ?recorder = "\<lambda>b. alive b \<and> sa_recorder b"
  show "attempt_post (\<lambda>_. alive) alive (startPlayer lib path a)"
    unfolding startPlayer_def
  proof (rule reg, rule attempt_post_then [where M = "\<lambda>_. ?player"])
    fix b assume "alive b"
    then show "attempt_post (\<lambda>_. ?player) alive (pj_do lib (CreatePlayer path) ((drop_player b)\<lparr>sa_player := True\<rparr>))"
      by (simp add: pj_do_def alive_create)
  qed (auto intro!: media simp: harmless_def simp del: pj_seq.simps)
  show "attempt_post (\<lambda>_. alive) alive (startRecorder lib path a)"
    unfolding startRecorder_def
  proof (rule reg, rule attempt_post_then [where M = "\<lambda>_. ?recorder"])
    fix b assume "alive b"
    then show "attempt_post (\<lambda>_. ?recorder) alive (pj_do lib (CreateRecorder path) ((stopRecorder b)\<lparr>sa_recorder := True\<rparr>))"
      by (simp add: pj_do_def alive_create)
  qed (auto intro!: media simp: harmless_def simp del: pj_seq.simps)
  show "attempt_post (\<lambda>_. alive) alive (getRxLevel lib a)"
    unfolding getRxLevel_def by (rule reg) (simp add: pj_do_def)
qed simp_all

section \<open>Initialisation and destruction\<close>

lemma objects_eq: "X = Y \<longleftrightarrow> (Library \<in> X \<longleftrightarrow> Library \<in> Y) \<and> (Account \<in> X \<longleftrightarrow> Account \<in> Y)
    \<and> (Call \<in> X \<longleftrightarrow> Call \<in> Y) \<and> (Player \<in> X \<longleftrightarrow> Player \<in> Y) \<and> (Recorder \<in> X \<longleftrightarrow> Recorder \<in> Y)"
proof
  assume R: "(Library \<in> X \<longleftrightarrow> Library \<in> Y) \<and> (Account \<in> X \<longleftrightarrow> Account \<in> Y)
    \<and> (Call \<in> X \<longleftrightarrow> Call \<in> Y) \<and> (Player \<in> X \<longleftrightarrow> Player \<in> Y) \<and> (Recorder \<in> X \<longleftrightarrow> Recorder \<in> Y)"
  have "x \<in> X \<longleftrightarrow> x \<in> Y" for x using R by (cases x) simp_all
  then show "X = Y" by blast
qed simp

lemma tracked_start: "tracked (SipAgent c)"
  by (simp add: tracked_def SipAgent_def objects_eq)

lemma init_tracked: "attempt_post (\<lambda>_. alive) tracked (init lib (SipAgent c))"
  by (simp add: init_def pj_do_def SipAgent_def Let_def alive_def tracked_def use_def pj_log_def objects_eq)

lemma destroy_tracked:
  assumes "tracked a"
  shows "lifetimes (sa_log (destroy lib a)) {} = Some {}"
proof -
  have start: "lifetimes (sa_log a @ ops) {} = lifetimes ops (Collect (owns a))" for ops
    using assms by (simp add: tracked_def lifetimes_append)
  show ?thesis
    unfolding destroy_complete [THEN conjunct1] start
    by (cases "sa_ep a"; cases "sa_player a"; cases "sa_recorder a"; cases "sa_call a"; cases "sa_account a")
      (simp_all add: use_def objects_eq)
qed

section \<open>Property\<close>

lemma run_tracked: "post (\<lambda>s. tracked (x_agent s)) (\<lambda>s. tracked (x_agent s)) (\<lambda>s. tracked (x_agent s))
    (run w (CallExecutor c))"
proof -
  let ?A = "\<lambda>s. alive (x_agent s)" and ?T = "\<lambda>s. tracked (x_agent s)"
  have weak: "post ?T ?T ?T m" if "post ?A ?A ?A m" for m :: "exec flow option"
    using that by (rule post_mono) (simp_all add: alive_def)
  have "post ?A ?T ?T (step_init w (CallExecutor c))"
    using init_tracked [of "pjsip w" c]
    by (cases "init (pjsip w) (SipAgent c)")
      (simp_all add: step_init_def Let_def set_status_def set_reason_def emitEvent_def CallExecutor_def alive_def)
  then show ?thesis unfolding run_def run_setup_def then_do_assoc
    by (rule post_then_do) (rule weak, rule object_lifetimes.from_register_keeps [unfolded then_do_assoc], simp_all)
qed

text \<open>
  C13: objects of PJSIP are used only while they exist, and nothing is leaked: through a whole run, on
  every way it can end, and the destruction of its agent, every request finds the objects it needs
  alive, no object is created twice or destroyed twice, an object is destroyed after those that
  depend on it, and in the end none is left.
\<close>

theorem run_releases_objects:
  assumes "run w (CallExecutor c) = Some f"
  shows "lifetimes (sa_log (destroy lib (x_agent (flow_state f)))) {} = Some {}"
  using post_flow_state [OF run_tracked assms] by (rule destroy_tracked)

theorem run_releases_objects_witness:
  "\<exists>s. run answered_call (CallExecutor demo_config) = Some (Return s)
     \<and> lifetimes (sa_log (destroy quiet_pj (x_agent s))) {} = Some {}"
proof -
  obtain s where r: "run answered_call (CallExecutor demo_config) = Some (Return s)" by (rule answered_run)
  from run_releases_objects [OF r] r show ?thesis by simp
qed

end
