(* ===== verification/Executor_Disconnect.thy ===== *)
theory Executor_Disconnect
  imports Executor_Liveness
begin

text \<open>
  Waiting for an event that PJSIP reports: a phase that stops at it ends when it reaches the queue,
  however many other events are queued before it. The argument is lexicographic: the interactions left
  until the event is pushed, then its distance from the front of the queue. It is used for the
  disconnect here, and for the answer of the registrar in the theory about whole runs.
\<close>

section \<open>An event on its way\<close>

definition reported :: "(internal_event \<Rightarrow> bool) \<Rightarrow> exec \<Rightarrow> bool" where
  "reported P s \<longleftrightarrow> list_ex P (sa_queue (x_agent s))"

definition coming :: "(internal_event \<Rightarrow> bool) \<Rightarrow> env \<Rightarrow> nat \<Rightarrow> exec \<Rightarrow> bool" where
  "coming P w n s \<longleftrightarrow> (\<exists>t \<in> set (others w n). list_ex P (pushed t)) \<and> (n < x_tick s \<longrightarrow> reported P s)"

definition ahead :: "(internal_event \<Rightarrow> bool) \<Rightarrow> exec \<Rightarrow> nat" where
  "ahead P s = length (takeWhile (\<lambda>ev. \<not> P ev) (sa_queue (x_agent s)))"

definition nearer :: "(internal_event \<Rightarrow> bool) \<Rightarrow> nat \<Rightarrow> (exec \<times> exec) set" where
  "nearer P n = inv_image (less_than <*lex*> less_than) (\<lambda>s. (if reported P s then 0 else Suc n - x_tick s, ahead P s))"

lemma wf_nearer: "wf (nearer P n)"
  by (simp add: nearer_def wf_inv_image wf_lex_prod)

lemma nearer_iff: "(s', s) \<in> nearer P n \<longleftrightarrow>
    (let d = \<lambda>s. if reported P s then 0 else Suc n - x_tick s in d s' < d s \<or> d s' = d s \<and> ahead P s' < ahead P s)"
  by (simp add: nearer_def Let_def)

text \<open>Neither farther away: what every interaction guarantees that does not take an event.\<close>

definition no_farther :: "(internal_event \<Rightarrow> bool) \<Rightarrow> nat \<Rightarrow> exec \<Rightarrow> exec \<Rightarrow> bool" where
  "no_farther P n s' s \<longleftrightarrow> (s', s) \<in> nearer P n \<or> (reported P s' \<longleftrightarrow> reported P s) \<and> (reported P s \<or> x_tick s' = x_tick s) \<and> ahead P s' = ahead P s"

lemma nearer_trans [trans]:
  "no_farther P n s2 s1 \<Longrightarrow> (s1, s) \<in> nearer P n \<Longrightarrow> (s2, s) \<in> nearer P n"
  "(s2, s1) \<in> nearer P n \<Longrightarrow> no_farther P n s1 s \<Longrightarrow> (s2, s) \<in> nearer P n"
  by (auto simp: no_farther_def nearer_iff Let_def split: if_splits)

lemma fold_acts_queue: "sa_queue (fold agent_act ts a) = sa_queue a @ concat (map pushed ts)"
  by (induction ts arbitrary: a) (simp_all add: queue_act)

lemma tock_queue: "sa_queue (x_agent (tock w s)) = sa_queue (x_agent s) @ concat (map pushed (others w (x_tick s)))"
  by (simp add: tock_eq fold_acts_queue)

lemma coming_tock [simp]: "coming P w n s \<Longrightarrow> coming P w n (tock w s)"
  by (auto simp: coming_def reported_def tock_queue list_ex_iff less_Suc_eq)

lemma takeWhile_reported:
  "list_ex P xs \<Longrightarrow> takeWhile (\<lambda>x. \<not> P x) (xs @ ys) = takeWhile (\<lambda>x. \<not> P x) xs"
  by (induction xs) auto

lemma tock_no_farther: "coming P w n s \<Longrightarrow> no_farther P n (tock w s) s"
proof (cases "reported P s")
  case True
  then have "reported P (tock w s)" "ahead P (tock w s) = ahead P s"
    by (simp_all add: reported_def ahead_def tock_queue takeWhile_reported)
  with True show ?thesis by (simp add: no_farther_def)
next
  case False
  moreover assume "coming P w n s"
  ultimately have "x_tick s \<le> n" by (auto simp: coming_def)
  with False show ?thesis by (auto simp: no_farther_def nearer_iff Let_def)
qed

lemma waitFor_queue:
  "\<exists>q. waitFor w t s = (case q of [] \<Rightarrow> None | ev # _ \<Rightarrow> Some ev, snd (waitFor w t s))
     \<and> sa_queue (x_agent (snd (waitFor w t s))) = tl q
     \<and> (q = sa_queue (x_agent (tock w s)) \<or> sa_queue (x_agent (tock w s)) = [])"
proof (cases "sa_queue (x_agent (tock w s))")
  case Nil
  let ?q = "sa_queue (fold agent_act (during w (x_tick s)) ((x_agent (tock w s))\<lparr>sa_dispatcher_wake := False\<rparr>))"
  from Nil show ?thesis
    by (intro exI [of _ ?q]) (simp add: waitFor_def waitEvent_def blocks_def Let_def split: list.split)
next
  case (Cons ev q)
  then show ?thesis
    by (intro exI [of _ "ev # q"]) (simp add: waitFor_def waitEvent_def blocks_def Let_def)
qed

lemma waitFor_nearer:
  assumes "coming P w n s"
  obtains ev where "fst (waitFor w t s) = Some ev" "P ev"
  | "coming P w n (snd (waitFor w t s))" "(snd (waitFor w t s), s) \<in> nearer P n"
proof -
  let ?s' = "snd (waitFor w t s)" and ?q1 = "sa_queue (x_agent (tock w s))"
  obtain q where q: "waitFor w t s = (case q of [] \<Rightarrow> None | ev # _ \<Rightarrow> Some ev, ?s')"
      "sa_queue (x_agent ?s') = tl q" "q = ?q1 \<or> ?q1 = []" using waitFor_queue by blast
  have fst: "fst (waitFor w t s) = (case q of [] \<Rightarrow> None | ev # _ \<Rightarrow> Some ev)" using q(1) by (metis fst_conv)
  show thesis
  proof (cases "q \<noteq> [] \<and> P (hd q)")
    case True
    then show thesis by (intro that(1) [of "hd q"]) (auto simp: fst split: list.split)
  next
    case False
    have kept: "reported P ?s'" if "reported P (tock w s)"
    proof -
      have "q = ?q1" using q(3) that by (auto simp: reported_def)
      with that have "list_ex P q" by (simp add: reported_def)
      with False q(2) show ?thesis by (cases q) (simp_all add: reported_def)
    qed
    have "coming P w n (tock w s)" using assms by simp
    then have "coming P w n ?s'" using kept by (auto simp: coming_def)
    moreover have "(?s', s) \<in> nearer P n"
    proof (cases "reported P s")
      case True
      then have "reported P (tock w s)" by (simp add: reported_def tock_queue)
      with q(3) obtain ev q' where "q = ev # q'" "?q1 = q" by (cases q) (auto simp: reported_def)
      moreover have "ahead P (tock w s) = ahead P s"
        using True by (simp add: reported_def ahead_def tock_queue takeWhile_reported)
      ultimately have "ahead P s = Suc (ahead P ?s')" using False q(2) by (simp add: ahead_def)
      with True kept \<open>reported P (tock w s)\<close> show ?thesis by (simp add: nearer_iff)
    next
      case False
      with assms have "x_tick s \<le> n" by (auto simp: coming_def)
      with False show ?thesis by (auto simp: nearer_iff Let_def)
    qed
    ultimately show thesis by (rule that(2))
  qed
qed

section \<open>The phases after the answer\<close>

text \<open>A block that ends, and when it falls through still has the disconnect to come.\<close>

definition ends :: "(internal_event \<Rightarrow> bool) \<Rightarrow> env \<Rightarrow> nat \<Rightarrow> exec flow option \<Rightarrow> bool" where
  "ends P w n m \<longleftrightarrow> returns m \<and> post (coming P w n) (\<lambda>_. True) (\<lambda>_. True) m"

lemma ends_simps [simp]:
  "ends P w n (Some (Next s)) = coming P w n s" "ends P w n (Some (Return s))" "ends P w n (Some (Throw s))"
  by (simp_all add: ends_def)

lemma ends_then_do: "ends P w n m \<Longrightarrow> (\<And>s. coming P w n s \<Longrightarrow> ends P w n (k s)) \<Longrightarrow> ends P w n (then_do m k)"
  unfolding ends_def by (blast intro: returns_then_do post_then_do)

text \<open>One round: it stops, or takes the disconnect nearer.\<close>

definition advances :: "(internal_event \<Rightarrow> bool) \<Rightarrow> env \<Rightarrow> nat \<Rightarrow> exec \<Rightarrow> exec iter option \<Rightarrow> bool" where
  "advances P w n s m \<longleftrightarrow> (\<exists>i. m = Some i \<and>
     (case i of Continue s' \<Rightarrow> coming P w n s' \<and> (s', s) \<in> nearer P n | Stop f \<Rightarrow> ends P w n (Some f)))"

lemma advances_simps [simp]:
  "advances P w n s (Some (Continue s')) \<longleftrightarrow> coming P w n s' \<and> (s', s) \<in> nearer P n"
  "advances P w n s (Some (Stop f)) \<longleftrightarrow> ends P w n (Some f)"
  by (simp_all add: advances_def)

lemma ends_loop:
  assumes body: "\<And>s. coming P w n s \<Longrightarrow> advances P w n s (body s)" and "coming P w n s"
  shows "ends P w n (loop body s)"
  unfolding ends_def
proof
  show "returns (loop body s)"
  proof (rule loop_returns_wf [OF wf_nearer, where I = "coming P w n"])
    show "\<exists>i. body s = Some i \<and> (\<forall>s'. i = Continue s' \<longrightarrow> coming P w n s' \<and> (s', s) \<in> nearer P n)"
      if "coming P w n s" for s
      using body [OF that] by (auto simp: advances_def)
  qed (rule assms)
  show "post (coming P w n) (\<lambda>_. True) (\<lambda>_. True) (loop body s)"
  proof (rule loop_post [where I = "coming P w n"])
    show "iter_post (coming P w n) (coming P w n) (\<lambda>_. True) (\<lambda>_. True) (body s)" if "coming P w n s" for s
    proof -
      note adv = body [OF that]
      obtain i where i: "body s = Some i"
          "case i of Continue s' \<Rightarrow> coming P w n s' \<and> (s', s) \<in> nearer P n | Stop f \<Rightarrow> ends P w n (Some f)"
        using adv by (auto simp: advances_def)
      then show ?thesis by (cases i) (auto simp: iter_post_def ends_def post_def)
    qed
  qed (rule assms)
qed

lemma coming_updates [simp]:
  "coming P w n (emitEvent e s) = coming P w n s" "coming P w n (emitState st s) = coming P w n s"
  "coming P w n (set_status st s) = coming P w n s" "coming P w n (s\<lparr>x_sd := d\<rparr>) = coming P w n s"
  "coming P w n (s\<lparr>x_silent := b\<rparr>) = coming P w n s" "coming P w n (s\<lparr>x_played := b\<rparr>) = coming P w n s"
  by (simp_all add: coming_def reported_def updates)

lemma coming_agent: "coming P w n s \<Longrightarrow> sa_queue a = sa_queue (x_agent s) \<Longrightarrow> coming P w n (s\<lparr>x_agent := a\<rparr>)"
  by (simp add: coming_def reported_def)

lemma hangup_ends: "coming P w n s \<Longrightarrow> ends P w n (agent_hangup w s)"
  using hangup_queue [of "x_agent s" "pjsip w"]
  by (cases "hangup (pjsip w) (x_agent s)") (simp_all add: agent_hangup_def agent_do_def coming_agent)

lemma ends_drain: "coming is_disconnect w n s \<Longrightarrow> ends is_disconnect w n (loop (drain_round w) s)"
proof (rule ends_loop)
  fix s assume s: "coming is_disconnect w n s"
  then have t: "coming is_disconnect w n (tock w s)" by simp
  from waitFor_nearer [OF t, where t = 500] show "advances is_disconnect w n s (drain_round w s)"
    by cases (use t nearer_trans(2) [OF _ tock_no_farther [OF s]] in
      \<open>auto simp: drain_round_def reads split: option.split\<close>)
qed

lemma ends_playback: "coming is_disconnect w n s \<Longrightarrow> ends is_disconnect w n (step_playback w s)"
  unfolding step_playback_def
proof (rule ends_loop)
  fix s assume s: "coming is_disconnect w n s"
  then have t: "coming is_disconnect w n (tock w s)" by simp
  note near = nearer_trans(2) [OF _ tock_no_farther [OF s]]
  have stop: "advances is_disconnect w n s (map_option Stop m)" if "ends is_disconnect w n m" for m
    using that by (auto simp: advances_def ends_def returns_def)
  show "advances is_disconnect w n s (play_round w s)"
    using waitFor_nearer [OF t, where t = 500]
  proof cases
    case (1 ev)
    then have "ev_type ev \<noteq> PLAYBACK_EOF" by (simp add: is_disconnect_def)
    with 1 s t show ?thesis by (auto simp: play_round_def reads)
  next
    case 2
    let ?u = "snd (waitFor w 500 (tock w s))"
    have "(tock w ?u, s) \<in> nearer is_disconnect n"
      by (rule nearer_trans(1) [OF tock_no_farther near]) (rule 2)+
    with 2 s t near show ?thesis
      by (auto simp: play_round_def reads intro!: stop ends_then_do hangup_ends ends_drain split: option.split)
  qed
qed simp

text \<open>What a round keeps after it has taken an event.\<close>

definition closer :: "(internal_event \<Rightarrow> bool) \<Rightarrow> env \<Rightarrow> nat \<Rightarrow> exec \<Rightarrow> exec \<Rightarrow> bool" where
  "closer P w n s s' \<longleftrightarrow> coming P w n s' \<and> (s', s) \<in> nearer P n"

lemma closer_stable [simp]:
  "closer P w n s s' \<Longrightarrow> closer P w n s (tock w s')"
  "closer P w n s s' \<Longrightarrow> sa_queue a = sa_queue (x_agent s') \<Longrightarrow> closer P w n s (s'\<lparr>x_agent := a\<rparr>)"
  "closer P w n s (s'\<lparr>x_sd := d\<rparr>) = closer P w n s s'" "closer P w n s (s'\<lparr>x_silent := b\<rparr>) = closer P w n s s'"
proof -
  show "closer P w n s (tock w s')" if "closer P w n s s'"
    using that nearer_trans(1) [OF tock_no_farther, of P w n s' s] by (simp add: closer_def)
qed (auto simp: closer_def nearer_iff reported_def ahead_def coming_def Let_def)

lemma getRxLevel_queue:
  "attempt_post (\<lambda>_ b. sa_queue b = sa_queue a) (\<lambda>b. sa_queue b = sa_queue a) (getRxLevel lib a)"
  by (simp add: getRxLevel_def libRegisterThread_def pj_do_def)

lemma ends_silence: "coming is_disconnect w n s \<Longrightarrow> ends is_disconnect w n (loop (silence_round w) (silence_setup s))"
proof (rule ends_loop)
  fix s assume s: "coming is_disconnect w n s"
  then have t: "coming is_disconnect w n (tock w s)" by simp
  show "advances is_disconnect w n s (silence_round w s)"
    using waitFor_nearer [OF t, where t = 100]
  proof cases
    case (1 ev)
    with s t show ?thesis by (auto simp: silence_round_def reads)
  next
    case 2
    let ?u = "snd (waitFor w 100 (tock w s))"
    have near: "closer is_disconnect w n s ?u"
      using 2 nearer_trans(2) [OF _ tock_no_farther [OF s]] by (simp add: closer_def)
    have kept: "coming is_disconnect w n v" "(v, s) \<in> nearer is_disconnect n" if "closer is_disconnect w n s v" for v
      using that by (simp_all add: closer_def)
    show ?thesis
      using s t near getRxLevel_queue [of "x_agent ?u" "pjsip w"]
      by (cases "getRxLevel (pjsip w) (x_agent ?u)")
        (auto simp: silence_round_def reads intro!: kept)
  qed
qed (simp add: silence_setup_def)

section \<open>Waiting for the answer\<close>

lemma no_farther_refl [simp]: "no_farther P n s s"
  by (simp add: no_farther_def)

lemma no_farther_trans: "no_farther P n s2 s1 \<Longrightarrow> no_farther P n s1 s \<Longrightarrow> no_farther P n s2 s"
  using nearer_trans(1) [of P n s2 s1 s] nearer_trans(2) [of s2 s1 P n s] by (auto simp: no_farther_def)

definition keeping :: "(internal_event \<Rightarrow> bool) \<Rightarrow> env \<Rightarrow> nat \<Rightarrow> exec \<Rightarrow> exec \<Rightarrow> bool" where
  "keeping P w n s s' \<longleftrightarrow> coming P w n s' \<and> no_farther P n s' s"

lemma keeping_stable:
  "keeping P w n s s' \<Longrightarrow> keeping P w n s (tock w s')"
  "keeping P w n s s' \<Longrightarrow> sa_queue a = sa_queue (x_agent s') \<Longrightarrow> keeping P w n s (s'\<lparr>x_agent := a\<rparr>)"
  "keeping P w n s (s'\<lparr>x_answer_timeout_hit := b\<rparr>) = keeping P w n s s'"
proof -
  show "keeping P w n s (tock w s')" if "keeping P w n s s'"
    using that no_farther_trans [OF tock_no_farther, of P w n s' s] by (simp add: keeping_def)
qed (auto simp: keeping_def no_farther_def nearer_iff reported_def ahead_def coming_def Let_def)

lemma closer_updates [simp]:
  "closer P w n s (emitState st s') = closer P w n s s'" "closer P w n s (set_status st s') = closer P w n s s'"
  "closer P w n s (s'\<lparr>x_answered := b\<rparr>) = closer P w n s s'"
  "closer P w n s (s'\<lparr>x_media_active := b\<rparr>) = closer P w n s s'"
  "closer P w n s (s'\<lparr>x_call_connected_ms := t\<rparr>) = closer P w n s s'"
  by (simp_all add: closer_def nearer_iff reported_def ahead_def coming_def Let_def updates)

lemma advances_in_body:
  assumes "returns m" and "post (keeping P w n s) (\<lambda>_. True) (\<lambda>_. True) m"
    and "\<And>v. keeping P w n s v \<Longrightarrow> advances P w n s (k v)"
  shows "advances P w n s (in_body m k)"
proof (cases m)
  case (Some f)
  with assms show ?thesis by (cases f) simp_all
qed (use assms(1) in simp)

lemma keeping_hangup: "keeping P w n s v \<Longrightarrow> returns (agent_hangup w v)
    \<and> post (keeping P w n s) (\<lambda>_. True) (\<lambda>_. True) (agent_hangup w v)"
  using hangup_queue [of "x_agent v" "pjsip w"]
  by (cases "hangup (pjsip w) (x_agent v)") (simp_all add: agent_hangup_def agent_do_def keeping_stable)

lemma answer_event_advances:
  assumes "closer is_disconnect w n s v" and "\<not> is_disconnect ev"
  shows "advances is_disconnect w n s (answer_event w ev v)"
proof -
  have c: "advances is_disconnect w n s (answer_check u)" if "closer is_disconnect w n s u" for u
    using that by (simp add: answer_check_def closer_def)
  have "ev_type ev = CALL_STATE \<Longrightarrow> ev_call_state ev \<noteq> INV_STATE_DISCONNECTED"
    using assms(2) by (simp add: is_disconnect_def)
  with assms(1) show ?thesis
    by (auto simp: answer_event_def reads setCallStartTime_def intro!: c)
qed

lemma coming_answer [simp]:
  "coming P w n (s\<lparr>x_answered := b\<rparr>) = coming P w n s" "coming P w n (s\<lparr>x_media_active := b\<rparr>) = coming P w n s"
  "coming P w n (s\<lparr>x_answer_timeout_hit := b\<rparr>) = coming P w n s"
  "coming P w n (s\<lparr>x_answer_deadline_ms := t\<rparr>) = coming P w n s"
  by (simp_all add: coming_def reported_def)

lemma ends_answer: "coming is_disconnect w n s \<Longrightarrow> ends is_disconnect w n (step_answer w s)"
  unfolding step_answer_def reads
proof (rule ends_loop)
  fix s assume s: "coming is_disconnect w n s"
  have dl: "returns (deadline_hangup w v) \<and> post (keeping is_disconnect w n s) (\<lambda>_. True) (\<lambda>_. True) (deadline_hangup w v)"
    if "keeping is_disconnect w n s v" for v
  proof -
    have "keeping is_disconnect w n s ((tock w v)\<lparr>x_answer_timeout_hit := True\<rparr>)" "keeping is_disconnect w n s (tock w v)"
      using that by (simp_all add: keeping_stable)
    with that keeping_hangup [OF this(1)] show ?thesis by (simp add: deadline_hangup_def reads)
  qed
  have net: "returns (safety_net w v) \<and> post (keeping is_disconnect w n s) (\<lambda>_. True) (\<lambda>_. True) (safety_net w v)"
    if "keeping is_disconnect w n s v" for v
    using that by (auto simp: safety_net_def reads keeping_stable)
  have last: "advances is_disconnect w n s (case fst (waitFor w 500 v) of None \<Rightarrow> Some (Continue (snd (waitFor w 500 v)))
      | Some ev \<Rightarrow> answer_event w ev (snd (waitFor w 500 v)))" if "keeping is_disconnect w n s v" for v
  proof -
    have v: "coming is_disconnect w n v" using that by (simp add: keeping_def)
    show ?thesis using waitFor_nearer [OF v, where t = 500]
    proof cases
      case (1 ev)
      then show ?thesis by (auto simp: answer_event_def is_disconnect_def INV_STATE_CALLING_def INV_STATE_EARLY_def
            INV_STATE_CONFIRMED_def INV_STATE_DISCONNECTED_def)
    next
      case 2
      let ?u = "snd (waitFor w 500 v)"
      have u: "closer is_disconnect w n s ?u" using 2 that nearer_trans(2) by (auto simp: closer_def keeping_def)
      show ?thesis
      proof (cases "fst (waitFor w 500 v)")
        case None
        with u show ?thesis by (simp add: closer_def)
      next
        case (Some ev)
        with u show ?thesis
          by (cases "is_disconnect ev") (auto simp: answer_event_advances, auto simp: answer_event_def
            is_disconnect_def INV_STATE_CALLING_def INV_STATE_EARLY_def INV_STATE_CONFIRMED_def
            INV_STATE_DISCONNECTED_def)
      qed
    qed
  qed
  show "advances is_disconnect w n s (answer_round w s)"
  proof (cases "x_cancelled (tock w s)")
    case True
    with s show ?thesis by (simp add: answer_round_def reads)
  next
    case False
    have "keeping is_disconnect w n s s" using s by (simp add: keeping_def)
    then have "keeping is_disconnect w n s (tock w s)" by (rule keeping_stable)
    with False dl net last show ?thesis unfolding answer_round_def reads
      by (simp add: advances_in_body)
  qed
qed simp

section \<open>The end of the run\<close>

lemma disconnect_coming:
  assumes "x_tick s \<le> n" and "Callback (OnCallState info) \<in> set (others w n)"
    and "\<And>ci. info = Some ci \<Longrightarrow> ci_state ci = INV_STATE_DISCONNECTED"
  shows "coming is_disconnect w n s"
proof -
  have "list_ex is_disconnect (pushed (Callback (OnCallState info)))"
    using assms(3) by (cases info) (simp_all add: pushed_def onCallState_def pushEvent_def SipAgent_def
        is_disconnect_def InternalEvent_def Let_def)
  with assms(1,2) show ?thesis by (auto simp: coming_def)
qed

lemma ends_run_end: "coming is_disconnect w n s \<Longrightarrow> ends is_disconnect w n (run_end w s)"
proof -
  have silence: "ends is_disconnect w n (check_silence w v)" if "coming is_disconnect w n v" for v
    using that by (auto simp: check_silence_def reads intro!: hangup_ends)
  assume "coming is_disconnect w n s"
  then show ?thesis
    unfolding run_end_def step_silence_def step_disconnect_def
    by (intro ends_then_do [OF ends_then_do [OF ends_silence silence]])
      (assumption | rule ends_then_do [OF ends_drain] | simp)+
qed

end
