(* ===== verification/Executor_Termination.thy ===== *)
theory Executor_Termination
  imports Executor_Disconnect Executor_Outcome
begin

text \<open>
  Whole runs end when PJSIP and the clock do what they promise: the registration is answered, or the
  clock runs past its timeout; then either the end of the call is reported, or it is never answered and
  the clock runs past the answer timeout. No cancellation is needed, and none is excluded. The last section
  shows a run that does not end although its clock goes on: the answered call whose media never starts.
\<close>

section \<open>The registration\<close>

definition is_reg :: "internal_event \<Rightarrow> bool" where
  "is_reg ev \<longleftrightarrow> ev_type ev = REG_STATE"

lemma register_answered: "coming is_reg w n s \<Longrightarrow> returns (loop (register_round w) s)"
proof (rule loop_returns_wf [OF wf_nearer, where I = "coming is_reg w n"])
  fix s assume s: "coming is_reg w n s"
  then have t: "coming is_reg w n (tock w s)" by simp
  let ?u = "snd (waitFor w 500 (tock w s))"
  show "\<exists>i. register_round w s = Some i \<and> (\<forall>s'. i = Continue s' \<longrightarrow> coming is_reg w n s' \<and> (s', s) \<in> nearer is_reg n)"
    using waitFor_nearer [OF t, where t = 500]
  proof cases
    case (1 ev)
    then show ?thesis by (auto simp: register_round_def reads is_reg_def)
  next
    case 2
    have near: "(?u, s) \<in> nearer is_reg n" by (rule nearer_trans(2) [OF 2(2) tock_no_farther [OF s]])
    moreover have "(tock w ?u, s) \<in> nearer is_reg n" by (rule nearer_trans(1) [OF tock_no_farther near]) (rule 2)
    ultimately show ?thesis using 2 by (auto simp: register_round_def reads split: option.split)
  qed
qed

text \<open>From some interaction on no thread pushes an event: the queue only shrinks.\<close>

definition calm :: "env \<Rightarrow> nat \<Rightarrow> bool" where
  "calm w n \<longleftrightarrow> (\<forall>m \<ge> n. \<forall>t \<in> set (others w m) \<union> set (during w m). pushed t = [])"

lemma calm_queue:
  assumes "calm w n" "n \<le> x_tick s"
  shows "sa_queue (x_agent (tock w s)) = sa_queue (x_agent s)"
    and "fst (waitFor w t s) = (case sa_queue (x_agent s) of [] \<Rightarrow> None | ev # _ \<Rightarrow> Some ev)"
    and "sa_queue (x_agent (snd (waitFor w t s))) = tl (sa_queue (x_agent s))"
proof -
  have none: "concat (map pushed (others w (x_tick s))) = []" "concat (map pushed (during w (x_tick s))) = []"
    using assms by (auto simp: calm_def)
  then show tock: "sa_queue (x_agent (tock w s)) = sa_queue (x_agent s)" by (simp add: tock_queue)
  show "fst (waitFor w t s) = (case sa_queue (x_agent s) of [] \<Rightarrow> None | ev # _ \<Rightarrow> Some ev)"
    "sa_queue (x_agent (snd (waitFor w t s))) = tl (sa_queue (x_agent s))"
    using tock
    by (simp_all add: waitFor_def waitEvent_def blocks_def Let_def fold_acts_queue none(2) del: concat_eq_Nil_conv
        split: list.split)
qed

lemma register_times_out:
  assumes "calm w n" and late: "\<And>m. n \<le> m \<Longrightarrow> 15000 \<le> clock w m - x_reg_start s"
  shows "returns (loop (register_round w) s)"
proof (rule loop_returns_wf [OF wf_nearer [of "\<lambda>_. False" n], where I = "\<lambda>v. x_reg_start v = x_reg_start s"])
  fix v :: exec assume v: "x_reg_start v = x_reg_start s"
  let ?u = "snd (waitFor w 500 (tock w v))"
  show "\<exists>i. register_round w v = Some i
      \<and> (\<forall>s'. i = Continue s' \<longrightarrow> x_reg_start s' = x_reg_start s \<and> (s', v) \<in> nearer (\<lambda>_. False) n)"
  proof (cases "n < x_tick v")
    case False
    then have "(?u, v) \<in> nearer (\<lambda>_. False) n" "(tock w ?u, v) \<in> nearer (\<lambda>_. False) n"
      by (auto simp: nearer_iff reported_def list_ex_iff Let_def)
    with v show ?thesis by (auto simp: register_round_def reads split: option.split)
  next
    case True
    note q = calm_queue(1) [OF assms(1), of v] calm_queue(2,3) [OF assms(1), of "tock w v" 500]
    show ?thesis
    proof (cases "sa_queue (x_agent v)")
      case Nil
      with True q v late [of "x_tick ?u"] show ?thesis by (auto simp: register_round_def reads)
    next
      case (Cons ev evs)
      with True q have "(?u, v) \<in> nearer (\<lambda>_. False) n"
        by (simp add: nearer_iff reported_def ahead_def list_ex_iff Let_def)
      with True q v Cons show ?thesis by (auto simp: register_round_def reads)
    qed
  qed
qed simp

definition registration_decided :: "env \<Rightarrow> bool" where
  "registration_decided w \<longleftrightarrow> (\<exists>n code why. Callback (OnRegState code why) \<in> set (others w n))
     \<or> (\<exists>n. calm w n \<and> (\<forall>m \<ge> n. 15000 \<le> clock w m - clock w 0))"

lemma register_ends:
  assumes "registration_decided w" and "x_tick s = 0"
  shows "returns (step_register w s)"
proof -
  let ?s = "(tock w (emitState REGISTERING s))\<lparr>x_reg_start := clock w 0\<rparr>"
  have s: "step_register w s = loop (register_round w) ?s"
    using assms(2) by (simp add: step_register_def reads)
  from assms(1) consider n code why where "Callback (OnRegState code why) \<in> set (others w n)"
    | n where "calm w n" "\<forall>m \<ge> n. 15000 \<le> clock w m - clock w 0"
    unfolding registration_decided_def by blast
  then show ?thesis
  proof cases
    case 1
    have "list_ex is_reg (pushed (Callback (OnRegState code why)))"
      by (simp add: pushed_def onRegState_def pushEvent_def SipAgent_def is_reg_def InternalEvent_def)
    with 1 assms(2) have "coming is_reg w n (emitState REGISTERING s)" by (auto simp: coming_def)
    then have "coming is_reg w n (tock w (emitState REGISTERING s))" by simp
    then have "coming is_reg w n ?s" by (simp add: coming_def reported_def)
    then show ?thesis unfolding s by (rule register_answered)
  next
    case 2
    from 2(1) show ?thesis unfolding s by (rule register_times_out [of w n ?s]) (use 2(2) in simp)
  qed
qed

lemma setup_ends:
  assumes "registration_decided w"
  shows "returns (run_setup w (CallExecutor c))"
proof -
  have start: "returns (step_init w (CallExecutor c)) \<and> post (\<lambda>s. x_tick s = 0) (\<lambda>_. True) (\<lambda>_. True) (step_init w (CallExecutor c))"
    by (cases "init (pjsip w) (x_agent (set_status FAILED (CallExecutor c)))")
      (simp_all add: step_init_def Let_def CallExecutor_def updates)
  have "returns (then_do (step_register w s) (check_not_placed w))" if "x_tick s = 0" for s
    by (rule returns_then_do [OF register_ends [OF assms that], of "\<lambda>_. True" "\<lambda>_. True" "\<lambda>_. True"])
      (simp_all add: post_def flow_post_def check_not_placed_def reads split: option.split flow.split)
  then show ?thesis unfolding run_setup_def by (rule returns_then_do [OF start [THEN conjunct1] start [THEN conjunct2]])
qed

section \<open>The call\<close>

lemma ends_agent_do:
  assumes "attempt_post (\<lambda>_. untouched (\<lambda>_. False) (x_agent s)) (untouched (\<lambda>_. False) (x_agent s)) (f (x_agent s))"
    and "coming P w n s"
  shows "ends P w n (agent_do f s)"
  using assms by (cases "f (x_agent s)") (simp_all add: agent_do_def untouched_def coming_agent)

lemma ends_frame:
  "returns m \<and> post M (\<lambda>_. True) (\<lambda>_. True) m \<Longrightarrow> (\<And>s. M s \<Longrightarrow> ends P w n (k s)) \<Longrightarrow> ends P w n (then_do m k)"
  unfolding ends_def by (blast intro: returns_then_do post_then_do)

lemma ends_dial:
  assumes "coming is_disconnect w n s"
  shows "ends is_disconnect w n (run_dial w s)"
proof -
  have "ends is_disconnect w n (step_dial w s)" unfolding step_dial_def
    by (rule ends_agent_do, rule untouched_operations) (simp_all add: assms)
  moreover have "ends is_disconnect w n (check_answered w v)" if "coming is_disconnect w n v" for v
    using that by (auto simp: check_answered_def reads intro!: ends_then_do hangup_ends)
  ultimately show ?thesis unfolding run_dial_def by (blast intro: ends_then_do ends_answer)
qed

lemma ends_delay:
  assumes "coming is_disconnect w n s"
    and late: "\<And>k. m \<le> k \<Longrightarrow> x_call_connected_ms s + ucast (answer_delay_s (x_config s)) * 1000 \<le> clock w k"
  shows "ends is_disconnect w n (step_delay w s)"
  unfolding ends_def step_delay_def
proof
  let ?t = "x_call_connected_ms s + ucast (answer_delay_s (x_config s)) * 1000"
  show "returns (loop (delay_round w) (s\<lparr>x_play_at_ms := ?t\<rparr>))"
  proof (rule loop_returns_by_tick [where K = "\<lambda>v. x_play_at_ms v = ?t" and n = m])
    fix v :: exec assume "x_play_at_ms v = ?t"
    then show "\<exists>i. delay_round w v = Some i
        \<and> (\<forall>s'. i = Continue s' \<longrightarrow> x_play_at_ms s' = ?t \<and> x_tick v < x_tick s' \<and> x_tick v \<le> m)"
      using late [of "x_tick v"] by (cases "m \<le> x_tick v") (auto simp: delay_round_def reads)
  qed simp
  show "post (coming is_disconnect w n) (\<lambda>_. True) (\<lambda>_. True) (loop (delay_round w) (s\<lparr>x_play_at_ms := ?t\<rparr>))"
    by (rule loop_post [where I = "coming is_disconnect w n"])
      (use assms(1) in \<open>auto simp: delay_round_def reads, simp add: coming_def reported_def\<close>)
qed

lemma ends_play:
  assumes s: "coming is_disconnect w n s"
    and late: "\<And>k. m \<le> k \<Longrightarrow> x_call_connected_ms s + ucast (answer_delay_s (x_config s)) * 1000 \<le> clock w k"
  shows "ends is_disconnect w n (run_play w s)"
proof -
  let ?D = is_disconnect
  let ?M = "\<lambda>v. coming ?D w n v \<and> x_call_connected_ms v = x_call_connected_ms s \<and> x_config v = x_config s"
  let ?s = "s\<lparr>x_files := x_files s @ [Mkdir (record_dir (x_config s))]\<rparr>"
  have rec: "returns (step_record w s) \<and> post ?M (\<lambda>_. True) (\<lambda>_. True) (step_record w s)"
    using s untouched_recorder [of "\<lambda>_. False" "x_agent s" "pjsip w" "recording_file ?s"]
    by (cases "startRecorder (pjsip w) (recording_file ?s) (x_agent s)")
      (simp_all add: step_record_def agent_do_def Let_def untouched_def coming_def reported_def)
  have delay: "ends ?D w n (step_delay w (choose_audio w v))" if "?M v" for v
  proof (rule ends_delay [where m = m])
    show "coming ?D w n (choose_audio w v)"
      using that by (simp add: choose_audio_def coming_def reported_def Let_def case_prod_unfold)
    show "x_call_connected_ms (choose_audio w v) + ucast (answer_delay_s (x_config (choose_audio w v))) * 1000 \<le> clock w k"
      if "m \<le> k" for k
      using late [OF that] \<open>?M v\<close> by (simp add: choose_audio_def Let_def case_prod_unfold)
  qed
  have cancelled: "ends ?D w n (check_cancelled w v)" if "coming ?D w n v" for v
    using that by (auto simp: check_cancelled_def hang_up_cancelled_def reads intro!: ends_then_do hangup_ends)
  have play: "ends ?D w n (step_play w v)" if "coming ?D w n v" for v
    unfolding step_play_def reads
    by (rule ends_agent_do, rule untouched_player) (use that in \<open>simp_all add: coming_def reported_def updates tock_queue, auto simp: less_Suc_eq list_ex_iff\<close>)
  have played: "ends ?D w n (check_played w v)" if "coming ?D w n v" for v
    using that by (auto simp: check_played_def hang_up_cancelled_def reads intro!: ends_then_do hangup_ends)
  have rest: "ends ?D w n (then_do (step_delay w (choose_audio w v)) (\<lambda>s. then_do (check_cancelled w s)
      (\<lambda>s. then_do (step_play w s) (\<lambda>s. then_do (step_playback w s) (check_played w)))))" if "?M v" for v
    by (rule ends_then_do [OF delay [OF that]], rule ends_then_do [OF cancelled], assumption,
        rule ends_then_do [OF play], assumption, rule ends_then_do [OF ends_playback], assumption, rule played)
  from rec rest show ?thesis unfolding run_play_def by (rule ends_frame)
qed

section \<open>Runs that end\<close>

text \<open>The configuration never changes.\<close>

definition configured :: "config \<Rightarrow> exec \<Rightarrow> bool" where
  "configured c s \<longleftrightarrow> x_config s = c"

lemma configured_do: "configured c s \<Longrightarrow> post (configured c) (configured c) (configured c) (agent_do f s)"
  by (cases "f (x_agent s)") (simp_all add: agent_do_def configured_def)

lemma configured_record: "configured c s \<Longrightarrow> post (configured c) (configured c) (configured c) (step_record w s)"
  unfolding step_record_def Let_def
  by (rule post_then_do [where M = "configured c"], rule configured_do) (simp_all add: configured_def)

lemma configured_play: "configured c s \<Longrightarrow> post (configured c) (configured c) (configured c) (step_play w s)"
  unfolding step_play_def reads by (rule configured_do) (simp add: configured_def updates)

interpretation configuration: exec_invariant "configured c" "configured c" w for c w
  by unfold_locales (simp_all add: configured_do configured_record configured_play,
      simp_all add: configured_def disconnect_frame attempt_always)

lemma dialled_config:
  assumes "run_setup w (CallExecutor c) = Some (Next s)" and "run_dial w s = Some (Next s')"
  shows "x_config s' = c"
proof -
  have "configured c (CallExecutor c)" by (simp add: configured_def CallExecutor_def)
  from configuration.run_setup_keeps [OF this, of w] assms(1) have "configured c (emitState DIALING s)" by simp
  from configured_do [OF this] have "post (configured c) (configured c) (configured c) (run_dial w s)"
    unfolding run_dial_def step_dial_def by (rule post_then_do) (rule configuration.answer_keeps)
  with assms(2) show ?thesis by (simp add: configured_def)
qed

text \<open>
  What PJSIP and the clock do, as conditions on the environment and the configuration, for the callers of
  \<open>run()\<close>: PJSIP reports the outcome of the registration (or the clock runs past its timeout) and the end of a
  placed call; the clock passes the answer delay of an answered call for good.
\<close>

definition outcome_reported :: "env \<Rightarrow> config \<Rightarrow> bool" where
  "outcome_reported w c \<longleftrightarrow> registration_decided w
     \<and> (\<forall>s. run_setup w (CallExecutor c) = Some (Next s) \<longrightarrow> (\<exists>n \<ge> x_tick s. \<exists>info.
          Callback (OnCallState info) \<in> set (others w n) \<and> (\<forall>ci. info = Some ci \<longrightarrow> ci_state ci = INV_STATE_DISCONNECTED)))"

definition delay_passes :: "env \<Rightarrow> config \<Rightarrow> bool" where
  "delay_passes w c \<longleftrightarrow> (\<forall>s s'. run_setup w (CallExecutor c) = Some (Next s) \<longrightarrow> run_dial w s = Some (Next s')
          \<longrightarrow> (\<exists>m. \<forall>k \<ge> m. x_call_connected_ms s' + ucast (answer_delay_s c) * 1000 \<le> clock w k))"

lemma outcome_ends:
  assumes "outcome_reported w c" and "delay_passes w c"
  shows "\<exists>f. run w (CallExecutor c) = Some f \<and> (\<forall>s. f \<noteq> Next s)"
proof -
  note decided = assms(1) [unfolded outcome_reported_def, THEN conjunct1]
    and ended = assms(1) [unfolded outcome_reported_def, THEN conjunct2, rule_format]
    and late = assms(2) [unfolded delay_passes_def, rule_format]
  let ?D = is_disconnect
  obtain f where f: "run_setup w (CallExecutor c) = Some f" using setup_ends [OF decided] by (auto simp: returns_def)
  have "returns (run w (CallExecutor c))"
  proof (cases f)
    case (Next s)
    with f obtain n info where n: "x_tick s \<le> n" "Callback (OnCallState info) \<in> set (others w n)"
      "\<And>ci. info = Some ci \<Longrightarrow> ci_state ci = INV_STATE_DISCONNECTED" using ended by blast
    have dial: "ends ?D w n (run_dial w s)" by (rule ends_dial, rule disconnect_coming) (use n in auto)
    have "returns (then_do (run_dial w s) (\<lambda>s. then_do (run_play w s) (run_end w)))"
    proof (cases "run_dial w s")
      case None
      with dial show ?thesis by (simp add: ends_def)
    next
      case (Some g)
      show ?thesis
      proof (cases g)
        case (Next s')
        with Some dial have "coming ?D w n s'" by simp
        moreover obtain m where "\<forall>k \<ge> m. x_call_connected_ms s' + ucast (answer_delay_s (x_config s')) * 1000 \<le> clock w k"
          using late f Some \<open>f = Next s\<close> Next dialled_config by blast
        ultimately have "ends ?D w n (run_play w s')" by (intro ends_play) auto
        from ends_then_do [OF this ends_run_end] show ?thesis using Some Next by (simp add: ends_def)
      qed (simp_all add: Some)
    qed
    with f Next show ?thesis by (simp add: run_def)
  qed (use f in \<open>simp_all add: run_def\<close>)
  with never_falls_through [of w c] show ?thesis by (fastforce simp: returns_def)
qed

text \<open>
  C25: a run ends when PJSIP keeps its promises: the registration is decided (the registrar's answer is reported,
  or it stays silent past the timeout); once the call is being placed a callback reports its end, at
  any later moment; and if the call is answered the clock passes the answer delay. Then \<open>run()\<close> returns,
  or lets an exception of PJSIP out, whatever else is reported in between, whatever PJSIP answers, with
  or without a cancellation.
\<close>

theorem reported_call_ends:
  assumes "registration_decided w"
    and ended: "\<And>s. run_setup w (CallExecutor c) = Some (Next s) \<Longrightarrow> \<exists>n \<ge> x_tick s. \<exists>info.
      Callback (OnCallState info) \<in> set (others w n) \<and> (\<forall>ci. info = Some ci \<longrightarrow> ci_state ci = INV_STATE_DISCONNECTED)"
    and late: "\<And>s s'. run_setup w (CallExecutor c) = Some (Next s) \<Longrightarrow> run_dial w s = Some (Next s')
      \<Longrightarrow> \<exists>m. \<forall>k \<ge> m. x_call_connected_ms s' + ucast (answer_delay_s c) * 1000 \<le> clock w k"
  shows "\<exists>f. run w (CallExecutor c) = Some f \<and> (\<forall>s. f \<noteq> Next s)"
  using assms by (intro outcome_ends) (simp_all add: outcome_reported_def delay_passes_def)

text \<open>
  C26: a call that is never answered ends, without any report from PJSIP about it: if the registration is
  decided, \<open>CONFIRMED\<close> is never delivered, and the clock passes the answer timeout and the ten seconds of
  grace for good, counted from the moment the call is placed, then \<open>run()\<close> returns, or lets an
  exception of PJSIP out. The grace added to the deadline is assumed not to wrap in 64 bits.
\<close>

theorem unanswered_call_ends:
  assumes "registration_decided w" and never: "never_answered w"
    and late: "\<And>s. run_setup w (CallExecutor c) = Some (Next s)
      \<Longrightarrow> \<exists>n. \<forall>m \<ge> n. clock w (x_tick s) + ucast (answer_timeout_s c) * 1000 + 10000 \<le> clock w m"
    and no_wrap: "\<And>s. run_setup w (CallExecutor c) = Some (Next s)
      \<Longrightarrow> clock w (x_tick s) + ucast (answer_timeout_s c) * 1000 \<le> clock w (x_tick s) + ucast (answer_timeout_s c) * 1000 + 10000"
  shows "\<exists>f. run w (CallExecutor c) = Some f \<and> (\<forall>s. f \<noteq> Next s)"
proof -
  let ?Q = "\<lambda>v. ringing w v \<and> configured c v"
  have start: "ringing w (CallExecutor c)" "configured c (CallExecutor c)"
    by (simp_all add: ringing_def queued_def made_def configured_def CallExecutor_def SipAgent_def)
  obtain f where f: "run_setup w (CallExecutor c) = Some f" using setup_ends [OF assms(1)] by (auto simp: returns_def)
  have "returns (run w (CallExecutor c))"
  proof (cases f)
    case (Next s)
    with f have s: "run_setup w (CallExecutor c) = Some (Next s)" by simp
    from ringing.run_setup_keeps [OF start(1)] configuration.run_setup_keeps [OF start(2), of w]
    have q: "?Q (emitState DIALING s)" unfolding s by (simp add: configured_def updates)
    have dial: "post (\<lambda>v. ?Q v \<and> x_tick v = x_tick s) (\<lambda>_. True) (\<lambda>_. True) (step_dial w s)"
      using q untouched_operations(2) [of is_media "x_agent (emitState DIALING s)" "pjsip w"]
        ringing_untouched [of w "emitState DIALING s"]
      by (cases "placeCall (pjsip w) (x_agent (emitState DIALING s))")
        (simp_all add: step_dial_def agent_do_def configured_def)
    have answer: "returns (then_do (step_answer w v) (check_answered w))
        \<and> post (\<lambda>_. False) (\<lambda>_. True) (\<lambda>_. True) (then_do (step_answer w v) (check_answered w))"
      if "?Q v \<and> x_tick v = x_tick s" for v
    proof
      obtain n where "\<forall>m \<ge> n. clock w (x_tick s) + ucast (answer_timeout_s c) * 1000 + 10000 \<le> clock w m"
        using late [OF s] by blast
      then have "\<exists>f. step_answer w v = Some f"
        using that never no_wrap [OF s]
        by (intro unanswered_wait_ends [of n]) (auto simp: configured_def ringing_def never_answered_def)
      then have "returns (step_answer w v)" by (auto simp: returns_def)
      then show "returns (then_do (step_answer w v) (check_answered w))"
        by (rule returns_then_do [of _ "\<lambda>_. True" "\<lambda>_. True" "\<lambda>_. True"])
          (auto simp: post_def flow_post_def check_answered_def reads agent_hangup_def agent_do_def
            split: option.split flow.split attempt.split)
      show "post (\<lambda>_. False) (\<lambda>_. True) (\<lambda>_. True) (then_do (step_answer w v) (check_answered w))"
        by (rule post_mono [OF ringing.answer_done [of w v]]) (use that never in \<open>auto simp: on_call_def ringing_def\<close>)
    qed
    have "returns (step_dial w s)"
      by (cases "placeCall (pjsip w) (x_agent (emitState DIALING s))") (simp_all add: step_dial_def agent_do_def)
    from returns_then_do [OF this dial answer [THEN conjunct1]] have "returns (run_dial w s)" by (simp add: run_dial_def)
    moreover from post_then_do [OF dial answer [THEN conjunct2]]
    have "post (\<lambda>_. False) (\<lambda>_. True) (\<lambda>_. True) (run_dial w s)" by (simp add: run_dial_def)
    ultimately have "returns (then_do (run_dial w s) (\<lambda>s. then_do (run_play w s) (run_end w)))"
      by (rule returns_then_do) simp
    with s show ?thesis by (simp add: run_def)
  qed (use f in \<open>simp_all add: run_def\<close>)
  with never_falls_through [of w c] show ?thesis by (fastforce simp: returns_def)
qed

text \<open>
  For the witnesses: a clock that jumps once, a call whose end is reported, and one of which nothing is
  heard after the registration.
\<close>

definition jump :: "nat \<Rightarrow> env \<Rightarrow> env" where
  "jump n w = w\<lparr>clock := \<lambda>i. if i < n then 5 else 90000\<rparr>"

definition ended_call :: env where
  "ended_call = jump 12 (scenario
     [(2, [Callback (OnRegState 200 ''OK'')]),
      (7, [Callback (OnCallState (call_in 5 200 ''OK'' []))]),
      (10, [Callback (OnCallMediaState (call_in 5 200 ''OK'' [\<lparr>mi_audio = True, mi_active = True\<rparr>]))]),
      (28, [Callback (OnCallState (call_in 6 200 ''OK'' []))])])"

definition silent_peer :: env where
  "silent_peer = jump 40 (scenario [(2, [Callback (OnRegState 200 ''OK'')])])"

lemma jump_simps: "clock (jump n w) i = (if i < n then 5 else 90000)" "others (jump n w) = others w"
  "during (jump n w) = during w" "pjsip (jump n w) = pjsip w"
  by (simp_all add: jump_def)

lemma ended_call_dialled:
  "\<exists>s s'. run_setup ended_call (CallExecutor demo_config) = Some (Next s) \<and> x_tick s \<le> 28
     \<and> run_dial ended_call s = Some (Next s') \<and> x_call_connected_ms s' = 5"
  unfolding ended_call_def
  by (simp add: jump_simps evaluation One_nat_def [symmetric] del: One_nat_def cong: eval_congs)

lemma silent_peer_registered:
  "\<exists>s. run_setup silent_peer (CallExecutor demo_config) = Some (Next s) \<and> x_tick s < 40"
  unfolding silent_peer_def
  by (simp add: jump_simps evaluation One_nat_def [symmetric] del: One_nat_def cong: eval_congs)

theorem reported_call_ends_witness:
  "\<exists>f. run ended_call (CallExecutor demo_config) = Some f"
proof -
  obtain s s' where s: "run_setup ended_call (CallExecutor demo_config) = Some (Next s)" "x_tick s \<le> 28"
    "run_dial ended_call s = Some (Next s')" "x_call_connected_ms s' = 5"
    using ended_call_dialled by blast
  have "Callback (OnRegState 200 ''OK'') \<in> set (others ended_call 2)"
    by (simp add: ended_call_def jump_simps scenario_def)
  then have "registration_decided ended_call" unfolding registration_decided_def by blast
  moreover have "Callback (OnCallState (call_in 6 200 ''OK'' [])) \<in> set (others ended_call 28)"
    by (simp add: ended_call_def jump_simps scenario_def)
  then have "\<exists>n \<ge> x_tick s. \<exists>info. Callback (OnCallState info) \<in> set (others ended_call n)
      \<and> (\<forall>ci. info = Some ci \<longrightarrow> ci_state ci = INV_STATE_DISCONNECTED)"
    using s(2) by (intro exI [of _ 28] conjI exI [of _ "call_in 6 200 ''OK'' []"])
      (simp_all add: call_in_def inv_state_defs)
  moreover have "\<forall>k \<ge> 12. x_call_connected_ms s' + ucast (answer_delay_s demo_config) * 1000 \<le> clock ended_call k"
    using s(4) by (simp add: ended_call_def jump_simps demo_config_simps)
  ultimately have "\<exists>f. run ended_call (CallExecutor demo_config) = Some f \<and> (\<forall>s. f \<noteq> Next s)"
    by (intro reported_call_ends) (use s in auto)
  then show ?thesis by blast
qed

theorem unanswered_call_ends_witness:
  "\<exists>f. run silent_peer (CallExecutor demo_config) = Some f"
proof -
  obtain s where s: "run_setup silent_peer (CallExecutor demo_config) = Some (Next s)" "x_tick s < 40"
    using silent_peer_registered by blast
  have "Callback (OnRegState 200 ''OK'') \<in> set (others silent_peer 2)"
    by (simp add: silent_peer_def jump_simps scenario_def)
  then have "registration_decided silent_peer" unfolding registration_decided_def by blast
  moreover have "never_answered silent_peer"
    by (auto simp: never_answered_def delivers_def confirmed_def pushed_def silent_peer_def jump_simps scenario_def
        onRegState_def pushEvent_def InternalEvent_def SipAgent_def split: if_splits)
  moreover have "clock silent_peer (x_tick s) + ucast (answer_timeout_s demo_config) * 1000 + 10000 \<le> clock silent_peer m"
    if "40 \<le> m" for m
    using s(2) that by (simp add: silent_peer_def jump_simps demo_config_simps)
  moreover have "clock silent_peer (x_tick s) + ucast (answer_timeout_s demo_config) * 1000
      \<le> clock silent_peer (x_tick s) + ucast (answer_timeout_s demo_config) * 1000 + 10000"
    using s(2) by (simp add: silent_peer_def jump_simps demo_config_simps)
  ultimately show ?thesis
    using unanswered_call_ends [of silent_peer demo_config] s by auto
qed

section \<open>A run that never ends\<close>

text \<open>What the other threads push satisfies \<open>P\<close>, and so does all that is queued.\<close>

definition hears :: "(internal_event \<Rightarrow> bool) \<Rightarrow> env \<Rightarrow> exec \<Rightarrow> bool" where
  "hears P w s \<longleftrightarrow> (delivers P w \<longrightarrow> queued P s)"

lemma hears_untouched: "hears P w s \<Longrightarrow> untouched Q (x_agent s) a \<Longrightarrow> hears P w (s\<lparr>x_agent := a\<rparr>)"
  by (simp add: hears_def queued_def untouched_def)

lemma hears_tock [simp]: "hears P w s \<Longrightarrow> hears P w (tock w s)"
  using queued_tock [of P w s] by (simp add: hears_def)

lemma hears_waitFor [simp]: "hears P w s \<Longrightarrow> hears P w (snd (waitFor w t s))"
  using queued_waitFor [of P w s t] by (simp add: hears_def)

interpretation hearing: exec_invariant "hears P w" "\<lambda>_. True" w for P w
proof unfold_locales
  fix s path ev s' now a
  assume h: "hears P w s"
  note keeps = untouched_keeps [of "\<lambda>_. False" s "hears P w", OF _ hears_untouched [OF h]]
  have hang: "post (hears P w) (\<lambda>_. True) (hears P w) (agent_do (hangup (pjsip w)) s)" by (rule keeps) simp
  show "post (hears P w) (\<lambda>_. True) (hears P w) (agent_do (hangup (pjsip w)) s)"
    and "post (hears P w) (\<lambda>_. True) (hears P w) (agent_do (hangup (pjsip w)) s)"
    and "post (hears P w) (\<lambda>_. True) (hears P w) (agent_do (hangup (pjsip w)) s)" by (rule hang)+
  show "post (hears P w) (\<lambda>_. True) (hears P w) (agent_do (placeCall (pjsip w)) s)" by (rule keeps) simp
  show "post (hears P w) (\<lambda>_. True) (hears P w) (step_record w s)"
    by (rule untouched_keeps_recorder [of "\<lambda>_. False"]) (use h in \<open>simp_all add: hears_def queued_def untouched_def\<close>)
  have "hears P w ((tock w (emitState PLAYING s))\<lparr>x_playback_started_ms := t\<rparr>)" for t
    using hears_tock [of P w "emitState PLAYING s"] h by (simp add: hears_def queued_def updates)
  then show "post (hears P w) (\<lambda>_. True) (hears P w) (step_play w s)"
    unfolding step_play_def reads
    by (intro untouched_do [where P = "\<lambda>_. False"] untouched_player hears_untouched) simp_all
  show "attempt_post (\<lambda>_ a. hears P w (s\<lparr>x_agent := a\<rparr>)) (\<lambda>a. hears P w (s\<lparr>x_agent := a\<rparr>)) (init (pjsip w) (x_agent s))"
    by (rule keeps) simp
  show "attempt_post (\<lambda>_ a. hears P w (s\<lparr>x_agent := a\<rparr>)) (\<lambda>a. hears P w (s\<lparr>x_agent := a\<rparr>)) (getRxLevel (pjsip w) (x_agent s))"
    by (rule keeps) simp
next
  fix s ev s' now a
  assume h: "hears P w s" and s': "s' = snd (waitFor w 500 s)" and a: "a = setCallStartTime now (x_agent (tock w s'))"
  have "hears P w (tock w s')" using h s' by simp
  then show "hears P w ((tock w s')\<lparr>x_answered := True, x_call_connected_ms := now, x_agent := a\<rparr>)"
    by (simp add: hears_def queued_def a setCallStartTime_def)
qed (simp_all, simp_all add: hears_def queued_def)

text \<open>
  C28: an answered call whose media never becomes active is not bounded by any timeout. Assume that PJSIP
  reports neither the end of the call nor active media, that nobody cancels, and that the executor has noted
  the answer at the start of a round of the wait for it in which it has not yet seen the answer deadline pass:
  then the run never ends, however far the clock advances. Where the deadline was seen to pass before the
  answer, the safety net still ends the run.
\<close>

theorem answered_without_media_hangs:
  assumes "no_cancel w" and "delivers bystander w"
    and "waits_from w c r" "x_answered r" "\<not> x_answer_timeout_hit r"
  shows "run w (CallExecutor c) = None"
proof -
  have "hears bystander w (CallExecutor c)" "spared w (CallExecutor c)"
    by (simp_all add: hears_def queued_def spared_def CallExecutor_def SipAgent_def)
  then have "queued bystander r" "\<not> x_cancelled r"
    using hearing.I_waits_from [OF assms(3)] uncancelled.I_waits_from [OF assms(3)] assms(1,2)
    by (simp_all add: hears_def spared_def)
  moreover have "\<not> x_media_active r" using waits_from_open [OF assms(3)] assms(4) by (simp add: on_call_def)
  ultimately have "loop (answer_round w) r = None" using assms by (intro answered_wait_diverges)
  moreover obtain s0 s1 where s: "run_setup w (CallExecutor c) = Some (Next s0)" "step_dial w s0 = Some (Next s1)"
    and "makes_round (answer_round w) (start_waiting w s1) r"
    using assms(3) by (auto simp: waits_from_def)
  ultimately have "step_answer w s1 = None" by (simp add: step_answer_eq loop_from_round)
  with s show ?thesis by (simp add: run_def run_dial_def then_do_def)
qed

text \<open>A call that is answered and then forgotten, for the witness.\<close>

definition forgotten_call :: env where
  "forgotten_call = scenario
     [(2, [Callback (OnRegState 200 ''OK'')]), (7, [Callback (OnCallState (call_in 5 200 ''OK'' []))])]"

lemma forgotten_answer: "\<exists>r. waits_from forgotten_call demo_config r \<and> x_answered r \<and> \<not> x_answer_timeout_hit r"
proof -
  have "\<exists>s0. run_setup forgotten_call (CallExecutor demo_config) = Some (Next s0)
      \<and> (\<exists>s1. step_dial forgotten_call s0 = Some (Next s1)
      \<and> (\<exists>r. answer_round forgotten_call (start_waiting forgotten_call s1) = Some (Continue r)
      \<and> x_answered r \<and> \<not> x_answer_timeout_hit r))"
    unfolding forgotten_call_def
    by (simp add: evaluation start_waiting_def One_nat_def [symmetric] del: One_nat_def cong: eval_congs)
  then show ?thesis unfolding waits_from_def by (meson first_round later_round)
qed

theorem answered_without_media_hangs_witness: "run forgotten_call (CallExecutor demo_config) = None"
proof -
  obtain r where r: "waits_from forgotten_call demo_config r" "x_answered r" "\<not> x_answer_timeout_hit r"
    using forgotten_answer by blast
  have "no_cancel forgotten_call" "delivers bystander forgotten_call"
    by (auto simp: no_cancel_def delivers_def forgotten_call_def scenario_def call_in_def pushed_def bystander_def
        is_disconnect_def onRegState_def onCallState_def pushEvent_def InternalEvent_def SipAgent_def inv_state_defs
        split: if_splits)
  from answered_without_media_hangs [OF this r] show ?thesis .
qed

end
