(* ===== verification/Executor_Config.thy ===== *)
theory Executor_Config
  imports Executor_Rules
begin

text \<open>
  Which settings a run of \<open>src/call_executor.cpp\<close> depends on. Two runs whose configurations differ only
  in settings the executor and the agent never read proceed in lockstep: replacing the configuration
  commutes with every operation, hence with every phase, every loop and the whole run. The settings
  that turn out to be without effect are the mode, the caller id, the recording flag, the listening
  address and the idle limit.
\<close>

section \<open>Replacing the configuration\<close>

definition reconfigured :: "(config \<Rightarrow> config) \<Rightarrow> sip_agent \<Rightarrow> sip_agent" where
  "reconfigured h a = a\<lparr>sa_config := h (sa_config a)\<rparr>"

definition reconfigure :: "(config \<Rightarrow> config) \<Rightarrow> exec \<Rightarrow> exec" where
  "reconfigure h s = s\<lparr>x_config := h (x_config s), x_agent := reconfigured h (x_agent s)\<rparr>"

lemma reconfigured_frame [simp]:
  "sa_config (reconfigured h a) = h (sa_config a)" "sa_call_id (reconfigured h a) = sa_call_id a"
  "sa_log (reconfigured h a) = sa_log a" "sa_call (reconfigured h a) = sa_call a"
  "sa_player (reconfigured h a) = sa_player a" "sa_recorder (reconfigured h a) = sa_recorder a"
  "sa_queue (reconfigured h a) = sa_queue a" "sa_dispatcher_wake (reconfigured h a) = sa_dispatcher_wake a"
  "sa_thread_registered (reconfigured h a) = sa_thread_registered a"
  by (simp_all add: reconfigured_def)

lemma reconfigured_updates [simp]:
  "(reconfigured h a)\<lparr>sa_ep := b\<rparr> = reconfigured h (a\<lparr>sa_ep := b\<rparr>)"
  "(reconfigured h a)\<lparr>sa_account := b\<rparr> = reconfigured h (a\<lparr>sa_account := b\<rparr>)"
  "(reconfigured h a)\<lparr>sa_call := b\<rparr> = reconfigured h (a\<lparr>sa_call := b\<rparr>)"
  "(reconfigured h a)\<lparr>sa_player := b\<rparr> = reconfigured h (a\<lparr>sa_player := b\<rparr>)"
  "(reconfigured h a)\<lparr>sa_recorder := b\<rparr> = reconfigured h (a\<lparr>sa_recorder := b\<rparr>)"
  "(reconfigured h a)\<lparr>sa_thread_registered := b\<rparr> = reconfigured h (a\<lparr>sa_thread_registered := b\<rparr>)"
  "(reconfigured h a)\<lparr>sa_dispatcher_wake := b\<rparr> = reconfigured h (a\<lparr>sa_dispatcher_wake := b\<rparr>)"
  "(reconfigured h a)\<lparr>sa_queue := q\<rparr> = reconfigured h (a\<lparr>sa_queue := q\<rparr>)"
  "(reconfigured h a)\<lparr>sa_last_sip_code := i\<rparr> = reconfigured h (a\<lparr>sa_last_sip_code := i\<rparr>)"
  "(reconfigured h a)\<lparr>sa_call_start_ms := t\<rparr> = reconfigured h (a\<lparr>sa_call_start_ms := t\<rparr>)"
  "(reconfigured h a)\<lparr>sa_log := l\<rparr> = reconfigured h (a\<lparr>sa_log := l\<rparr>)"
  by (rule sip_agent.equality; simp add: reconfigured_def)+

lemma reconfigured_callback [simp]: "run_callback cb (reconfigured h a) = reconfigured h (run_callback cb a)"
  by (cases cb) (simp_all add: onRegState_def onCallState_def onCallMediaState_def onEof2_def pushEvent_def
      Let_def split: option.split)

lemma reconfigured_acts [simp]: "fold agent_act ts (reconfigured h a) = reconfigured h (fold agent_act ts a)"
proof (induction ts arbitrary: a)
  case (Cons t ts)
  then show ?case by (cases t) (simp_all add: wakeDispatcher_def)
qed simp

lemma reconfigured_wait [simp]:
  "waitEvent (fold agent_act ts) (reconfigured h a)
     = map_prod id (reconfigured h) (waitEvent (fold agent_act ts) a)"
  by (simp add: waitEvent_def blocks_def Let_def split: list.split)

lemma reconfigured_stop [simp]:
  "stopRecorder (reconfigured h a) = reconfigured h (stopRecorder a)"
  "drop_call (reconfigured h a) = reconfigured h (drop_call a)"
  "drop_player (reconfigured h a) = reconfigured h (drop_player a)"
  "pj_log op (reconfigured h a) = reconfigured h (pj_log op a)"
  "setCallStartTime t (reconfigured h a) = reconfigured h (setCallStartTime t a)"
  by (simp_all add: stopRecorder_def drop_call_def drop_player_def pj_log_def setCallStartTime_def)

section \<open>Calls into PJSIP\<close>

abbreviation attempt_reconfigured :: "(config \<Rightarrow> config) \<Rightarrow> ('r, sip_agent) attempt \<Rightarrow> ('r, sip_agent) attempt" where
  "attempt_reconfigured h \<equiv> map_attempt id (reconfigured h)"

lemma attempt_then_map:
  assumes "\<And>a. k' (reconfigured h a) = attempt_reconfigured h (k a)"
  shows "attempt_then (attempt_reconfigured h m) k' = attempt_reconfigured h (attempt_then m k)"
  using assms by (cases m) simp_all

lemma caught_map [simp]: "caught (map_attempt f (reconfigured h) m) = reconfigured h (caught m)"
  by (cases m) simp_all

lemma pj_do_reconfigured [simp]: "pj_do w op (reconfigured h a) = attempt_reconfigured h (pj_do w op a)"
  by (simp add: pj_do_def)

lemma pj_seq_reconfigured [simp]: "pj_seq w ops (reconfigured h a) = attempt_reconfigured h (pj_seq w ops a)"
  by (induction ops arbitrary: a) (simp_all add: attempt_then_map)

lemma register_reconfigured [simp]:
  "libRegisterThread w name (reconfigured h a) = attempt_reconfigured h (libRegisterThread w name a)"
  by (simp add: libRegisterThread_def attempt_then_map)

lemma agent_calls_reconfigured [simp]:
  "hangup w (reconfigured h a) = attempt_reconfigured h (hangup w a)"
  "startPlayer w path (reconfigured h a) = attempt_reconfigured h (startPlayer w path a)"
  "startRecorder w path (reconfigured h a) = attempt_reconfigured h (startRecorder w path a)"
  "getRxLevel w (reconfigured h a) = attempt_reconfigured h (getRxLevel w a)"
  by (simp_all add: hangup_def startPlayer_def startRecorder_def getRxLevel_def attempt_then_map
      split: attempt.split)

section \<open>The executor\<close>

lemma reconfigure_frame [simp]:
  "x_config (reconfigure h s) = h (x_config s)" "x_agent (reconfigure h s) = reconfigured h (x_agent s)"
  "x_cancelled (reconfigure h s) = x_cancelled s" "x_result (reconfigure h s) = x_result s"
  "x_call_connected_ms (reconfigure h s) = x_call_connected_ms s"
  "x_emitted (reconfigure h s) = x_emitted s" "x_files (reconfigure h s) = x_files s"
  "x_tick (reconfigure h s) = x_tick s" "x_reg_start (reconfigure h s) = x_reg_start s"
  "x_answered (reconfigure h s) = x_answered s" "x_media_active (reconfigure h s) = x_media_active s"
  "x_answer_timeout_hit (reconfigure h s) = x_answer_timeout_hit s"
  "x_answer_deadline_ms (reconfigure h s) = x_answer_deadline_ms s"
  "x_play_path (reconfigure h s) = x_play_path s" "x_play_at_ms (reconfigure h s) = x_play_at_ms s"
  "x_played (reconfigure h s) = x_played s" "x_sd (reconfigure h s) = x_sd s"
  "x_silent (reconfigure h s) = x_silent s"
  by (simp_all add: reconfigure_def)

lemma reconfigure_updates [simp]:
  "(reconfigure h s)\<lparr>x_agent := reconfigured h a\<rparr> = reconfigure h (s\<lparr>x_agent := a\<rparr>)"
  "(reconfigure h s)\<lparr>x_cancelled := b\<rparr> = reconfigure h (s\<lparr>x_cancelled := b\<rparr>)"
  "(reconfigure h s)\<lparr>x_result := r\<rparr> = reconfigure h (s\<lparr>x_result := r\<rparr>)"
  "(reconfigure h s)\<lparr>x_call_connected_ms := t\<rparr> = reconfigure h (s\<lparr>x_call_connected_ms := t\<rparr>)"
  "(reconfigure h s)\<lparr>x_playback_started_ms := t\<rparr> = reconfigure h (s\<lparr>x_playback_started_ms := t\<rparr>)"
  "(reconfigure h s)\<lparr>x_emitted := es\<rparr> = reconfigure h (s\<lparr>x_emitted := es\<rparr>)"
  "(reconfigure h s)\<lparr>x_files := fs\<rparr> = reconfigure h (s\<lparr>x_files := fs\<rparr>)"
  "(reconfigure h s)\<lparr>x_tick := n\<rparr> = reconfigure h (s\<lparr>x_tick := n\<rparr>)"
  "(reconfigure h s)\<lparr>x_reg_start := t\<rparr> = reconfigure h (s\<lparr>x_reg_start := t\<rparr>)"
  "(reconfigure h s)\<lparr>x_answered := b\<rparr> = reconfigure h (s\<lparr>x_answered := b\<rparr>)"
  "(reconfigure h s)\<lparr>x_media_active := b\<rparr> = reconfigure h (s\<lparr>x_media_active := b\<rparr>)"
  "(reconfigure h s)\<lparr>x_answer_timeout_hit := b\<rparr> = reconfigure h (s\<lparr>x_answer_timeout_hit := b\<rparr>)"
  "(reconfigure h s)\<lparr>x_answer_deadline_ms := t\<rparr> = reconfigure h (s\<lparr>x_answer_deadline_ms := t\<rparr>)"
  "(reconfigure h s)\<lparr>x_play_path := p\<rparr> = reconfigure h (s\<lparr>x_play_path := p\<rparr>)"
  "(reconfigure h s)\<lparr>x_play_at_ms := t\<rparr> = reconfigure h (s\<lparr>x_play_at_ms := t\<rparr>)"
  "(reconfigure h s)\<lparr>x_played := b\<rparr> = reconfigure h (s\<lparr>x_played := b\<rparr>)"
  "(reconfigure h s)\<lparr>x_sd := d\<rparr> = reconfigure h (s\<lparr>x_sd := d\<rparr>)"
  "(reconfigure h s)\<lparr>x_silent := b\<rparr> = reconfigure h (s\<lparr>x_silent := b\<rparr>)"
  by (rule exec.equality; simp add: reconfigure_def)+

lemma reconfigure_tock [simp]: "tock w (reconfigure h s) = reconfigure h (tock w s)"
  by (simp add: tock_eq)

lemma reconfigure_reads [simp]:
  "isCancelled w (reconfigure h s) = map_prod id (reconfigure h) (isCancelled w s)"
  "nowMs w (reconfigure h s) = map_prod id (reconfigure h) (nowMs w s)"
  "waitFor w t (reconfigure h s) = map_prod id (reconfigure h) (waitFor w t s)"
  by (simp_all add: isCancelled_def nowMs_def waitFor_def Let_def case_prod_unfold)

lemma reconfigure_emit [simp]:
  "emitEvent ev (reconfigure h s) = reconfigure h (emitEvent ev s)"
  "emitState st (reconfigure h s) = reconfigure h (emitState st s)"
  "set_status st (reconfigure h s) = reconfigure h (set_status st s)"
  "set_reason why (reconfigure h s) = reconfigure h (set_reason why s)"
  "set_sip_code code (reconfigure h s) = reconfigure h (set_sip_code code s)"
  by (simp_all add: updates)

lemma reconfigure_disconnect [simp]:
  "handleDisconnect w code why (reconfigure h s) = reconfigure h (handleDisconnect w code why s)"
proof (cases "x_call_connected_ms s > 0")
  case True
  then show ?thesis
    by (cases "recording_path (x_result s) = []") (simp_all add: handleDisconnect_def nowMs_def Let_def emitEvent_def)
next
  case False
  then show ?thesis by (cases "recording_path (x_result s) = []") (simp_all add: handleDisconnect_def Let_def emitEvent_def)
qed

lemma agent_do_map:
  "f' (reconfigured h (x_agent s)) = attempt_reconfigured h (f (x_agent s))
    \<Longrightarrow> agent_do f' (reconfigure h s) = flow_map (reconfigure h) (agent_do f s)"
  by (cases "f (x_agent s)") (simp_all add: agent_do_def)

lemma agent_do_calls [simp]:
  "agent_do (startPlayer l path) (reconfigure h s) = flow_map (reconfigure h) (agent_do (startPlayer l path) s)"
  "agent_do (startRecorder l path) (reconfigure h s) = flow_map (reconfigure h) (agent_do (startRecorder l path) s)"
  by (simp_all add: agent_do_map)

lemma reconfigure_hangup [simp]: "agent_hangup w (reconfigure h s) = flow_map (reconfigure h) (agent_hangup w s)"
  by (simp add: agent_hangup_def agent_do_map)

lemma reconfigure_check [simp]:
  "answer_check (reconfigure h s) = iter_map (reconfigure h) (answer_check s)"
  "failed_status (reconfigure h s) = failed_status s"
  by (simp_all add: answer_check_def failed_status_def)

lemma hang_up_cancelled_map [simp]:
  "hang_up_cancelled w (reconfigure h s) = flow_map (reconfigure h) (hang_up_cancelled w s)"
  by (simp add: hang_up_cancelled_def then_do_map)

section \<open>Settings without effect\<close>

text \<open>
  The interface between the executor and its configuration: \<open>h\<close> changes a configuration without
  touching what the executor and the agent read.
\<close>

locale irrelevant =
  fixes h :: "config \<Rightarrow> config"
  assumes agent_settings: "destination (h c) = destination c" "sip_host (h c) = sip_host c"
      "sip_port (h c) = sip_port c" "sip_transport (h c) = sip_transport c" "sip_user (h c) = sip_user c"
      "sip_pass (h c) = sip_pass c" "log_level (h c) = log_level c"
    and call_settings: "answer_timeout_s (h c) = answer_timeout_s c" "answer_delay_s (h c) = answer_delay_s c"
      "silence_s (h c) = silence_s c" "silence_threshold (h c) = silence_threshold c"
      "record_dir (h c) = record_dir c" "audio_source (h c) = audio_source c"
begin

abbreviation H :: "exec \<Rightarrow> exec" where "H \<equiv> reconfigure h"

lemmas lockstep = Let_def case_prod_unfold

lemmas settings [simp] = agent_settings call_settings

lemma uris [simp]: "registrar_uri (h c) = registrar_uri c" "dest_uri (h c) = dest_uri c"
  by (simp_all add: registrar_uri_def dest_uri_def)

lemma init_map [simp]: "init l (reconfigured h a) = attempt_reconfigured h (init l a)"
  unfolding init_def Let_def reconfigured_frame reconfigured_updates settings uris pj_seq_reconfigured
  by (intro attempt_then_map) (simp add: attempt_then_map)

lemma placeCall_map [simp]: "placeCall l (reconfigured h a) = attempt_reconfigured h (placeCall l a)"
  by (simp add: placeCall_def attempt_then_map)

lemma step_init_map: "step_init w (H s) = flow_map H (step_init w s)"
  by (cases "init (pjsip w) (x_agent (set_status FAILED s))")
    (simp_all add: step_init_def Let_def set_status_def set_reason_def emitEvent_def)

lemma register_round_map: "register_round w (H s) = iter_map H (register_round w s)"
  by (simp add: register_round_def lockstep split: option.split)

lemma step_register_map: "step_register w (H s) = flow_map H (step_register w s)"
  by (simp add: step_register_def lockstep loop_map register_round_map)

lemma check_not_placed_map: "check_not_placed w (H s) = flow_map H (check_not_placed w s)"
  by (simp add: check_not_placed_def lockstep)

lemma step_dial_map: "step_dial w (H s) = flow_map H (step_dial w s)"
  by (simp add: step_dial_def agent_do_map)

lemma deadline_hangup_map [simp]: "deadline_hangup w (H s) = flow_map H (deadline_hangup w s)"
  by (simp add: deadline_hangup_def lockstep)

lemma safety_net_map [simp]: "safety_net w (H s) = flow_map H (safety_net w s)"
  by (simp add: safety_net_def lockstep)

lemma answer_event_map [simp]: "answer_event w ev (H s) = iter_map H (answer_event w ev s)"
  by (simp add: answer_event_def lockstep)

lemma answer_round_map: "answer_round w (H s) = iter_map H (answer_round w s)"
  by (simp add: answer_round_def lockstep in_body_map split: option.split)

lemma step_answer_map: "step_answer w (H s) = flow_map H (step_answer w s)"
  by (simp add: step_answer_def lockstep loop_map answer_round_map)

lemma check_answered_map: "check_answered w (H s) = flow_map H (check_answered w s)"
  by (simp add: check_answered_def lockstep then_do_map)

lemma step_record_map: "step_record w (H s) = flow_map H (step_record w s)"
  by (simp add: step_record_def recording_file_def Let_def then_do_map)

lemma choose_audio_map: "choose_audio w (H s) = H (choose_audio w s)"
  by (simp add: choose_audio_def Let_def split: prod.split)

lemma delay_round_map: "delay_round w (H s) = iter_map H (delay_round w s)"
  by (simp add: delay_round_def lockstep)

lemma step_delay_map: "step_delay w (H s) = flow_map H (step_delay w s)"
  by (simp add: step_delay_def loop_map delay_round_map)

lemma check_cancelled_map: "check_cancelled w (H s) = flow_map H (check_cancelled w s)"
  by (simp add: check_cancelled_def lockstep)

lemma step_play_map: "step_play w (H s) = flow_map H (step_play w s)"
  by (simp add: step_play_def lockstep)

lemma drain_round_map: "drain_round w (H s) = iter_map H (drain_round w s)"
  by (simp add: drain_round_def lockstep split: option.split)

lemma play_round_map: "play_round w (H s) = iter_map H (play_round w s)"
  by (simp add: play_round_def lockstep then_do_map loop_map drain_round_map option.map_comp
      comp_def split: option.split)

lemma step_playback_map: "step_playback w (H s) = flow_map H (step_playback w s)"
  by (simp add: step_playback_def loop_map play_round_map)

lemma check_played_map: "check_played w (H s) = flow_map H (check_played w s)"
  by (simp add: check_played_def lockstep)

lemma silence_round_map: "silence_round w (H s) = iter_map H (silence_round w s)"
proof (cases "x_silent s \<or> fst (isCancelled w s)")
  case False
  let ?s = "snd (waitFor w 100 (snd (isCancelled w s)))"
  from False show ?thesis
    by (cases "getRxLevel (pjsip w) (x_agent ?s)") (auto simp: silence_round_def lockstep)
qed (auto simp: silence_round_def lockstep)

lemma silence_setup_map: "silence_setup (H s) = H (silence_setup s)"
  by (simp add: silence_setup_def)

lemma check_silence_map: "check_silence w (H s) = flow_map H (check_silence w s)"
  by (simp add: check_silence_def lockstep)

lemmas phase_maps = step_init_map step_register_map check_not_placed_map step_dial_map step_answer_map
  check_answered_map step_record_map choose_audio_map step_delay_map check_cancelled_map step_play_map
  step_playback_map check_played_map silence_round_map silence_setup_map check_silence_map drain_round_map

lemma run_map: "run w (H s) = flow_map H (run w s)"
  by (simp add: run_def run_setup_def run_dial_def run_play_def run_end_def step_silence_def step_disconnect_def
      phase_maps then_do_map loop_map)

end

text \<open>The settings no run reads.\<close>

definition unread :: "mode \<Rightarrow> string \<Rightarrow> bool \<Rightarrow> string \<Rightarrow> u32 \<Rightarrow> config \<Rightarrow> config" where
  "unread m i r l t c = c\<lparr>mode := m, caller_id := i, record_flag := r, grpc_listen := l, idle_shutdown_s := t\<rparr>"

interpretation unread_settings: irrelevant "unread m i r l t" for m i r l t
  by unfold_locales (simp_all add: unread_def)

section \<open>Property\<close>

text \<open>What a run lets the outside see: its outcome, its events, its files and its PJSIP requests.\<close>

definition observed :: "exec \<Rightarrow> agent_event \<times> agent_event list \<times> fs_op list \<times> pj_op list" where
  "observed s = (x_result s, x_emitted s, x_files s, sa_log (x_agent s))"

text \<open>
  C40: the executor behaves the same whatever the mode, the caller id, the recording flag, the
  listening address and the idle limit of its configuration are: in the same environment it emits the
  same events, writes the same files, sends the same requests to PJSIP and ends the same way with the
  same result, or runs on for ever in both cases. In particular it records calls whose configuration
  says not to, and its caller id is never sent.
\<close>

theorem run_ignores_settings:
  "flow_map observed (run w (CallExecutor (c\<lparr>mode := m, caller_id := i, record_flag := r,
       grpc_listen := l, idle_shutdown_s := t\<rparr>)))
     = flow_map observed (run w (CallExecutor c))"
proof -
  have start: "CallExecutor (unread m i r l t c) = reconfigure (unread m i r l t) (CallExecutor c)"
    by (simp add: CallExecutor_def SipAgent_def reconfigure_def reconfigured_def unread_def)
  have same: "observed (reconfigure h s) = observed s" for h s
    by (simp add: observed_def)
  have "flow_map observed (run w (CallExecutor (unread m i r l t c))) = flow_map observed (run w (CallExecutor c))"
    unfolding start unread_settings.run_map
    by (simp add: option.map_comp comp_def flow.map_comp same)
  then show ?thesis by (simp add: unread_def)
qed

end
