(* ===== verification/Grpc_Messages.thy ===== *)
theory Grpc_Messages
  imports Args Events
begin

text \<open>
  The messages of \<open>protos/call_agent.proto\<close> and the pure part of \<open>src/grpc_server.cpp\<close> over them:
  conversion of agent events to wire events, validation of a request, and the configuration of a call
  built from it. A message is a record of its fields, an enumeration a datatype whose constructors
  carry the name of the enumeration, a \<open>oneof\<close> a datatype with a case for \<open>not set\<close>. Encoding on the
  wire belongs to protobuf and is not modelled.
\<close>

section \<open>Messages\<close>

record timestamp =
  ts_seconds :: u64
  ts_nanos :: u32

datatype state_change =
    State_UNSPECIFIED | State_REGISTERING | State_REGISTERED | State_DIALING | State_RINGING
  | State_ANSWERED | State_PLAYING | State_PLAYED | State_HANGING_UP

datatype result_status =
    Result_UNSPECIFIED | Result_ANSWERED | Result_BUSY | Result_NO_ANSWER | Result_FAILED | Result_CANCELLED

record result_msg =
  rm_status :: result_status
  rm_started_at :: "timestamp option"
  rm_ended_at :: "timestamp option"
  rm_billing_seconds :: u32
  rm_billing_tokens :: u32
  rm_recording_uri :: string
  rm_sip_code :: u32
  rm_error_message :: string

datatype event_body =
    Event_NOT_SET | StateChange state_change | SilenceDetected u32 | RecordingReady string u32
  | Result result_msg

record call_event =
  ce_call_id :: string
  ce_occurred_at :: timestamp
  ce_event :: event_body

datatype proto_transport = Transport_UNSPECIFIED | Transport_UDP | Transport_TCP | Transport_TLS

record sip_credentials =
  username :: string
  password :: string
  server_host :: string
  server_port :: u32
  sip_transport_field :: proto_transport

datatype audio_case = AUDIO_SOURCE_NOT_SET | WavUrl string | TtsText string

record call_request =
  req_call_id :: string
  req_sip :: "sip_credentials option"
  req_destination :: string
  req_caller_id :: string
  req_language :: string
  req_audio :: audio_case
  req_answer_delay_seconds :: u32
  req_silence_timeout_seconds :: u32
  req_record :: bool

text \<open>\<open>req.sip()\<close> on a request without credentials is the default message.\<close>

definition sip_of :: "call_request \<Rightarrow> sip_credentials" where
  "sip_of req = (case req_sip req of Some c \<Rightarrow> c | None \<Rightarrow>
     \<lparr>username = '''', password = '''', server_host = '''', server_port = 0,
      sip_transport_field = Transport_UNSPECIFIED\<rparr>)"

section \<open>Events on the wire\<close>

definition setTimestamp :: "u64 \<Rightarrow> timestamp" where
  "setTimestamp ms = \<lparr>ts_seconds = ms div 1000, ts_nanos = ucast ((ms mod 1000) * 1000000)\<rparr>"

definition toProtoState :: "call_status \<Rightarrow> state_change" where
  "toProtoState s = (case s of
      REGISTERING \<Rightarrow> State_REGISTERING
    | REGISTERED \<Rightarrow> State_REGISTERED
    | DIALING \<Rightarrow> State_DIALING
    | RINGING \<Rightarrow> State_RINGING
    | ANSWERED \<Rightarrow> State_ANSWERED
    | PLAYING \<Rightarrow> State_PLAYING
    | PLAYED \<Rightarrow> State_PLAYED
    | HANGING_UP \<Rightarrow> State_HANGING_UP
    | _ \<Rightarrow> State_UNSPECIFIED)"

definition toProtoResultStatus :: "call_status \<Rightarrow> result_status" where
  "toProtoResultStatus s = (case s of
      ANSWERED \<Rightarrow> Result_ANSWERED
    | BUSY \<Rightarrow> Result_BUSY
    | NO_ANSWER \<Rightarrow> Result_NO_ANSWER
    | CANCELLED \<Rightarrow> Result_CANCELLED
    | _ \<Rightarrow> Result_FAILED)"

text \<open>The clock reading \<open>now\<close> of \<open>toProtoEvent\<close> is an argument.\<close>

definition toProtoEvent :: "agent_event \<Rightarrow> string \<Rightarrow> u64 \<Rightarrow> u64 \<Rightarrow> call_event" where
  "toProtoEvent ev cid started_at_ms now =
    \<lparr>ce_call_id = cid, ce_occurred_at = setTimestamp now,
     ce_event =
      (if is_result ev \<or> status ev = BUSY \<or> status ev = NO_ANSWER \<or> status ev = CANCELLED \<or> status ev = FAILED then
         Result \<lparr>rm_status = toProtoResultStatus (status ev),
           rm_started_at = (if started_at_ms > 0 then Some (setTimestamp started_at_ms) else None),
           rm_ended_at = Some (setTimestamp now), rm_billing_seconds = billing_seconds ev,
           rm_billing_tokens = 0, rm_recording_uri = recording_path ev,
           rm_sip_code = word_of_int (sip_code ev), rm_error_message = reason ev\<rparr>
       else if status ev = SILENCE_DETECTED then SilenceDetected (billing_seconds ev)
       else if status ev = RECORDING_READY then RecordingReady (recording_path ev) (billing_seconds ev)
       else StateChange (toProtoState (status ev)))\<rparr>"

section \<open>Requests\<close>

definition validate :: "call_request \<Rightarrow> string" where
  "validate req =
    (if req_call_id req = [] then ''call_id is required''
     else if req_sip req = None then ''sip credentials are required''
     else if username (sip_of req) = [] then ''sip.username is required''
     else if password (sip_of req) = [] then ''sip.password is required''
     else if server_host (sip_of req) = [] then ''sip.server_host is required''
     else if req_destination req = [] then ''destination is required''
     else if req_audio req = AUDIO_SOURCE_NOT_SET
       then ''exactly one audio_source (wav_url or tts_text) is required''
     else '''')"

definition makeCallConfig :: "config \<Rightarrow> call_request \<Rightarrow> config" where
  "makeCallConfig base req =
    base\<lparr>mode := CLI,
      sip_host := server_host (sip_of req),
      sip_port := (if server_port (sip_of req) \<noteq> 0 then ucast (server_port (sip_of req)) else 5060),
      sip_transport := (case sip_transport_field (sip_of req) of
          Transport_TCP \<Rightarrow> TCP | Transport_TLS \<Rightarrow> TLS | _ \<Rightarrow> UDP),
      sip_user := username (sip_of req),
      sip_pass := password (sip_of req),
      destination := req_destination req,
      caller_id := req_caller_id req,
      answer_delay_s := (if req_answer_delay_seconds req \<noteq> 0 then req_answer_delay_seconds req else 1),
      silence_s := (if req_silence_timeout_seconds req \<noteq> 0 then req_silence_timeout_seconds req else 10),
      record_flag := req_record req,
      audio_source := (case req_audio req of
          WavUrl u \<Rightarrow> \<lparr>source_type = ''wav'', path_or_text = u\<rparr>
        | TtsText t \<Rightarrow> \<lparr>source_type = ''text'', path_or_text = t\<rparr>
        | AUDIO_SOURCE_NOT_SET \<Rightarrow> \<lparr>source_type = ''text'', path_or_text = ''''\<rparr>)\<rparr>"

section \<open>Properties\<close>

fun is_terminal :: "event_body \<Rightarrow> bool" where
  "is_terminal (Result _) = True"
| "is_terminal _ = False"

interpretation proto_events: front_end result_event "\<lambda>e. toProtoEvent e cid st now" "\<lambda>m. is_terminal (ce_event m)"
  for cid st now
  by unfold_locales (simp add: toProtoEvent_def result_event_def)

text \<open>A word below the sign bit reads the same signed and unsigned.\<close>

lemma sint_small:
  fixes v :: "'a::len word"
  assumes "uint v < 2 ^ (LENGTH('a) - 1)"
  shows "sint v = uint v"
  unfolding sint_uint
  by (rule signed_take_bit_int_eq_self) (use assms order_trans [of "- (2 ^ (LENGTH('a) - 1))" 0 "uint v"] in simp_all)

text \<open>
  C37: timestamps are exact and well formed: the nanoseconds are a non-negative 32-bit number below
  one billion, the seconds a non-negative 64-bit one, and together they give back every millisecond.
\<close>

theorem setTimestamp_exact:
  "let t = setTimestamp ms in uint (ts_seconds t) * 1000 + uint (ts_nanos t) div 1000000 = uint ms
     \<and> sint (ts_seconds t) = uint (ts_seconds t) \<and> sint (ts_nanos t) = uint (ts_nanos t)
     \<and> uint (ts_nanos t) < 1000000000 \<and> uint (ts_nanos t) mod 1000000 = 0"
proof -
  let ?m = "uint ms" and ?n = "ucast ((ms mod 1000) * 1000000) :: u32"
  have m: "0 \<le> ?m" "?m < 2 ^ 64" using uint_lt2p [of ms] by simp_all
  have r: "uint (ms mod 1000) = ?m mod 1000" by (simp add: uint_mod_distrib)
  have "x * 1000000 < 1000000000" if "x < 1000" for x :: int using that by simp
  then have lt: "?m mod 1000 * 1000000 < 1000000000" by simp
  have "uint (ms mod 1000) * uint (1000000 :: u64) < 2 ^ LENGTH(64)"
    unfolding r by (rule order_less_trans [of _ 1000000000]) (use lt in simp_all)
  then have p: "uint ((ms mod 1000) * 1000000) = ?m mod 1000 * 1000000"
    using uint_mult_lem [of "ms mod 1000" 1000000] r by simp
  then have n: "uint ?n = ?m mod 1000 * 1000000"
    unfolding unsigned_ucast_eq p
    by (subst take_bit_int_eq_self) (simp, rule order_less_trans [OF lt], simp_all)
  have d: "uint (ms div 1000) = ?m div 1000" by (simp add: uint_div_distrib)
  have "?m div 1000 < 2 ^ 63" using m by simp
  then have s: "sint (ms div 1000) = uint (ms div 1000)"
    using d by (intro sint_small) simp
  have "sint ?n = uint ?n"
    by (rule sint_small) (simp only: n, rule order_less_trans [OF lt], simp)
  with s n d show ?thesis
    using lt by (simp add: setTimestamp_def Let_def)
qed

text \<open>
  Both front ends agree on what is final: an event becomes a \<open>result\<close> message on the wire exactly
  when it becomes a \<open>result\<close> line of JSON, and its status is never \<open>STATUS_UNSPECIFIED\<close>.
\<close>

lemma front_ends_agree:
  "is_terminal (ce_event (toProtoEvent e cid st now)) = json_terminal (toJson_obj e ts)
   \<and> (case ce_event (toProtoEvent e cid st now) of Result r \<Rightarrow> rm_status r \<noteq> Result_UNSPECIFIED
        | Event_NOT_SET \<Rightarrow> False | _ \<Rightarrow> True)"
  unfolding proto_events.terminal_encode json_lines.terminal_encode
  by (simp add: toProtoEvent_def toProtoResultStatus_def result_event_def split: call_status.split)

text \<open>
  What a configuration says of a call, as a request again: the inverse of \<open>makeCallConfig\<close> on what a
  request decides. What a request leaves open gets its default: port 5060, UDP, a delay of one second, a
  timeout of ten; a port that does not fit 16 bits loses its upper bits.
\<close>

definition request_of :: "string \<Rightarrow> string \<Rightarrow> config \<Rightarrow> call_request" where
  "request_of cid lang c = \<lparr>req_call_id = cid,
     req_sip = Some \<lparr>username = sip_user c, password = sip_pass c, server_host = sip_host c,
       server_port = ucast (sip_port c), sip_transport_field =
         (case sip_transport c of UDP \<Rightarrow> Transport_UDP | TCP \<Rightarrow> Transport_TCP | TLS \<Rightarrow> Transport_TLS)\<rparr>,
     req_destination = destination c, req_caller_id = caller_id c, req_language = lang,
     req_audio = (if source_type (audio_source c) = ''wav'' then WavUrl (path_or_text (audio_source c))
       else TtsText (path_or_text (audio_source c))),
     req_answer_delay_seconds = answer_delay_s c, req_silence_timeout_seconds = silence_s c,
     req_record = record_flag c\<rparr>"

definition with_defaults :: "call_request \<Rightarrow> call_request" where
  "with_defaults req = req\<lparr>
     req_sip := Some ((sip_of req)\<lparr>
       server_port := (if server_port (sip_of req) = 0 then 5060 else server_port (sip_of req) mod 65536),
       sip_transport_field := (if sip_transport_field (sip_of req) = Transport_UNSPECIFIED then Transport_UDP
         else sip_transport_field (sip_of req))\<rparr>),
     req_answer_delay_seconds := (if req_answer_delay_seconds req = 0 then 1 else req_answer_delay_seconds req),
     req_silence_timeout_seconds := (if req_silence_timeout_seconds req = 0 then 10 else req_silence_timeout_seconds req)\<rparr>"

lemma ucast_port: "(ucast (ucast (p :: u32) :: u16) :: u32) = p mod 65536"
proof -
  have "(ucast (ucast p :: u16) :: u32) = take_bit 16 p"
    by (rule bit_word_eqI) (simp add: bit_simps)
  then show ?thesis by (simp add: take_bit_eq_mod)
qed

lemma port_multiple: "(ucast (p :: u32) :: u16) = 0 \<longleftrightarrow> p mod 65536 = 0"
proof
  show "p mod 65536 = 0" if "(ucast p :: u16) = 0" using ucast_port [of p] that by simp
  show "(ucast p :: u16) = 0" if "p mod 65536 = 0"
  proof -
    have "(ucast (p mod 65536) :: u16) = ucast p"
      by (subst ucast_port [symmetric], rule bit_word_eqI) (simp add: bit_simps)
    with that show ?thesis by simp
  qed
qed

lemma ucast_mod_port: "(ucast (p mod 65536 :: u32) :: u16) = ucast p"
  by (subst ucast_port [symmetric], rule bit_word_eqI) (simp add: bit_simps)

text \<open>
  C36: the configuration of an accepted request says what the request says: read as a request it is the
  request again, field by field, with the defaults filled in for what was left open, and with the port cut to
  16 bits; the settings of the operator are those of the base configuration. Sending the completed request
  gives the same configuration, except where the cut left port 0, for which the default is taken then.
\<close>

theorem validated_call_config:
  assumes "validate req = ''''"
  shows "let c = makeCallConfig base req in
    request_of (req_call_id req) (req_language req) c = with_defaults req
    \<and> (sip_port c \<noteq> 0 \<longrightarrow> makeCallConfig base (with_defaults req) = c)
    \<and> (sip_port c = 0 \<longrightarrow> makeCallConfig base (with_defaults req) = c\<lparr>sip_port := 5060\<rparr>)
    \<and> validate (with_defaults req) = '''' \<and> mode c = CLI \<and> record_dir c = record_dir base
    \<and> log_level c = log_level base \<and> answer_timeout_s c = answer_timeout_s base
    \<and> silence_threshold c = silence_threshold base \<and> grpc_listen c = grpc_listen base
    \<and> idle_shutdown_s c = idle_shutdown_s base"
proof -
  let ?c = "makeCallConfig base req"
  obtain cr where cr: "req_sip req = Some cr" and sip: "sip_of req = cr"
    using assms by (cases "req_sip req") (simp_all add: validate_def sip_of_def split: if_splits)
  have audio: "req_audio req \<noteq> AUDIO_SOURCE_NOT_SET"
    using assms by (auto simp: validate_def split: if_splits)
  have wd: "sip_of (with_defaults req) = cr\<lparr>server_port := (if server_port cr = 0 then 5060 else server_port cr mod 65536),
      sip_transport_field := (if sip_transport_field cr = Transport_UNSPECIFIED then Transport_UDP else sip_transport_field cr)\<rparr>"
    by (simp add: with_defaults_def sip_of_def [of "req\<lparr>req_sip := x, req_answer_delay_seconds := y, req_silence_timeout_seconds := z\<rparr>" for x y z] sip)
  have "request_of (req_call_id req) (req_language req) ?c = with_defaults req"
    using cr audio
    by (cases req; cases cr; cases "req_audio req"; cases "sip_transport_field cr")
      (simp_all add: request_of_def makeCallConfig_def with_defaults_def sip_of_def ucast_port)
  moreover have "validate (with_defaults req) = ''''"
    using assms unfolding validate_def wd sip by (simp add: with_defaults_def split: if_splits)
  moreover have "makeCallConfig base (with_defaults req) = (if sip_port ?c = 0 then ?c\<lparr>sip_port := 5060\<rparr> else ?c)"
    unfolding makeCallConfig_def wd sip
    by (cases "sip_transport_field cr") (auto simp: with_defaults_def ucast_mod_port port_multiple)
  ultimately show ?thesis by (simp add: Let_def makeCallConfig_def)
qed

definition demo_request :: call_request where
  "demo_request = \<lparr>req_call_id = ''id'', req_sip = Some \<lparr>username = ''u'', password = ''p'',
       server_host = ''h'', server_port = 0, sip_transport_field = Transport_UNSPECIFIED\<rparr>,
     req_destination = ''200'', req_caller_id = '''', req_language = ''en'', req_audio = TtsText ''hello'',
     req_answer_delay_seconds = 0, req_silence_timeout_seconds = 0, req_record = False\<rparr>"

lemma demo_request_valid: "validate demo_request = ''''"
  by (simp add: validate_def demo_request_def sip_of_def)

theorem validated_call_config_witness:
  "request_of ''id'' ''en'' (makeCallConfig Config demo_request) = with_defaults demo_request
     \<and> req_silence_timeout_seconds (with_defaults demo_request) = 10"
  using validated_call_config [OF demo_request_valid, of Config]
  by (simp add: Let_def demo_request_def with_defaults_def)

text \<open>
  The two front ends can ask for the same calls: whatever call the command line places with an audio source,
  a delay and a silence timeout, the request that says the same is accepted and gives the configuration of
  the command line, with the operator's settings of the server.
\<close>

lemma cli_call_as_request:
  assumes "parse app_parse env argv l = Inr c" and "mode c = CLI" and "cid \<noteq> []"
    and "source_type (audio_source c) \<noteq> ''''" "answer_delay_s c \<noteq> 0" "silence_s c \<noteq> 0"
  shows "validate (request_of cid lang c) = '''' \<and> makeCallConfig base (request_of cid lang c) =
    c\<lparr>record_dir := record_dir base, log_level := log_level base, answer_timeout_s := answer_timeout_s base,
      silence_threshold := silence_threshold base, grpc_listen := grpc_listen base, idle_shutdown_s := idle_shutdown_s base\<rparr>"
proof -
  from assms(1,2,4) have c: "sip_host c \<noteq> []" "sip_user c \<noteq> []" "sip_pass c \<noteq> []" "destination c \<noteq> []"
      "sip_port c \<noteq> 0" "source_type (audio_source c) = ''wav'' \<or> source_type (audio_source c) = ''text''"
    by (auto dest: parsed_config)
  have kept: "(ucast (ucast (sip_port c) :: u32) :: u16) = sip_port c"
    by (rule bit_word_eqI) (simp add: bit_simps)
  then have port: "(ucast (ucast (sip_port c) :: u32) :: u16) = sip_port c" "(ucast (sip_port c) :: u32) \<noteq> 0"
    using c(5) by auto
  have "validate (request_of cid lang c) = ''''"
    using c assms(3) by (simp add: validate_def request_of_def sip_of_def)
  moreover have "audio_source (makeCallConfig base (request_of cid lang c)) = audio_source c"
    using c(6) by (auto simp: makeCallConfig_def request_of_def sip_of_def)
  moreover have "sip_transport (makeCallConfig base (request_of cid lang c)) = sip_transport c"
    by (cases "sip_transport c") (simp_all add: makeCallConfig_def request_of_def sip_of_def)
  ultimately show ?thesis
    using assms(2,5,6) port
    by (intro conjI config.equality) (simp_all add: request_of_def sip_of_def makeCallConfig_def)
qed

lemma validate_complete:
  "validate req = '''' \<longleftrightarrow> req_call_id req \<noteq> [] \<and> (\<exists>c. req_sip req = Some c \<and> username c \<noteq> []
     \<and> password c \<noteq> [] \<and> server_host c \<noteq> []) \<and> req_destination req \<noteq> []
     \<and> req_audio req \<noteq> AUDIO_SOURCE_NOT_SET"
  by (auto simp: validate_def sip_of_def)

text \<open>
  The port of a request is taken modulo 65536: ports up to 65535 are kept, 0 means the default
  5060, and a larger number is silently truncated instead of being rejected; a multiple of 65536 even
  becomes port 0, which the command line refuses.
\<close>

lemma call_config_port:
  "unat (sip_port (makeCallConfig base req)) =
     (let p = unat (server_port (sip_of req)) in if p = 0 then 5060 else p mod 65536)"
proof -
  have "unat (ucast (server_port (sip_of req)) :: u16) = unat (server_port (sip_of req)) mod 65536"
    by (simp add: unsigned_ucast_eq take_bit_eq_mod)
  then show ?thesis by (simp add: makeCallConfig_def Let_def unat_eq_0)
qed

end
