(* ===== verification/Grpc_Relay.thy ===== *)
theory Grpc_Relay
  imports Grpc_Messages Executor_Safety
begin

text \<open>
  The relay of \<open>ExecuteCall\<close> in \<open>src/grpc_server.cpp\<close>: the call thread runs the executor and pushes
  every event into a queue, the RPC thread swaps the queue out and writes the events to the stream.

  The call thread is a list of actions still to perform (\<open>rl_pending\<close>): one push per event of the run,
  then setting \<open>done\<close>. How many of them happen before the n-th time the RPC thread holds the lock is
  the environment's choice (\<open>arrive n\<close>), as are the readings of the clock and the answers of
  \<open>context->IsCancelled()\<close>, and the number of events it has written (\<open>crash_after\<close>) when an exception in the call
  thread ends the process. One round of the loop is \<open>relay_round\<close>.
\<close>

section \<open>State\<close>

datatype relay_act = PushAgentEvent agent_event | SetDone

record relay =
  rl_queue :: "agent_event list"
  rl_done :: bool
  rl_started_at :: u64
  rl_cancel_sent :: bool
  rl_cancels :: nat
  rl_written :: "call_event list"
  rl_pending :: "relay_act list"
  rl_round :: nat
  rl_tick :: nat

record relay_env =
  arrive :: "nat \<Rightarrow> nat"
  ctx_cancelled :: "nat \<Rightarrow> bool"
  rpc_clock :: "nat \<Rightarrow> u64"
  crash_after :: nat

definition call_thread :: "agent_event list \<Rightarrow> relay_act list" where
  "call_thread es = map PushAgentEvent es @ [SetDone]"

definition relay_start :: "agent_event list \<Rightarrow> relay" where
  "relay_start es = \<lparr>rl_queue = [], rl_done = False, rl_started_at = 0, rl_cancel_sent = False,
     rl_cancels = 0, rl_written = [], rl_pending = call_thread es, rl_round = 0, rl_tick = 0\<rparr>"

section \<open>The two threads\<close>

text \<open>The event sink of the executor, and the end of the call thread.\<close>

definition push_queue :: "agent_event \<Rightarrow> relay \<Rightarrow> relay" where
  "push_queue ev r = r\<lparr>rl_queue := rl_queue r @ [ev]\<rparr>"

fun perform :: "relay_act \<Rightarrow> relay \<Rightarrow> relay" where
  "perform (PushAgentEvent ev) r = push_queue ev r"
| "perform SetDone r = r\<lparr>rl_done := True\<rparr>"

definition let_arrive :: "nat \<Rightarrow> relay \<Rightarrow> relay" where
  "let_arrive n r = fold perform (take n (rl_pending r)) (r\<lparr>rl_pending := drop n (rl_pending r)\<rparr>)"

definition swap_batch :: "relay \<Rightarrow> agent_event list \<times> relay" where
  "swap_batch r = (rl_queue r, r\<lparr>rl_queue := []\<rparr>)"

text \<open>One event of a batch: \<open>started_at_ms\<close> is taken at the answer, then the message is written.\<close>

definition write_event :: "relay_env \<Rightarrow> string \<Rightarrow> agent_event \<Rightarrow> relay \<Rightarrow> relay" where
  "write_event v cid ev r =
    (let r = (if status ev = ANSWERED \<and> \<not> is_result ev
              then r\<lparr>rl_started_at := rpc_clock v (rl_tick r), rl_tick := Suc (rl_tick r)\<rparr> else r)
     in r\<lparr>rl_written := rl_written r @ [toProtoEvent ev cid (rl_started_at r) (rpc_clock v (rl_tick r))],
          rl_tick := Suc (rl_tick r)\<rparr>)"

definition relay_round :: "relay_env \<Rightarrow> string \<Rightarrow> relay \<Rightarrow> relay iter option" where
  "relay_round v cid r =
    (let r = let_arrive (arrive v (rl_round r)) r;
         (batch, r) = swap_batch r;
         finished = (rl_done r \<and> batch = []);
         r = fold (write_event v cid) batch r
     in if finished then Some (Stop (Next r))
        else let r = (if \<not> rl_cancel_sent r \<and> ctx_cancelled v (rl_round r)
                      then r\<lparr>rl_cancel_sent := True, rl_cancels := Suc (rl_cancels r)\<rparr> else r)
             in Some (Continue (r\<lparr>rl_round := Suc (rl_round r)\<rparr>)))"

definition relay_loop :: "relay_env \<Rightarrow> string \<Rightarrow> agent_event list \<Rightarrow> relay flow option" where
  "relay_loop v cid es = loop (relay_round v cid) (relay_start es)"

interpretation relay_queue: fifo push_queue rl_queue swap_batch
  by unfold_locales (auto simp: push_queue_def swap_batch_def)

section \<open>The relay invariant\<close>

fun pushes :: "relay_act list \<Rightarrow> agent_event list" where
  "pushes [] = []"
| "pushes (PushAgentEvent e # as) = e # pushes as"
| "pushes (SetDone # as) = pushes as"

lemma pushes_append [simp]: "pushes (xs @ ys) = pushes xs @ pushes ys"
  by (induction xs rule: pushes.induct) simp_all

lemma pushes_map [simp]: "pushes (map PushAgentEvent es) = es"
  by (induction es) simp_all

text \<open>
  The reference: the stream a single thread would write that takes the events one after the other.
  \<open>st\<close> is \<open>started_at_ms\<close>, \<open>n\<close> the number of clock readings so far.
\<close>

fun transcript :: "relay_env \<Rightarrow> string \<Rightarrow> u64 \<Rightarrow> nat \<Rightarrow> agent_event list \<Rightarrow> call_event list" where
  "transcript v cid st n [] = []"
| "transcript v cid st n (e # es) =
     (if status e = ANSWERED \<and> \<not> is_result e
      then toProtoEvent e cid (rpc_clock v n) (rpc_clock v (Suc n)) # transcript v cid (rpc_clock v n) (Suc (Suc n)) es
      else toProtoEvent e cid st (rpc_clock v n) # transcript v cid st (Suc n) es)"

definition encodes :: "string \<Rightarrow> agent_event \<Rightarrow> call_event \<Rightarrow> bool" where
  "encodes cid e m \<longleftrightarrow> (\<exists>st now. m = toProtoEvent e cid st now)"

lemma transcript_encodes: "list_all2 (encodes cid) es (transcript v cid st n es)"
  by (induction es arbitrary: st n) (auto simp: encodes_def)

text \<open>
  Every event is written, in the queue or still to come, in this order: what is written followed by the
  transcript of the rest is the transcript of the run; the thread's last action is setting \<open>done\<close>, and
  the executor was cancelled once if the client was seen to have cancelled in an earlier round, and not at
  all otherwise.
\<close>

definition relaying :: "relay_env \<Rightarrow> string \<Rightarrow> agent_event list \<Rightarrow> relay \<Rightarrow> bool" where
  "relaying v cid es r \<longleftrightarrow>
     rl_written r @ transcript v cid (rl_started_at r) (rl_tick r) (rl_queue r @ pushes (rl_pending r))
       = transcript v cid 0 0 es
     \<and> (if rl_done r then rl_pending r = [] else \<exists>zs. rl_pending r = map PushAgentEvent zs @ [SetDone])
     \<and> rl_cancel_sent r = (\<exists>k < rl_round r. ctx_cancelled v k)
     \<and> rl_cancels r = (if rl_cancel_sent r then 1 else 0)"

lemma perform_fields [simp]:
  "rl_written (perform a r) = rl_written r" "rl_pending (perform a r) = rl_pending r"
  "rl_round (perform a r) = rl_round r" "rl_cancels (perform a r) = rl_cancels r"
  "rl_cancel_sent (perform a r) = rl_cancel_sent r" "rl_tick (perform a r) = rl_tick r"
  "rl_started_at (perform a r) = rl_started_at r"
  by (cases a; simp add: push_queue_def)+

lemma performs_fields [simp]:
  "rl_written (fold perform as r) = rl_written r" "rl_pending (fold perform as r) = rl_pending r"
  "rl_round (fold perform as r) = rl_round r" "rl_cancels (fold perform as r) = rl_cancels r"
  "rl_cancel_sent (fold perform as r) = rl_cancel_sent r"
  "rl_tick (fold perform as r) = rl_tick r" "rl_started_at (fold perform as r) = rl_started_at r"
  by (induction as arbitrary: r) simp_all

lemma performs_queue: "rl_queue (fold perform as r) = rl_queue r @ pushes as"
  by (induction as arbitrary: r rule: pushes.induct) (simp_all add: push_queue_def)

lemma performs_done: "rl_done (fold perform as r) \<longleftrightarrow> rl_done r \<or> SetDone \<in> set as"
proof (induction as arbitrary: r)
  case (Cons a as)
  then show ?case by (cases a) (simp_all add: push_queue_def)
qed simp

lemma arrive_fields [simp]:
  "rl_written (let_arrive n r) = rl_written r" "rl_round (let_arrive n r) = rl_round r"
  "rl_cancels (let_arrive n r) = rl_cancels r" "rl_cancel_sent (let_arrive n r) = rl_cancel_sent r"
  "rl_pending (let_arrive n r) = drop n (rl_pending r)"
  "rl_tick (let_arrive n r) = rl_tick r" "rl_started_at (let_arrive n r) = rl_started_at r"
  by (simp_all add: let_arrive_def)

lemma arrive_relaying:
  assumes "relaying v cid es r"
  shows "relaying v cid es (let_arrive n r)"
proof -
  have "pushes (take n (rl_pending r)) @ pushes (drop n (rl_pending r)) = pushes (rl_pending r)"
    by (simp flip: pushes_append)
  then have order: "rl_queue (let_arrive n r) @ pushes (drop n (rl_pending r)) = rl_queue r @ pushes (rl_pending r)"
    by (simp add: let_arrive_def performs_queue)
  have rest: "if rl_done (let_arrive n r) then drop n (rl_pending r) = []
      else \<exists>zs. drop n (rl_pending r) = map PushAgentEvent zs @ [SetDone]"
  proof (cases "rl_done r")
    case True
    with assms show ?thesis by (simp add: relaying_def let_arrive_def performs_done)
  next
    case False
    with assms obtain zs where zs: "rl_pending r = map PushAgentEvent zs @ [SetDone]"
      by (auto simp: relaying_def)
    show ?thesis
    proof (cases "n \<le> length zs")
      case True
      with zs False have "SetDone \<notin> set (take n (rl_pending r))" by (auto simp: take_map)
      with zs False True show ?thesis by (auto simp: let_arrive_def performs_done drop_map)
    next
      case False
      with zs show ?thesis by (simp add: let_arrive_def performs_done)
    qed
  qed
  show ?thesis
    using order rest assms unfolding relaying_def by auto
qed

lemma write_fields [simp]:
  "rl_queue (write_event v cid e r) = rl_queue r" "rl_pending (write_event v cid e r) = rl_pending r"
  "rl_done (write_event v cid e r) = rl_done r" "rl_round (write_event v cid e r) = rl_round r"
  "rl_cancels (write_event v cid e r) = rl_cancels r"
  "rl_cancel_sent (write_event v cid e r) = rl_cancel_sent r"
  by (simp_all add: write_event_def Let_def)

lemma writes_fields [simp]:
  "rl_queue (fold (write_event v cid) es r) = rl_queue r"
  "rl_pending (fold (write_event v cid) es r) = rl_pending r"
  "rl_done (fold (write_event v cid) es r) = rl_done r"
  "rl_round (fold (write_event v cid) es r) = rl_round r"
  "rl_cancels (fold (write_event v cid) es r) = rl_cancels r"
  "rl_cancel_sent (fold (write_event v cid) es r) = rl_cancel_sent r"
  by (induction es arbitrary: r) simp_all

lemma writes_transcript:
  "let r' = fold (write_event v cid) es r in
     rl_written r' @ transcript v cid (rl_started_at r') (rl_tick r') rest
       = rl_written r @ transcript v cid (rl_started_at r) (rl_tick r) (es @ rest)"
proof (induction es arbitrary: r)
  case (Cons e es)
  then show ?case by (simp add: write_event_def Let_def)
qed simp

lemma batch_relaying:
  assumes "relaying v cid es r" and "swap_batch r = (batch, r')"
  shows "relaying v cid es (fold (write_event v cid) batch r')"
proof -
  have b: "batch @ rl_queue r' = rl_queue r" using assms(2) by (rule relay_queue.take_items)
  have r': "r' = r\<lparr>rl_queue := []\<rparr>" using assms(2) by (simp add: swap_batch_def)
  show ?thesis
    using writes_transcript [of v cid batch r' "pushes (rl_pending r)"] assms(1) b r'
    unfolding relaying_def writes_fields Let_def by auto
qed

lemma relay_round_post:
  assumes "relaying v cid es r"
  shows "iter_post (relaying v cid es) (\<lambda>r. relaying v cid es r \<and> rl_done r \<and> rl_queue r = [])
    (\<lambda>_. False) (\<lambda>_. False) (relay_round v cid r)"
proof -
  let ?r = "let_arrive (arrive v (rl_round r)) r"
  obtain batch r' where sw: "swap_batch ?r = (batch, r')" by fastforce
  have rel: "relaying v cid es (fold (write_event v cid) batch r')"
    by (rule batch_relaying [OF arrive_relaying [OF assms] sw])
  have "rl_queue r' = []" using sw by (auto simp: swap_batch_def)
  moreover have round: "rl_round r' = rl_round r" using sw by (auto simp: swap_batch_def)
  moreover have "relaying v cid es ((fold (write_event v cid) batch r')\<lparr>rl_round := Suc (rl_round r)\<rparr>)"
    if "rl_cancel_sent r' \<or> \<not> ctx_cancelled v (rl_round r)"
    using rel that round by (auto simp: relaying_def less_Suc_eq)
  moreover have "relaying v cid es ((fold (write_event v cid) batch r')
      \<lparr>rl_cancel_sent := True, rl_cancels := Suc (rl_cancels r'), rl_round := Suc (rl_round r)\<rparr>)"
    if "\<not> rl_cancel_sent r'" "ctx_cancelled v (rl_round r)"
    using rel that round by (auto simp: relaying_def less_Suc_eq split: if_splits)
  ultimately show ?thesis
    using rel sw by (cases "rl_done r' \<and> batch = []") (auto simp: relay_round_def Let_def)
qed

lemma relay_post: "post (\<lambda>r. rl_written r = transcript v cid 0 0 es
    \<and> rl_cancels r = (if \<exists>k < rl_round r. ctx_cancelled v k then 1 else 0))
    (\<lambda>_. False) (\<lambda>_. False) (relay_loop v cid es)"
  unfolding relay_loop_def
proof (rule post_mono [OF loop_post [where I = "relaying v cid es"]], rule relay_round_post, assumption)
  show "relaying v cid es (relay_start es)" by (auto simp: relaying_def relay_start_def call_thread_def)
  show "rl_written r = transcript v cid 0 0 es \<and> rl_cancels r = (if \<exists>k < rl_round r. ctx_cancelled v k then 1 else 0)"
    if "relaying v cid es r \<and> rl_done r \<and> rl_queue r = []" for r
    using that by (auto simp: relaying_def)
qed simp_all

lemma relay_returns:
  assumes "\<And>k. n \<le> k \<Longrightarrow> 0 < arrive v k"
  shows "\<exists>f. relay_loop v cid es = Some f"
proof -
  let ?I = "\<lambda>r. relaying v cid es r \<and> rl_queue r = []"
  let ?m = "\<lambda>r. (n - rl_round r) + length (rl_pending r)"
  have "returns (loop (relay_round v cid) (relay_start es))"
  proof (rule loop_returns [where I = ?I and m = ?m])
    fix r assume r: "?I r"
    let ?r = "let_arrive (arrive v (rl_round r)) r"
    obtain batch r' where sw: "swap_batch ?r = (batch, r')" by fastforce
    obtain i where i: "relay_round v cid r = Some i"
      by (cases "relay_round v cid r") (auto simp: relay_round_def Let_def case_prod_unfold split: if_splits)
    have "?I s \<and> ?m s < ?m r" if "i = Continue s" for s
    proof -
      from i that relay_round_post [of v cid es r] r have "relaying v cid es s" by simp
      moreover have s: "rl_queue s = []" "rl_pending s = drop (arrive v (rl_round r)) (rl_pending r)"
        "rl_round s = Suc (rl_round r)"
        using i that sw by (auto simp: relay_round_def swap_batch_def Let_def split: if_splits)
      moreover have "rl_pending r \<noteq> []"
      proof
        assume "rl_pending r = []"
        with r have "rl_done r" by (auto simp: relaying_def split: if_splits)
        with \<open>rl_pending r = []\<close> r i that show False
          by (simp add: relay_round_def swap_batch_def let_arrive_def Let_def)
      qed
      ultimately show ?thesis using assms [of "rl_round r"]
        by (cases "n \<le> rl_round r") (auto simp: not_le)
    qed
    with i show "\<exists>i. relay_round v cid r = Some i \<and> (\<forall>s. i = Continue s \<longrightarrow> ?I s \<and> ?m s < ?m r)" by blast
  next
    show "?I (relay_start es)" by (auto simp: relaying_def relay_start_def call_thread_def)
  qed
  then show ?thesis by (simp add: relay_loop_def returns_def)
qed

text \<open>A network that delivers one action per round, for the witnesses.\<close>

definition steady :: relay_env where
  "steady = \<lparr>arrive = (\<lambda>_. 1), ctx_cancelled = (\<lambda>_. False), rpc_clock = (\<lambda>n. of_nat (1000 * n)),
     crash_after = 0\<rparr>"

lemma steady_returns: obtains r where "relay_loop steady cid es = Some (Next r)"
proof -
  obtain f where f: "relay_loop steady cid es = Some f"
    using relay_returns [of 0 steady cid es] by (auto simp: steady_def)
  with relay_post [of steady cid es] show thesis by (cases f) (auto intro: that)
qed

section \<open>The times of a transcript\<close>

abbreviation answer_state :: "agent_event \<Rightarrow> bool" where
  "answer_state e \<equiv> status e = ANSWERED \<and> \<not> is_result e"

text \<open>What \<open>started_at_ms\<close> and the number of clock readings are after some events.\<close>

fun stamp :: "relay_env \<Rightarrow> u64 \<Rightarrow> nat \<Rightarrow> agent_event list \<Rightarrow> u64 \<times> nat" where
  "stamp v st n [] = (st, n)"
| "stamp v st n (e # es) = (if answer_state e then stamp v (rpc_clock v n) (Suc (Suc n)) es else stamp v st (Suc n) es)"

lemma transcript_append:
  "transcript v cid st n (xs @ ys)
    = transcript v cid st n xs @ transcript v cid (fst (stamp v st n xs)) (snd (stamp v st n xs)) ys"
  by (induction xs arbitrary: st n) simp_all

text \<open>The readings of the clock the RPC thread has taken when it has written some events.\<close>

definition readings :: "agent_event list \<Rightarrow> nat" where
  "readings es = length es + length (filter answer_state es)"

lemma length_transcript [simp]: "length (transcript v cid st n es) = length es"
  by (induction es arbitrary: st n) simp_all

lemma stamp_append: "stamp v st n (xs @ ys) = stamp v (fst (stamp v st n xs)) (snd (stamp v st n xs)) ys"
  by (induction xs arbitrary: st n) simp_all

lemma stamp_readings: "snd (stamp v st n es) = n + readings es"
  by (induction es arbitrary: st n) (simp_all add: readings_def)

lemma stamp_unanswered: "\<forall>e \<in> set es. \<not> answer_state e \<Longrightarrow> fst (stamp v st n es) = st"
  by (induction es arbitrary: st n) auto

lemma stamp_answered:
  assumes "answer_state a" and "\<forall>e \<in> set es2. \<not> answer_state e"
  shows "fst (stamp v st n (es1 @ a # es2)) = rpc_clock v (n + readings es1)"
  using assms stamp_unanswered [OF assms(2)] by (simp add: stamp_append stamp_readings)

lemma answer_message:
  assumes "answer_state a"
  shows "ce_occurred_at (transcript v cid 0 0 (es1 @ a # es2) ! length es1) = setTimestamp (rpc_clock v (Suc (readings es1)))"
  using assms by (simp add: transcript_append nth_append stamp_readings toProtoEvent_def)

lemma last_stamped:
  assumes "es \<noteq> []" and "result_event (last es)"
  shows "last (transcript v cid 0 0 es) = toProtoEvent (last es) cid (fst (stamp v 0 0 (butlast es)))
     (rpc_clock v (snd (stamp v 0 0 (butlast es))))"
proof -
  have "transcript v cid 0 0 es = transcript v cid 0 0 (butlast es @ [last es])" using assms(1) by simp
  also have "\<not> answer_state (last es)" using assms(2) by (auto simp: result_event_def)
  ultimately show ?thesis by (simp add: transcript_append)
qed

lemma result_message: "result_event e \<Longrightarrow> \<exists>m. ce_event (toProtoEvent e cid st now) = Result m
    \<and> rm_started_at m = (if st > 0 then Some (setTimestamp st) else None) \<and> rm_ended_at m = Some (setTimestamp now)"
  by (auto simp: toProtoEvent_def result_event_def)

lemma transcript_times:
  assumes es: "es \<noteq> []" "result_event (last es)" and clock: "\<And>n. rpc_clock v n > 0"
  shows "\<exists>m. ce_event (last (transcript v cid 0 0 es)) = Result m
    \<and> rm_ended_at m = Some (setTimestamp (rpc_clock v (readings (butlast es))))
    \<and> ce_occurred_at (last (transcript v cid 0 0 es)) = setTimestamp (rpc_clock v (readings (butlast es)))
    \<and> (if \<exists>e \<in> set es. answer_state e
       then \<exists>es1 a es2. es = es1 @ a # es2 \<and> answer_state a \<and> (\<forall>e \<in> set es2. \<not> answer_state e)
         \<and> ce_occurred_at (transcript v cid 0 0 es ! length es1) = setTimestamp (rpc_clock v (Suc (readings es1)))
         \<and> rm_started_at m = Some (setTimestamp (rpc_clock v (readings es1)))
       else rm_started_at m = None)"
proof -
  let ?st = "fst (stamp v 0 0 (butlast es))" and ?k = "readings (butlast es)"
  have k: "snd (stamp v 0 0 (butlast es)) = ?k" by (simp add: stamp_readings)
  have final: "\<not> answer_state (last es)" using es(2) by (auto simp: result_event_def)
  obtain m where m: "ce_event (last (transcript v cid 0 0 es)) = Result m"
      "rm_started_at m = (if ?st > 0 then Some (setTimestamp ?st) else None)"
      "rm_ended_at m = Some (setTimestamp (rpc_clock v ?k))"
    using result_message [OF es(2), of cid ?st "rpc_clock v ?k"] unfolding last_stamped [OF es] k by blast
  have "ce_occurred_at (last (transcript v cid 0 0 es)) = setTimestamp (rpc_clock v ?k)"
    by (simp add: last_stamped [OF es] toProtoEvent_def k)
  moreover have "if \<exists>e \<in> set es. answer_state e
      then \<exists>es1 a es2. es = es1 @ a # es2 \<and> answer_state a \<and> (\<forall>e \<in> set es2. \<not> answer_state e)
         \<and> ce_occurred_at (transcript v cid 0 0 es ! length es1) = setTimestamp (rpc_clock v (Suc (readings es1)))
         \<and> rm_started_at m = Some (setTimestamp (rpc_clock v (readings es1)))
       else rm_started_at m = None"
  proof (cases "\<exists>e \<in> set es. answer_state e")
    case True
    then obtain es1 a es2 where split: "es = es1 @ a # es2" "answer_state a" "\<forall>e \<in> set es2. \<not> answer_state e"
      by (rule split_list_last_propE)
    with final have "es2 \<noteq> []" by auto
    with split have "butlast es = es1 @ a # butlast es2" "\<forall>e \<in> set (butlast es2). \<not> answer_state e"
      by (auto simp: butlast_append dest: in_set_butlastD)
    then have "?st = rpc_clock v (readings es1)" using stamp_answered [OF split(2), of "butlast es2" v 0 0 es1] by simp
    then have "rm_started_at m = Some (setTimestamp (rpc_clock v (readings es1)))" using m(2) clock by simp
    moreover have "ce_occurred_at (transcript v cid 0 0 es ! length es1) = setTimestamp (rpc_clock v (Suc (readings es1)))"
      unfolding split(1) by (rule answer_message [OF split(2)])
    ultimately show ?thesis unfolding if_P [OF True] using split by blast
  next
    case False
    then have "?st = 0" by (intro stamp_unanswered) (auto dest: in_set_butlastD)
    with False m(2) show ?thesis by simp
  qed
  ultimately show ?thesis using m(1,3) by blast
qed

section \<open>Properties\<close>

text \<open>
  C4: the stream of an RPC is the transcript of the run: whenever the relay loop ends, however the pushes
  of the call thread and the writes of the RPC thread interleaved and the events were batched, the
  messages written are those a single thread would have written, every event once and in order, with the
  same timestamps; and the executor was asked to cancel once if the client was seen to have cancelled in a
  round before the last, and not at all otherwise.
\<close>

theorem relay_delivers_all:
  assumes "relay_loop v cid es = Some f"
  shows "\<exists>r. f = Next r \<and> rl_written r = transcript v cid 0 0 es
    \<and> rl_cancels r = (if \<exists>k < rl_round r. ctx_cancelled v k then 1 else 0)"
  using relay_post [of v cid es] assms by (cases f) simp_all

theorem relay_delivers_all_witness:
  "\<exists>r. relay_loop steady ''id'' [AgentEvent DIALING ''id'' [] 0 0 []] = Some (Next r)
     \<and> rl_written r = [toProtoEvent (AgentEvent DIALING ''id'' [] 0 0 []) ''id'' 0 0]"
proof -
  obtain r where r: "relay_loop steady ''id'' [AgentEvent DIALING ''id'' [] 0 0 []] = Some (Next r)"
    by (rule steady_returns)
  from relay_delivers_all [OF r] r show ?thesis by (simp add: steady_def)
qed

text \<open>
  C24: the relay ends: once the call thread keeps making progress, and it is done after finitely many
  actions, the RPC thread leaves its loop, whether or not the client has cancelled.
\<close>

theorem relay_ends:
  assumes "\<And>k. n \<le> k \<Longrightarrow> 0 < arrive v k"
  shows "\<exists>f. relay_loop v cid es = Some f"
  using assms by (rule relay_returns)

theorem relay_ends_witness:
  "\<exists>f. relay_loop \<lparr>arrive = (\<lambda>k. if k < 3 then 0 else 2), ctx_cancelled = (\<lambda>_. True), rpc_clock = (\<lambda>_. 0), crash_after = 0\<rparr>
      ''id'' [AgentEvent FAILED ''id'' [] 0 0 []] = Some f"
  by (rule relay_ends [of 3]) simp

text \<open>
  What the client of an RPC sees of a run: the result message comes last, once, and carries the
  outcome the executor returned; a run that was cancelled ends its stream without any result message.
\<close>

lemma relayed_result:
  assumes "run w (CallExecutor c) = Some (Return s)" and "relay_loop v cid (x_emitted s) = Some (Next r)"
  shows "if status (x_result s) = CANCELLED then filter (\<lambda>m. is_terminal (ce_event m)) (rl_written r) = []
    else filter (\<lambda>m. is_terminal (ce_event m)) (rl_written r) = [last (rl_written r)]
      \<and> (\<exists>m. ce_event (last (rl_written r)) = Result m \<and> rm_status m = toProtoResultStatus (status (x_result s))
           \<and> rm_billing_seconds m = billing_seconds (x_result s) \<and> rm_error_message m = reason (x_result s))"
proof -
  have all: "list_all2 (encodes cid) (x_emitted s) (rl_written r)"
    using relay_post [of v cid "x_emitted s"] assms(2) transcript_encodes [of cid "x_emitted s" v 0 0] by simp
  have terminal: "is_terminal (ce_event m) = result_event e" if "encodes cid e m" for e m
    using that proto_events.terminal_encode by (auto simp: encodes_def)
  have filters: "list_all2 (encodes cid) (filter result_event es) (filter (\<lambda>m. is_terminal (ce_event m)) ms)"
    if "list_all2 (encodes cid) es ms" for es ms
    using that by (induction rule: list_all2_induct) (simp_all add: terminal)
  from run_from_start [of w c] assms(1) have "finished s \<or> aborted s" by (simp add: returned_def)
  then show ?thesis
  proof
    assume fin: "finished s"
    note out = finished_outcome [OF fin] and res = finished_results [OF fin]
    from res filters [OF all] obtain m where m: "filter (\<lambda>m. is_terminal (ce_event m)) (rl_written r) = [m]"
        "encodes cid (last (x_emitted s)) m"
      by (auto simp: list_all2_Cons1)
    have "rl_written r \<noteq> []" using all res by auto
    then have last: "encodes cid (last (x_emitted s)) (last (rl_written r))"
      using all res by (metis last_conv_nth length_0_conv length_greater_0_conv list_all2_conv_all_nth diff_less zero_less_one)
    have "last (x_emitted s) \<in> set (filter result_event (x_emitted s))" using res by simp
    then have "result_event (last (x_emitted s))" by simp
    with last have "is_terminal (ce_event (last (rl_written r)))" by (simp add: terminal)
    then have "last (rl_written r) \<in> set (filter (\<lambda>m. is_terminal (ce_event m)) (rl_written r))"
      using \<open>rl_written r \<noteq> []\<close> by simp
    with m have "m = last (rl_written r)" by simp
    moreover have "\<exists>m. ce_event (last (rl_written r)) = Result m \<and> rm_status m = toProtoResultStatus (status (x_result s))
           \<and> rm_billing_seconds m = billing_seconds (x_result s) \<and> rm_error_message m = reason (x_result s)"
      using last \<open>result_event (last (x_emitted s))\<close> fin
      by (auto simp: encodes_def toProtoEvent_def result_event_def finished_def matches_def)
    ultimately show ?thesis using m out by simp
  next
    assume ab: "aborted s"
    then obtain q where "at q s" "q \<noteq> Finished" by (auto simp: aborted_def)
    from unfinished_results [OF this] filters [OF all] ab show ?thesis by (simp add: aborted_def)
  qed
qed

end
