(* ===== verification/Grpc_Service.thy ===== *)
theory Grpc_Service
  imports Grpc_Relay Executor_Termination
begin

text \<open>
  \<open>CallAgentServiceImpl\<close> and \<open>runGrpcServer\<close> of \<open>src/grpc_server.cpp\<close>: the service's shared state, its
  three procedures and the idle watchdog.

  The members of the service are atomics that other RPC threads change at any time. A procedure that
  reads several of them takes what the others do between its reads as an argument (\<open>meanwhile k\<close>
  before its k-th access). Building and starting the server, its shutdown and the standard error
  stream belong to gRPC and the environment: whether the server starts is an argument.
\<close>

section \<open>State\<close>

definition kAgentVersion :: string where
  "kAgentVersion = ''0.1.0''"

record service =
  sv_base_config :: config
  sv_call_active :: bool
  sv_shutting_down :: bool
  sv_last_activity_ms :: u64

definition CallAgentServiceImpl :: "config \<Rightarrow> u64 \<Rightarrow> service" where
  "CallAgentServiceImpl base now = \<lparr>sv_base_config = base, sv_call_active = False,
     sv_shutting_down = False, sv_last_activity_ms = now\<rparr>"

definition touchActivity :: "u64 \<Rightarrow> service \<Rightarrow> service" where
  "touchActivity now s = s\<lparr>sv_last_activity_ms := now\<rparr>"

definition callActive :: "service \<Rightarrow> bool" where
  "callActive s = sv_call_active s"

definition setShuttingDown :: "service \<Rightarrow> service" where
  "setShuttingDown s = s\<lparr>sv_shutting_down := True\<rparr>"

text \<open>\<open>(epochMs() - last_activity_ms_.load()) / 1000\<close>, of a clock reading and a load that are two steps.\<close>

definition idleSeconds :: "u64 \<Rightarrow> u64 \<Rightarrow> u64" where
  "idleSeconds now last_activity = (now - last_activity) div 1000"

text \<open>\<open>compare_exchange_strong(expected = false, true)\<close> and the destructor of \<open>ActiveGuard\<close>.\<close>

definition try_acquire :: "service \<Rightarrow> bool \<times> service" where
  "try_acquire s = (if sv_call_active s then (False, s) else (True, s\<lparr>sv_call_active := True\<rparr>))"

definition active_guard :: "u64 \<Rightarrow> service \<Rightarrow> service" where
  "active_guard now s = touchActivity now (s\<lparr>sv_call_active := False\<rparr>)"

interpretation call_slot: exclusive_slot sv_call_active try_acquire "active_guard now" for now
  by unfold_locales (simp_all add: try_acquire_def active_guard_def touchActivity_def)

section \<open>Procedures\<close>

datatype rpc_status = OK | ALREADY_EXISTS string | INVALID_ARGUMENT string | UNIMPLEMENTED string

datatype health_state = Health_UNSPECIFIED | Health_READY | Health_BUSY | Health_SHUTTING_DOWN

record health_response =
  hr_state :: health_state
  hr_active_calls :: u32
  hr_idle_seconds :: u32
  hr_agent_version :: string

definition Health ::
  "(nat \<Rightarrow> service \<Rightarrow> service) \<Rightarrow> u64 \<Rightarrow> u64 \<Rightarrow> service \<Rightarrow> rpc_status \<times> health_response \<times> service" where
  "Health meanwhile now now2 s =
    (let s = meanwhile 0 s; idle_ms = now - sv_last_activity_ms s;
         s = touchActivity now2 s;
         s = meanwhile 1 s; down = sv_shutting_down s;
         s = meanwhile 2 s; active = sv_call_active s;
         s = meanwhile 3 s; active2 = sv_call_active s
     in (OK, \<lparr>hr_state = (if down then Health_SHUTTING_DOWN else if active then Health_BUSY else Health_READY),
          hr_active_calls = (if active2 then 1 else 0), hr_idle_seconds = ucast (idle_ms div 1000),
          hr_agent_version = kAgentVersion\<rparr>, s))"

text \<open>
  \<open>ExecuteCall\<close>. The executor's run is \<open>run\<close>, the relay its loop in the environment \<open>v\<close>; \<open>meanwhile\<close> is
  what other RPCs do to the service during the call. The two threads run side by side: before the n-th
  interaction of the executor the relay has completed \<open>rounds n\<close> of its rounds, and when it finds in one
  of them that the client has cancelled it calls \<open>executor.cancel()\<close> (\<open>relay_cancels\<close>). \<open>w\<close> is what the rest
  of the world does to the executor, which may cancel it too. An exception that leaves the call thread's
  function ends the process (\<open>std::terminate\<close>), with the messages on the stream that the RPC thread has written
  of the events the executor has emitted; a run that never returns leaves the RPC open (\<open>None\<close>).
\<close>

definition relay_cancels :: "relay_env \<Rightarrow> (nat \<Rightarrow> nat) \<Rightarrow> env \<Rightarrow> env" where
  "relay_cancels v rounds w = w\<lparr>others := \<lambda>n. others w n
     @ (if (\<exists>k \<in> {rounds n..<rounds (Suc n)}. ctx_cancelled v k) \<and> \<not> (\<exists>k < rounds n. ctx_cancelled v k)
        then cancel else [])\<rparr>"

datatype rpc_outcome = Finished_RPC rpc_status "call_event list" service | Terminated "call_event list"

definition ExecuteCall :: "(nat \<Rightarrow> u64) \<Rightarrow> (service \<Rightarrow> service) \<Rightarrow> (nat \<Rightarrow> nat) \<Rightarrow> env \<Rightarrow> relay_env \<Rightarrow> call_request \<Rightarrow> service
    \<Rightarrow> rpc_outcome option" where
  "ExecuteCall now meanwhile rounds w v req s0 =
    (case try_acquire (touchActivity (now 0) s0) of (ok, s) \<Rightarrow>
     if \<not> ok then Some (Finished_RPC (ALREADY_EXISTS ''a call is already in progress'') [] s)
     else let verr = validate req in
     if verr \<noteq> [] then Some (Finished_RPC (INVALID_ARGUMENT verr) [] (active_guard (now 1) s))
     else case run (relay_cancels v rounds w) (CallExecutor (makeCallConfig (sv_base_config s) req)) of
       None \<Rightarrow> None
     | Some (Throw x) \<Rightarrow> Some (Terminated (rl_written
           (fold (write_event v (req_call_id req)) (take (crash_after v) (x_emitted x)) (relay_start []))))
     | Some (Next x) \<Rightarrow> None
     | Some (Return x) \<Rightarrow> (case relay_loop v (req_call_id req) (x_emitted x) of
           Some (Next r) \<Rightarrow> Some (Finished_RPC OK (rl_written r) (active_guard (now 1) (meanwhile s)))
         | _ \<Rightarrow> None))"

definition StreamAudio :: "u64 \<Rightarrow> service \<Rightarrow> rpc_status \<times> service" where
  "StreamAudio now s = (UNIMPLEMENTED ''PoC'', touchActivity now s)"

section \<open>The watchdog\<close>

record server =
  sr_service :: service
  sr_tick :: nat

record server_env =
  rpcs :: "nat \<Rightarrow> service \<Rightarrow> service"
  srv_clock :: "nat \<Rightarrow> u64"

text \<open>What the RPC threads do before the next access of the watchdog's thread.\<close>

definition rpc_step :: "server_env \<Rightarrow> server \<Rightarrow> server" where
  "rpc_step e x = x\<lparr>sr_service := rpcs e (sr_tick x) (sr_service x), sr_tick := Suc (sr_tick x)\<rparr>"

text \<open>
  One round: \<open>!callActive() && idleSeconds() >= idle_shutdown_s\<close>, the second operand being a clock
  reading and a load.
\<close>

definition watchdog_round :: "config \<Rightarrow> server_env \<Rightarrow> server \<Rightarrow> server iter option" where
  "watchdog_round cfg e x =
    (let x = rpc_step e x in
     if callActive (sr_service x) then Some (Continue x)
     else let now = srv_clock e (sr_tick x); x = rpc_step e x;
              idle = idleSeconds now (sv_last_activity_ms (sr_service x))
     in if idle \<ge> ucast (idle_shutdown_s cfg)
        then Some (Stop (Next (x\<lparr>sr_service := setShuttingDown (sr_service x)\<rparr>)))
        else Some (Continue x))"

definition runGrpcServer :: "bool \<Rightarrow> config \<Rightarrow> server_env \<Rightarrow> u64 \<Rightarrow> int option" where
  "runGrpcServer started cfg e now =
    (if \<not> started then Some 1
     else case loop (watchdog_round cfg e) \<lparr>sr_service = CallAgentServiceImpl cfg now, sr_tick = 0\<rparr> of
            None \<Rightarrow> None | Some f \<Rightarrow> Some 0)"

text \<open>Where the client cancels the relay passes it on to the executor, where nobody does nobody does.\<close>

lemma relay_quiet [simp]: "\<forall>k. \<not> ctx_cancelled v k \<Longrightarrow> relay_cancels v rounds w = w"
  by (simp add: relay_cancels_def)

lemma never_cancelled: "no_cancel w \<Longrightarrow> \<forall>k. \<not> ctx_cancelled v k \<Longrightarrow> no_cancel (relay_cancels v rounds w)"
  by simp

lemma steady_quiet [simp]: "\<not> ctx_cancelled steady k" "\<not> ctx_cancelled (steady\<lparr>rpc_clock := t\<rparr>) k"
  by (simp_all add: steady_def)

lemma client_cancels:
  assumes "ctx_cancelled v k" and "rounds 0 = 0" and "k < rounds m"
  shows "\<exists>n. CancelStore \<in> set (others (relay_cancels v rounds w) n)"
proof -
  let ?seen = "\<lambda>n. \<exists>k < rounds n. ctx_cancelled v k"
  have "?seen m" "\<not> ?seen 0" using assms by auto
  then obtain n where "?seen (Suc n)" "\<not> ?seen n"
    using ex_least_nat_less [of ?seen m] by (metis Suc_eq_plus1 le_refl order_refl)
  moreover from this have "\<exists>k \<in> {rounds n..<rounds (Suc n)}. ctx_cancelled v k"
    by (meson atLeastLessThan_iff not_le)
  ultimately have "CancelStore \<in> set (others (relay_cancels v rounds w) n)"
    by (simp add: relay_cancels_def cancel_def)
  then show ?thesis ..
qed

section \<open>Properties\<close>

subsection \<open>Health\<close>

text \<open>
  Without another thread in between, a health check is consistent: it says busy exactly when it
  reports one active call (unless shutting down), the idle time is measured before the check itself
  counts as activity, and it changes nothing but the activity time.
\<close>

lemma health_consistent:
  assumes "Health (\<lambda>_ s. s) now now2 s = (st, h, s')"
  shows "st = OK \<and> (hr_state h = Health_SHUTTING_DOWN) = sv_shutting_down s
    \<and> (sv_shutting_down s \<or> (hr_state h = Health_BUSY) = (hr_active_calls h = 1))
    \<and> (hr_active_calls h = 1) = sv_call_active s \<and> hr_state h \<noteq> Health_UNSPECIFIED
    \<and> hr_idle_seconds h = ucast (idleSeconds now (sv_last_activity_ms s))
    \<and> s' = s\<lparr>sv_last_activity_ms := now2\<rparr>"
  using assms
  by (cases "sv_shutting_down s"; cases "sv_call_active s")
    (auto simp: Health_def touchActivity_def idleSeconds_def Let_def)

text \<open>
  With a call ending between its two reads of the flag, a health check contradicts itself: it
  reports the agent busy with no active call.
\<close>

lemma health_can_be_inconsistent:
  "\<exists>meanwhile s. (\<forall>k s. meanwhile k s = s \<or> meanwhile k s = active_guard 0 s)
     \<and> (case Health meanwhile now now2 s of (st, h, s') \<Rightarrow> hr_state h = Health_BUSY \<and> hr_active_calls h = 0)"
  by (rule exI [of _ "\<lambda>k s. if k = 3 then active_guard 0 s else s"],
      rule exI [of _ "(CallAgentServiceImpl Config 0)\<lparr>sv_call_active := True\<rparr>"])
    (simp add: Health_def touchActivity_def active_guard_def CallAgentServiceImpl_def Let_def)

subsection \<open>ExecuteCall\<close>


text \<open>
  One call at a time: while a call is active a second \<open>ExecuteCall\<close> is refused with
  \<open>ALREADY_EXISTS\<close>, writes nothing and leaves the running call's slot alone; otherwise the call gets
  the slot, and every way to finish (a bad request too) gives it back.
\<close>

lemma execute_call_slot:
  assumes "ExecuteCall now meanwhile rounds w v req s = Some (Finished_RPC st ms s')"
  shows "if sv_call_active s then (\<exists>m. st = ALREADY_EXISTS m) \<and> ms = [] \<and> sv_call_active s'
    else (\<forall>m. st \<noteq> ALREADY_EXISTS m) \<and> \<not> sv_call_active s' \<and> sv_last_activity_ms s' = now 1
      \<and> ((\<exists>m. st = INVALID_ARGUMENT m) = (validate req \<noteq> []))"
proof (cases "sv_call_active (touchActivity (now 0) s)")
  case True
  with assms call_slot.acquire_held [OF True] show ?thesis
    by (auto simp: ExecuteCall_def touchActivity_def)
next
  case False
  obtain s1 where s1: "try_acquire (touchActivity (now 0) s) = (True, s1)"
    using False by (simp add: try_acquire_def)
  have "\<not> sv_call_active (active_guard (now 1) x)" "sv_last_activity_ms (active_guard (now 1) x) = now 1" for x
    by (simp_all add: call_slot.release_free) (simp add: active_guard_def touchActivity_def)
  with assms False s1 show ?thesis
    by (auto simp: ExecuteCall_def Let_def touchActivity_def split: if_splits option.splits flow.splits)
qed

text \<open>What an accepted call is made of: a run that returned, and its transcript.\<close>

lemma accepted_call:
  assumes "ExecuteCall now meanwhile rounds w v req s = Some (Finished_RPC OK ms s')"
  obtains x r where "run (relay_cancels v rounds w) (CallExecutor (makeCallConfig (sv_base_config s) req)) = Some (Return x)"
    and "ms = transcript v (req_call_id req) 0 0 (x_emitted x)"
    and "relay_loop v (req_call_id req) (x_emitted x) = Some (Next r)" and "ms = rl_written r"
proof -
  obtain ok s1 where s1: "try_acquire (touchActivity (now 0) s) = (ok, s1)" by fastforce
  moreover have "sv_base_config s1 = sv_base_config s"
    using s1 by (auto simp: try_acquire_def touchActivity_def split: if_splits)
  ultimately obtain x r where x: "run (relay_cancels v rounds w) (CallExecutor (makeCallConfig (sv_base_config s) req)) = Some (Return x)"
      and r: "relay_loop v (req_call_id req) (x_emitted x) = Some (Next r)" and ms: "ms = rl_written r"
    using assms by (auto simp: ExecuteCall_def Let_def split: if_splits option.splits flow.splits)
  then have "ms = transcript v (req_call_id req) 0 0 (x_emitted x)"
    using relay_post [of v "req_call_id req" "x_emitted x"] by simp
  from that [OF x this r ms] show thesis .
qed



text \<open>A call whose registration is refused, for the witness.\<close>

lemma refused_call: obtains ms s' where
  "ExecuteCall (\<lambda>_. 9) id id (scenario [(2, [Callback (OnRegState 403 ''Forbidden'')])]) steady demo_request
     (CallAgentServiceImpl Config 0) = Some (Finished_RPC OK ms s')"
proof -
  let ?w = "scenario [(2, [Callback (OnRegState 403 ''Forbidden'')])]"
  have "\<exists>x. run ?w (CallExecutor (makeCallConfig Config demo_request)) = Some (Return x)"
    by (simp add: evaluation One_nat_def [symmetric] del: One_nat_def cong: eval_congs)
  then obtain x where x: "run ?w (CallExecutor (makeCallConfig Config demo_request)) = Some (Return x)"
    by blast
  obtain r where "relay_loop steady (req_call_id demo_request) (x_emitted x) = Some (Next r)"
    by (rule steady_returns)
  with x show thesis
    by (intro that)
      (simp add: ExecuteCall_def try_acquire_def touchActivity_def CallAgentServiceImpl_def demo_request_valid)
qed

text \<open>
  C17: what the client of an accepted call receives: unless the run was cancelled, the result message comes
  last, once, and carries the outcome the executor returned; where nobody cancels, that is every accepted
  call. A call that was cancelled ends its stream without any result message, although the contract of the
  service promises one.
\<close>

theorem stream_ends_with_result:
  assumes "ExecuteCall now meanwhile rounds w v req s = Some (Finished_RPC OK ms s')"
  shows "\<exists>x. run (relay_cancels v rounds w) (CallExecutor (makeCallConfig (sv_base_config s) req)) = Some (Return x)
    \<and> (no_cancel w \<and> (\<forall>k. \<not> ctx_cancelled v k) \<longrightarrow> status (x_result x) \<noteq> CANCELLED)
    \<and> (if status (x_result x) = CANCELLED then filter (\<lambda>m. is_terminal (ce_event m)) ms = []
       else filter (\<lambda>m. is_terminal (ce_event m)) ms = [last ms]
         \<and> (\<exists>m. ce_event (last ms) = Result m \<and> rm_status m = toProtoResultStatus (status (x_result x))
              \<and> rm_billing_seconds m = billing_seconds (x_result x) \<and> rm_error_message m = reason (x_result x)))"
proof -
  obtain x r where x: "run (relay_cancels v rounds w) (CallExecutor (makeCallConfig (sv_base_config s) req)) = Some (Return x)"
      and r: "relay_loop v (req_call_id req) (x_emitted x) = Some (Next r)" and ms: "ms = rl_written r"
    by (rule accepted_call [OF assms])
  have "status (x_result x) \<noteq> CANCELLED" if "no_cancel w" "\<forall>k. \<not> ctx_cancelled v k"
    using run_from_start [of "relay_cancels v rounds w" "makeCallConfig (sv_base_config s) req"] uncancelled_run [OF never_cancelled [OF that] x] x
      finished_outcome [of x]
    by (auto simp: returned_def aborted_def)
  with x relayed_result [OF x r] ms show ?thesis by (intro exI [of _ x]) simp
qed

theorem stream_ends_with_result_witness:
  "\<exists>ms s'. ExecuteCall (\<lambda>_. 9) id id (scenario [(2, [Callback (OnRegState 403 ''Forbidden'')])]) steady demo_request
     (CallAgentServiceImpl Config 0) = Some (Finished_RPC OK ms s') \<and> is_terminal (ce_event (last ms))"
proof -
  obtain ms s' where c: "ExecuteCall (\<lambda>_. 9) id id (scenario [(2, [Callback (OnRegState 403 ''Forbidden'')])]) steady
      demo_request (CallAgentServiceImpl Config 0) = Some (Finished_RPC OK ms s')" by (rule refused_call)
  have "no_cancel (scenario [(2, [Callback (OnRegState 403 ''Forbidden'')])])"
    by (simp add: no_cancel_def scenario_def)
  with stream_ends_with_result [OF c] have "\<exists>m. ce_event (last ms) = Result m" by auto
  with c show ?thesis by auto
qed

text \<open>
  C21: the times in the result message are those of the call. Suppose the RPC thread's clock never reads 0,
  which the code takes for "not started". The call ended at the clock reading that also stamps the result
  message. If the executor reported an answer, the call started at the reading that the RPC thread took right
  before the one that stamps the message of the last such report, and later events leave that start alone;
  otherwise the result has no start time. \<open>readings es\<close> is the number of readings taken for the events \<open>es\<close>.
\<close>

theorem result_times:
  assumes "ExecuteCall now meanwhile rounds w v req s = Some (Finished_RPC OK ms s')" and "\<And>n. rpc_clock v n > 0"
  shows "\<exists>x. run (relay_cancels v rounds w) (CallExecutor (makeCallConfig (sv_base_config s) req)) = Some (Return x)
    \<and> (status (x_result x) \<noteq> CANCELLED \<longrightarrow> (\<exists>m. ce_event (last ms) = Result m
        \<and> rm_ended_at m = Some (setTimestamp (rpc_clock v (readings (butlast (x_emitted x)))))
        \<and> ce_occurred_at (last ms) = setTimestamp (rpc_clock v (readings (butlast (x_emitted x))))
        \<and> (if \<exists>e \<in> set (x_emitted x). status e = ANSWERED \<and> \<not> is_result e
           then \<exists>es1 a es2. x_emitted x = es1 @ a # es2 \<and> status a = ANSWERED \<and> \<not> is_result a
             \<and> (\<forall>e \<in> set es2. \<not> (status e = ANSWERED \<and> \<not> is_result e))
             \<and> ce_occurred_at (ms ! length es1) = setTimestamp (rpc_clock v (Suc (readings es1)))
             \<and> rm_started_at m = Some (setTimestamp (rpc_clock v (readings es1)))
           else rm_started_at m = None)))"
proof -
  let ?run = "run (relay_cancels v rounds w) (CallExecutor (makeCallConfig (sv_base_config s) req))"
  obtain x where x: "?run = Some (Return x)" and ms: "ms = transcript v (req_call_id req) 0 0 (x_emitted x)"
    by (rule accepted_call [OF assms(1)])
  have "finished x" if "status (x_result x) \<noteq> CANCELLED"
    using run_from_start [of "relay_cancels v rounds w" "makeCallConfig (sv_base_config s) req"] x that
    by (auto simp: returned_def aborted_def)
  then have last: "x_emitted x \<noteq> [] \<and> result_event (last (x_emitted x))" if "status (x_result x) \<noteq> CANCELLED"
    using finished_results [of x] that by (auto simp: filter_eq_Cons_iff)
  show ?thesis unfolding ms
  proof (rule exI [of _ x], rule conjI [OF x], rule impI, goal_cases)
    case 1
    from transcript_times [OF conjunct1 [OF last [OF 1]] conjunct2 [OF last [OF 1]] assms(2)]
    show ?case unfolding conj_assoc .
  qed
qed

text \<open>An answered call, for the witness.\<close>

lemma answered_rpc: obtains ms s' x where
  "ExecuteCall (\<lambda>_. 9) id id answered_call (steady\<lparr>rpc_clock := \<lambda>n. if n < 4 then 7000 else 9000\<rparr>) (demo_request\<lparr>req_audio := WavUrl ''/a.wav''\<rparr>)
     (CallAgentServiceImpl Config 0) = Some (Finished_RPC OK ms s')"
  and "run answered_call (CallExecutor (makeCallConfig Config (demo_request\<lparr>req_audio := WavUrl ''/a.wav''\<rparr>))) = Some (Return x)"
  and "status (x_result x) = ANSWERED" and "\<exists>e \<in> set (x_emitted x). status e = ANSWERED \<and> \<not> is_result e"
proof -
  let ?v = "steady\<lparr>rpc_clock := \<lambda>n. if n < 4 then 7000 else 9000\<rparr>"
  have "\<exists>x. run answered_call (CallExecutor (makeCallConfig Config (demo_request\<lparr>req_audio := WavUrl ''/a.wav''\<rparr>))) = Some (Return x)
      \<and> status (x_result x) = ANSWERED \<and> (\<exists>e \<in> set (x_emitted x). status e = ANSWERED \<and> \<not> is_result e)"
    unfolding answered_call_def
    by (simp add: evaluation makeCallConfig_def demo_request_def sip_of_def Config_def One_nat_def [symmetric] del: One_nat_def cong: eval_congs)
  then obtain x where x: "run answered_call (CallExecutor (makeCallConfig Config (demo_request\<lparr>req_audio := WavUrl ''/a.wav''\<rparr>))) = Some (Return x)"
      "status (x_result x) = ANSWERED" "\<exists>e \<in> set (x_emitted x). status e = ANSWERED \<and> \<not> is_result e"
    by blast
  obtain f where f: "relay_loop ?v (req_call_id (demo_request\<lparr>req_audio := WavUrl ''/a.wav''\<rparr>)) (x_emitted x) = Some f"
    using relay_returns [of 0 ?v] by (auto simp: steady_def)
  then obtain r where "f = Next r" using relay_post [of ?v "req_call_id (demo_request\<lparr>req_audio := WavUrl ''/a.wav''\<rparr>)" "x_emitted x"] by (cases f) auto
  with x f show thesis
    by (intro that [of "rl_written r" _ x])
      (simp_all add: ExecuteCall_def try_acquire_def touchActivity_def CallAgentServiceImpl_def validate_def demo_request_def sip_of_def)
qed

theorem result_times_witness:
  "\<exists>ms s' m t. ExecuteCall (\<lambda>_. 9) id id answered_call (steady\<lparr>rpc_clock := \<lambda>n. if n < 4 then 7000 else 9000\<rparr>) (demo_request\<lparr>req_audio := WavUrl ''/a.wav''\<rparr>)
     (CallAgentServiceImpl Config 0) = Some (Finished_RPC OK ms s') \<and> ce_event (last ms) = Result m
     \<and> rm_started_at m = Some t"
proof (rule answered_rpc)
  fix ms s' x
  assume c: "ExecuteCall (\<lambda>_. 9) id id answered_call (steady\<lparr>rpc_clock := \<lambda>n. if n < 4 then 7000 else 9000\<rparr>) (demo_request\<lparr>req_audio := WavUrl ''/a.wav''\<rparr>)
     (CallAgentServiceImpl Config 0) = Some (Finished_RPC OK ms s')"
    and x: "run answered_call (CallExecutor (makeCallConfig Config (demo_request\<lparr>req_audio := WavUrl ''/a.wav''\<rparr>))) = Some (Return x)"
    "status (x_result x) = ANSWERED" "\<exists>e \<in> set (x_emitted x). status e = ANSWERED \<and> \<not> is_result e"
  have "sv_base_config (CallAgentServiceImpl Config 0) = Config" by (simp add: CallAgentServiceImpl_def)
  moreover have "0 < rpc_clock (steady\<lparr>rpc_clock := \<lambda>n. if n < 4 then 7000 else 9000\<rparr>) n" for n by simp
  ultimately have "\<exists>m t. ce_event (last ms) = Result m \<and> rm_started_at m = Some t"
    using result_times [OF c] x by auto
  with c show ?thesis by blast
qed

text \<open>
  C15: an RPC ends, with a status or with the process. This holds if the client cancels and the relay, which
  starts with the run, makes the round in which it sees that before the run is over; or if PJSIP reports the
  outcome of the registration, or stays silent while the clock runs past its timeout, and reports the end of a
  placed call (\<open>outcome_reported\<close>), and the clock passes the answer delay of an answered call for good
  (\<open>delay_passes\<close>). In both cases, from some round on, each round of the relay finds the call thread to have
  made progress. The request, the state of the service and everything else that happens to the executor are
  arbitrary.
\<close>

theorem execute_call_ends:
  assumes "(\<exists>k n. ctx_cancelled v k \<and> rounds 0 = 0 \<and> k < rounds n)
      \<or> outcome_reported (relay_cancels v rounds w) (makeCallConfig (sv_base_config s) req)
        \<and> delay_passes (relay_cancels v rounds w) (makeCallConfig (sv_base_config s) req)"
    and "\<And>i. m \<le> i \<Longrightarrow> 0 < arrive v i"
  shows "\<exists>out. ExecuteCall now meanwhile rounds w v req s = Some out"
proof -
  let ?w = "relay_cancels v rounds w" and ?cfg = "makeCallConfig (sv_base_config s) req"
  have runs: "\<exists>f. run ?w (CallExecutor ?cfg) = Some f \<and> (\<forall>x. f \<noteq> Next x)"
    using assms(1)
  proof
    assume "\<exists>k n. ctx_cancelled v k \<and> rounds 0 = 0 \<and> k < rounds n"
    then obtain n where c: "CancelStore \<in> set (others ?w n)" using client_cancels by blast
    then show ?thesis
      using total_run [of ?w n "CallExecutor ?cfg"] never_falls_through [of ?w ?cfg]
      by (auto simp: due_def CallExecutor_def total_def returns_def post_def)
  qed (elim conjE, rule outcome_ends)
  have relays: "\<exists>r. relay_loop v cid es = Some (Next r)" for cid es
  proof -
    obtain f where f: "relay_loop v cid es = Some f" using relay_returns [OF assms(2)] by blast
    with relay_post [of v cid es] show ?thesis by (cases f) auto
  qed
  obtain ok s1 where "try_acquire (touchActivity (now 0) s) = (ok, s1)" by fastforce
  moreover from this have "sv_base_config s1 = sv_base_config s"
    by (auto simp: try_acquire_def touchActivity_def split: if_splits)
  moreover obtain f where "run ?w (CallExecutor ?cfg) = Some f" "\<forall>x. f \<noteq> Next x"
    using runs by blast
  moreover obtain r where "relay_loop v (req_call_id req) (x_emitted (flow_state f)) = Some (Next r)"
    using relays by blast
  ultimately show ?thesis by (cases f) (auto simp: ExecuteCall_def Let_def)
qed

theorem execute_call_ends_witness:
  "\<exists>out. ExecuteCall (\<lambda>_. 9) id id (scenario []) (steady\<lparr>ctx_cancelled := \<lambda>k. 5 \<le> k\<rparr>) demo_request
     (CallAgentServiceImpl Config 0) = Some out"
  by (rule execute_call_ends [where m = 0], rule disjI1, rule exI [of _ 5], rule exI [of _ 6]) (simp_all add: steady_def)

subsection \<open>The watchdog\<close>

text \<open>The service after the first \<open>n\<close> accesses: the watchdog changes nothing until it stops.\<close>

fun served :: "server_env \<Rightarrow> nat \<Rightarrow> service \<Rightarrow> service" where
  "served e 0 s = s"
| "served e (Suc n) s = rpcs e n (served e n s)"

lemma served_quiet:
  assumes "\<And>n s. m \<le> n \<Longrightarrow> rpcs e n s = s" and "m \<le> n"
  shows "served e n s = served e m s"
  using assms(2) by (induction n rule: dec_induct) (simp_all add: assms(1))

text \<open>What a large enough idle time says of the two readings, as numbers.\<close>

lemma idle_reached:
  assumes "ucast (limit :: u32) \<le> idleSeconds t activity"
  shows "unat t < unat activity \<or> unat activity + 1000 * unat limit \<le> unat t"
proof (cases "activity \<le> t")
  case True
  then have "unat (t - activity) = unat t - unat activity" by (simp add: unat_sub)
  moreover have "unat limit \<le> unat (t - activity) div 1000"
    using assms by (simp add: idleSeconds_def word_le_nat_alt unat_div unat_ucast_32_64 del: unsigned_ucast_eq)
  ultimately have "unat limit \<le> (unat t - unat activity) div 1000" by simp
  then have "1000 * unat limit \<le> unat t - unat activity" by linarith
  with True show ?thesis by (cases "unat limit = 0") (auto simp: word_le_nat_alt)
qed (simp add: word_le_nat_alt)

text \<open>
  C23: the server stops by itself only when it is idle, as far as its two looks at the service can tell: when
  the watchdog leaves its loop, at some access it saw that no call was active, and at the next one it saw a
  time of the last activity that lies at least the limit, 1000 milliseconds per second, before the reading of
  the clock it had just taken, or after that reading, where the unsigned difference wraps. It leaves the
  service as the RPC threads made it up to then, but for the announced shutdown.
\<close>

theorem watchdog_stops_only_idle:
  assumes "loop (watchdog_round cfg e) \<lparr>sr_service = CallAgentServiceImpl cfg now, sr_tick = 0\<rparr> = Some f"
  shows "\<exists>x n. f = Next x \<and> (let s = CallAgentServiceImpl cfg now; seen = served e (Suc (Suc n)) s;
      t = srv_clock e (Suc n); activity = sv_last_activity_ms seen
    in \<not> sv_call_active (served e (Suc n) s) \<and> sr_service x = seen\<lparr>sv_shutting_down := True\<rparr>
      \<and> (unat t < unat activity \<or> unat activity + 1000 * unat (idle_shutdown_s cfg) \<le> unat t))"
proof -
  let ?s = "CallAgentServiceImpl cfg now"
  let ?N = "\<lambda>x :: server. \<exists>n. \<not> sv_call_active (served e (Suc n) ?s)
    \<and> sr_service x = (served e (Suc (Suc n)) ?s)\<lparr>sv_shutting_down := True\<rparr>
    \<and> ucast (idle_shutdown_s cfg) \<le> idleSeconds (srv_clock e (Suc n)) (sv_last_activity_ms (served e (Suc (Suc n)) ?s))"
  let ?I = "\<lambda>x :: server. sr_service x = served e (sr_tick x) ?s"
  have "post ?N (\<lambda>_. False) (\<lambda>_. False) (loop (watchdog_round cfg e) \<lparr>sr_service = ?s, sr_tick = 0\<rparr>)"
  proof (rule loop_post [where I = ?I])
    fix x assume x: "?I x"
    show "iter_post ?I ?N (\<lambda>_. False) (\<lambda>_. False) (watchdog_round cfg e x)"
      using x by (auto simp: watchdog_round_def rpc_step_def setShuttingDown_def callActive_def Let_def
          intro!: exI [of _ "sr_tick x"])
  qed simp
  with assms obtain x n where "f = Next x" "\<not> sv_call_active (served e (Suc n) ?s)"
      "sr_service x = (served e (Suc (Suc n)) ?s)\<lparr>sv_shutting_down := True\<rparr>"
      "ucast (idle_shutdown_s cfg) \<le> idleSeconds (srv_clock e (Suc n)) (sv_last_activity_ms (served e (Suc (Suc n)) ?s))"
    by (cases f) auto
  with idle_reached [OF this(4)] show ?thesis unfolding Let_def by blast
qed

theorem watchdog_stops_only_idle_witness:
  "\<exists>x. loop (watchdog_round Config \<lparr>rpcs = (\<lambda>_ s. s), srv_clock = (\<lambda>_. 400000)\<rparr>)
      \<lparr>sr_service = CallAgentServiceImpl Config 7, sr_tick = 0\<rparr> = Some (Next x)
     \<and> sv_shutting_down (sr_service x) \<and> 7 + 1000 * unat (idle_shutdown_s Config) \<le> unat (400000 :: u64)"
proof -
  let ?e = "\<lparr>rpcs = (\<lambda>_ s. s), srv_clock = (\<lambda>_. 400000)\<rparr> :: server_env"
  have "\<exists>f. loop (watchdog_round Config ?e) \<lparr>sr_service = CallAgentServiceImpl Config 7, sr_tick = 0\<rparr> = Some f"
    by (rule exI, rule loop_Stop)
      (simp add: watchdog_round_def rpc_step_def callActive_def CallAgentServiceImpl_def idleSeconds_def
        Config_def Let_def)
  then obtain f where f: "loop (watchdog_round Config ?e) \<lparr>sr_service = CallAgentServiceImpl Config 7, sr_tick = 0\<rparr> = Some f"
    by blast
  have quiet: "served ?e n s = s" for n s by (induction n) simp_all
  from watchdog_stops_only_idle [OF f] f show ?thesis
    unfolding quiet Let_def by (auto simp: CallAgentServiceImpl_def)
qed

text \<open>
  The watchdog never stops a server that is serving a call: as long as the RPC threads keep the
  call active, \<open>runGrpcServer\<close> goes on.
\<close>

lemma watchdog_spares_active_call:
  assumes "\<And>n s. sv_call_active (rpcs e n s)"
  shows "runGrpcServer True cfg e now = None"
proof -
  have "loop (watchdog_round cfg e) x = None" for x
    by (rule loop_diverges [where I = "\<lambda>_. True"])
      (simp_all add: watchdog_round_def rpc_step_def callActive_def assms Let_def)
  then show ?thesis by (simp add: runGrpcServer_def)
qed

text \<open>
  C22: an idle server stops: if from some moment on no RPC touches the service, no call is active then, and
  the clock shows from some moment on an idle time of at least the limit, the server shuts down and
  returns 0, whatever the RPCs did before.
\<close>

theorem idle_server_stops:
  assumes quiet: "\<And>n s. m \<le> n \<Longrightarrow> rpcs e n s = s"
    and free: "\<not> callActive (served e m (CallAgentServiceImpl cfg now))"
    and late: "\<And>n. k \<le> n \<Longrightarrow> ucast (idle_shutdown_s cfg)
      \<le> idleSeconds (srv_clock e n) (sv_last_activity_ms (served e m (CallAgentServiceImpl cfg now)))"
  shows "runGrpcServer True cfg e now = Some 0"
proof -
  let ?x = "\<lparr>sr_service = CallAgentServiceImpl cfg now, sr_tick = 0\<rparr>"
  let ?s = "served e m (CallAgentServiceImpl cfg now)"
  let ?I = "\<lambda>x :: server. sr_service x = served e (sr_tick x) (CallAgentServiceImpl cfg now)"
  have "returns (loop (watchdog_round cfg e) ?x)"
  proof (rule loop_returns [where I = ?I and m = "\<lambda>x :: server. m + k - sr_tick x"])
    fix x :: server assume I: "?I x"
    show "\<exists>i. watchdog_round cfg e x = Some i \<and> (\<forall>x'. i = Continue x' \<longrightarrow> ?I x' \<and> m + k - sr_tick x' < m + k - sr_tick x)"
    proof (cases "m + k \<le> sr_tick x")
      case True
      then have "served e (Suc (sr_tick x)) (CallAgentServiceImpl cfg now) = ?s"
        "served e (Suc (Suc (sr_tick x))) (CallAgentServiceImpl cfg now) = ?s"
        by (intro served_quiet quiet; simp)+
      with I free late [of "Suc (sr_tick x)"] True show ?thesis
        by (simp add: watchdog_round_def rpc_step_def callActive_def Let_def)
    next
      case False
      with I show ?thesis by (auto simp: watchdog_round_def rpc_step_def Let_def)
    qed
  qed simp
  then show ?thesis by (auto simp: runGrpcServer_def returns_def)
qed

theorem idle_server_stops_witness:
  "runGrpcServer True Config \<lparr>rpcs = (\<lambda>n s. if n = 1 then touchActivity 6000 s else s),
     srv_clock = (\<lambda>n. if n < 5 then 5000 else 400000)\<rparr> 0 = Some 0"
proof (rule idle_server_stops [of "Suc (Suc 0)" _ Config 0 5])
  let ?e = "\<lparr>rpcs = (\<lambda>n s. if n = 1 then touchActivity 6000 s else s),
     srv_clock = (\<lambda>n. if n < 5 then 5000 else 400000)\<rparr> :: server_env"
  show "\<not> callActive (served ?e (Suc (Suc 0)) (CallAgentServiceImpl Config 0))"
    by (simp add: callActive_def touchActivity_def CallAgentServiceImpl_def)
  show "ucast (idle_shutdown_s Config) \<le> idleSeconds (srv_clock ?e n)
      (sv_last_activity_ms (served ?e (Suc (Suc 0)) (CallAgentServiceImpl Config 0)))" if "5 \<le> n" for n
    using that by (simp add: touchActivity_def CallAgentServiceImpl_def idleSeconds_def Config_def)
qed simp

text \<open>
  C39: the idle time is an unsigned difference of two readings that are not taken together: an RPC that
  records its activity a millisecond after the watchdog has read the clock makes the idle time exceed
  every limit, and the server stops although it was never idle.
\<close>

theorem watchdog_idle_underflow:
  "ucast (limit :: u32) \<le> idleSeconds now (now + 1)
   \<and> (let e = \<lparr>rpcs = (\<lambda>n s. if n = 1 then touchActivity (now + 1) s else s), srv_clock = (\<lambda>_. now)\<rparr>
      in runGrpcServer True cfg e now = Some 0)"
proof -
  have big: "idleSeconds now (now + 1) = 18446744073709551"
  proof -
    have "now - (now + 1) = (- 1 :: u64)" by simp
    then show ?thesis by (simp add: idleSeconds_def)
  qed
  have le: "ucast (l :: u32) \<le> (18446744073709551 :: u64)" for l
  proof -
    have "unat l < 2 ^ 32" by (rule order_less_le_trans [OF unsigned_less]) simp
    then show ?thesis by (simp add: word_le_nat_alt unat_ucast_32_64 del: unsigned_ucast_eq)
  qed
  let ?e = "\<lparr>rpcs = (\<lambda>n s. if n = 1 then touchActivity (now + 1) s else s), srv_clock = (\<lambda>_. now)\<rparr>"
  have "\<exists>x. watchdog_round cfg ?e \<lparr>sr_service = CallAgentServiceImpl cfg now, sr_tick = 0\<rparr> = Some (Stop (Next x))"
    using le [of "idle_shutdown_s cfg"] big
    by (simp add: watchdog_round_def rpc_step_def callActive_def CallAgentServiceImpl_def touchActivity_def Let_def)
  then have "runGrpcServer True cfg ?e now = Some 0" by (auto simp: runGrpcServer_def loop_Stop)
  with big le show ?thesis by (simp add: Let_def)
qed

end
