(* ===== verification/Grpc_Concurrency.thy ===== *)
theory Grpc_Concurrency
  imports Grpc_Service
begin

text \<open>
  The threads of \<open>src/grpc_server.cpp\<close> together: any number of RPC threads and the watchdog, as a step
  relation whose steps are the atomic accesses to the shared service. Each step is an operation of
  \<open>Grpc_Service\<close>; the interleaving and every clock reading are arbitrary. The promise of the service,
  one call at a time, is an abstract lock: it accepts the history of every sequence of steps.
\<close>

section \<open>The system\<close>

datatype phase = Absent | Entered | Holding | Running | Ended rpc_status

datatype watchdog = Sleeping | Saw_Inactive | Stopped

record system =
  sy_service :: service
  sy_phase :: "nat \<Rightarrow> phase"
  sy_request :: "nat \<Rightarrow> call_request"
  sy_watchdog :: watchdog

text \<open>
  \<open>ExecuteCall\<close> of RPC \<open>r\<close>: \<open>enter\<close> records the activity, \<open>admit\<close> or \<open>refuse\<close> is the compare-and-exchange,
  \<open>invalid\<close> the refusal of the request, \<open>start\<close> and \<open>finish\<close> enclose the call; the guard's destructor
  is part of \<open>invalid\<close> and \<open>finish\<close>. \<open>other\<close> is a health check or an audio stream. The watchdog reads
  the flag and the idle time in two steps.
\<close>

inductive step :: "system \<Rightarrow> system \<Rightarrow> bool" where
  enter: "sy_phase x r = Absent \<Longrightarrow>
    step x (x\<lparr>sy_service := touchActivity now (sy_service x), sy_phase := (sy_phase x)(r := Entered)\<rparr>)"
| admit: "sy_phase x r = Entered \<Longrightarrow> try_acquire (sy_service x) = (True, s) \<Longrightarrow>
    step x (x\<lparr>sy_service := s, sy_phase := (sy_phase x)(r := Holding)\<rparr>)"
| refuse: "sy_phase x r = Entered \<Longrightarrow> try_acquire (sy_service x) = (False, s) \<Longrightarrow>
    step x (x\<lparr>sy_service := s,
      sy_phase := (sy_phase x)(r := Ended (ALREADY_EXISTS ''a call is already in progress''))\<rparr>)"
| invalid: "sy_phase x r = Holding \<Longrightarrow> validate (sy_request x r) \<noteq> [] \<Longrightarrow>
    step x (x\<lparr>sy_service := active_guard now (sy_service x),
      sy_phase := (sy_phase x)(r := Ended (INVALID_ARGUMENT (validate (sy_request x r))))\<rparr>)"
| start: "sy_phase x r = Holding \<Longrightarrow> validate (sy_request x r) = [] \<Longrightarrow>
    step x (x\<lparr>sy_phase := (sy_phase x)(r := Running)\<rparr>)"
| finish: "sy_phase x r = Running \<Longrightarrow>
    step x (x\<lparr>sy_service := active_guard now (sy_service x), sy_phase := (sy_phase x)(r := Ended OK)\<rparr>)"
| other: "step x (x\<lparr>sy_service := touchActivity now (sy_service x)\<rparr>)"
| wd_look: "sy_watchdog x = Sleeping \<Longrightarrow> \<not> callActive (sy_service x) \<Longrightarrow>
    step x (x\<lparr>sy_watchdog := Saw_Inactive\<rparr>)"
| wd_wait: "sy_watchdog x = Saw_Inactive \<Longrightarrow>
    idleSeconds now (sv_last_activity_ms (sy_service x)) < ucast (idle_shutdown_s (sv_base_config (sy_service x))) \<Longrightarrow>
    step x (x\<lparr>sy_watchdog := Sleeping\<rparr>)"
| wd_stop: "sy_watchdog x = Saw_Inactive \<Longrightarrow>
    ucast (idle_shutdown_s (sv_base_config (sy_service x))) \<le> idleSeconds now (sv_last_activity_ms (sy_service x)) \<Longrightarrow>
    step x (x\<lparr>sy_service := setShuttingDown (sy_service x), sy_watchdog := Stopped\<rparr>)"

inductive_cases step_elims: "step x x'"

definition boot :: "config \<Rightarrow> u64 \<Rightarrow> (nat \<Rightarrow> call_request) \<Rightarrow> system" where
  "boot cfg now reqs = \<lparr>sy_service = CallAgentServiceImpl cfg now, sy_phase = (\<lambda>_. Absent),
     sy_request = reqs, sy_watchdog = Sleeping\<rparr>"

inductive reachable :: "system \<Rightarrow> bool" where
  booted: "reachable (boot cfg now reqs)"
| stepped: "reachable x \<Longrightarrow> step x x' \<Longrightarrow> reachable x'"

section \<open>The abstract lock\<close>

text \<open>
  What the service promises: a lock, seen through its history. A call acquires it only when it is free, is
  refused only while another call owns it, and only its owner releases it. \<open>lock_run\<close> replays a history from
  an owner and fails where the lock would not have behaved so.
\<close>

datatype lock_event = Acquired nat | Refused nat | Released nat

fun lock_run :: "lock_event list \<Rightarrow> nat option \<Rightarrow> nat option option" where
  "lock_run [] o' = Some o'"
| "lock_run (Acquired r # ls) o' = (if o' = None then lock_run ls (Some r) else None)"
| "lock_run (Refused r # ls) o' = (if o' \<noteq> None \<and> o' \<noteq> Some r then lock_run ls o' else None)"
| "lock_run (Released r # ls) o' = (if o' = Some r then lock_run ls None else None)"

lemma lock_run_append: "lock_run (as @ bs) o' = Option.bind (lock_run as o') (lock_run bs)"
  by (induction as o' rule: lock_run.induct) auto

text \<open>
  What a client of the service sees of the lock when an RPC goes from one phase to another: the answer to its
  exchange, and the end of an admitted call.
\<close>

fun lock_call :: "phase \<Rightarrow> nat \<Rightarrow> phase \<Rightarrow> lock_event list" where
  "lock_call Entered r Holding = [Acquired r]"
| "lock_call Entered r (Ended st) = [Refused r]"
| "lock_call Holding r (Ended st) = [Released r]"
| "lock_call Running r (Ended st) = [Released r]"
| "lock_call p r p' = []"

lemma lock_call_same [simp]: "lock_call p r p = []"
  by (cases p) simp_all

text \<open>The history of a sequence of steps from the start of the server; each changes the phase of one RPC at most.\<close>

inductive history :: "system \<Rightarrow> lock_event list \<Rightarrow> bool" where
  begun: "history (boot cfg now reqs) []"
| went: "history x ls \<Longrightarrow> step x x' \<Longrightarrow> sy_phase x' = (sy_phase x)(r := p) \<Longrightarrow>
    history x' (ls @ lock_call (sy_phase x r) r p)"

definition inside :: "system \<Rightarrow> nat \<Rightarrow> bool" where
  "inside x r \<longleftrightarrow> sy_phase x r = Holding \<or> sy_phase x r = Running"

text \<open>The abstraction: the owner is the RPC between the exchange and the guard's destructor.\<close>

definition owned_by :: "system \<Rightarrow> nat option \<Rightarrow> bool" where
  "owned_by x o' \<longleftrightarrow> (\<forall>r. inside x r \<longleftrightarrow> o' = Some r) \<and> sv_call_active (sy_service x) = (o' \<noteq> None)
     \<and> sv_shutting_down (sy_service x) = (sy_watchdog x = Stopped)"

lemma service_fields [simp]:
  "sv_call_active (touchActivity now s) = sv_call_active s"
  "sv_shutting_down (touchActivity now s) = sv_shutting_down s"
  "sv_call_active (active_guard now s) = False" "sv_shutting_down (active_guard now s) = sv_shutting_down s"
  "sv_call_active (setShuttingDown s) = sv_call_active s" "sv_shutting_down (setShuttingDown s)"
  by (simp_all add: touchActivity_def active_guard_def setShuttingDown_def)

lemma owned_inside: "owned_by x o' \<Longrightarrow> inside x r \<longleftrightarrow> o' = Some r"
  by (simp add: owned_by_def)

lemma owned_boot: "owned_by (boot cfg now reqs) None"
  by (simp add: owned_by_def boot_def inside_def CallAgentServiceImpl_def)

lemma updated_at: "f(r := p) = f(r' := p') \<Longrightarrow> f r' \<noteq> p' \<Longrightarrow> r = r' \<and> p = p'"
  by (metis fun_upd_apply)

lemma unchanged: "\<exists>r p. f = f(r := p)"
  by (rule exI, rule exI, rule fun_upd_triv [symmetric])

lemma unchanged_call: "f = f(r := p) \<Longrightarrow> lock_call (f r) r p = []"
  by (metis fun_upd_same lock_call_same)

lemma step_phase: "step x x' \<Longrightarrow> \<exists>r p. sy_phase x' = (sy_phase x)(r := p)"
  by (erule step_elims) (auto intro: unchanged)

text \<open>The simulation: what a step of the system shows of the lock, the lock can do.\<close>

lemma step_simulates:
  assumes "step x x'" and own: "owned_by x o1" and at: "sy_phase x' = (sy_phase x)(r := p)"
  shows "\<exists>o2. lock_run (lock_call (sy_phase x r) r p) o1 = Some o2 \<and> owned_by x' o2"
  using assms(1)
proof cases
  case (admit r' s)
  then have r': "r = r'" "p = Holding" using updated_at [of "sy_phase x" r p r' Holding] at by auto
  have free: "o1 = None"
    using admit own call_slot.acquire_success [of "sy_service x"] by (simp add: owned_by_def)
  have "sv_call_active s" "sv_shutting_down s = sv_shutting_down (sy_service x)"
    using admit by (auto simp: try_acquire_def split: if_splits)
  then have "owned_by x' (Some r)"
    using own free admit r' by (auto simp: owned_by_def inside_def)
  then show ?thesis using free admit r' by simp
next
  case (refuse r' s)
  let ?refusal = "Ended (ALREADY_EXISTS ''a call is already in progress'')"
  from refuse have r': "r = r'" "p = ?refusal" using updated_at [of "sy_phase x" r p r' ?refusal] at by auto
  have same: "s = sy_service x" "sv_call_active s" using refuse by (auto simp: try_acquire_def split: if_splits)
  have "o1 \<noteq> Some r" using owned_inside [OF own, of r] refuse(2) r' by (simp add: inside_def)
  moreover from this have "owned_by x' o1" using own refuse same r' by (auto simp: owned_by_def inside_def)
  ultimately show ?thesis using own same refuse r' by (simp add: owned_by_def)
next
  case (invalid r' now)
  let ?refusal = "Ended (INVALID_ARGUMENT (validate (sy_request x r')))"
  from invalid have r': "r = r'" "p = ?refusal" using updated_at [of "sy_phase x" r p r' ?refusal] at by auto
  then have mine: "o1 = Some r" using owned_inside [OF own, of r] invalid by (simp add: inside_def)
  have "owned_by x' None" using own invalid mine r' by (auto simp: owned_by_def inside_def)
  then show ?thesis using mine invalid r' by simp
next
  case (finish r' now)
  then have r': "r = r'" "p = Ended OK" using updated_at [of "sy_phase x" r p r' "Ended OK"] at by auto
  then have mine: "o1 = Some r" using owned_inside [OF own, of r] finish by (simp add: inside_def)
  have "owned_by x' None" using own finish mine r' by (auto simp: owned_by_def inside_def)
  then show ?thesis using mine finish r' by simp
next
  case (enter r' now)
  then have r': "r = r'" "p = Entered" using updated_at [of "sy_phase x" r p r' Entered] at by auto
  then have "o1 \<noteq> Some r" using owned_inside [OF own, of r] enter by (simp add: inside_def)
  then have "owned_by x' o1" using own enter r' by (auto simp: owned_by_def inside_def)
  then show ?thesis using enter r' by simp
next
  case (start r')
  then have r': "r = r'" "p = Running" using updated_at [of "sy_phase x" r p r' Running] at by auto
  then have "o1 = Some r" using owned_inside [OF own, of r] start by (simp add: inside_def)
  then have "owned_by x' o1" using own start r' by (auto simp: owned_by_def inside_def)
  then show ?thesis using start r' by simp
qed (use own at unchanged_call [of "sy_phase x" r p] in \<open>auto simp: owned_by_def inside_def intro!: exI [of _ o1]\<close>)

lemma history_owned: "history x ls \<Longrightarrow> \<exists>o'. lock_run ls None = Some o' \<and> owned_by x o'"
proof (induction rule: history.induct)
  case (begun cfg now reqs)
  then show ?case using owned_boot by simp
next
  case (went x ls x' r p)
  then show ?case using step_simulates [OF went(2) _ went(3)] by (auto simp: lock_run_append)
qed

lemma reachable_history: "reachable x \<Longrightarrow> \<exists>ls. history x ls"
proof (induction rule: reachable.induct)
  case (stepped x x')
  then show ?case using step_phase [of x x'] went by blast
qed (blast intro: begun)

lemma reachable_owned: "reachable x \<Longrightarrow> \<exists>o'. owned_by x o'"
  using reachable_history history_owned by blast

section \<open>Properties\<close>

text \<open>
  C10: the service refines the lock: the history of every sequence of steps of its threads, in which each answer
  to a compare-and-exchange and each end of an admitted call is an entry, is one the lock accepts. So a call
  is admitted only when no other owns the slot, refused only while another one owns it, and the slot is
  released once by each admitted call and by nobody else. The owner after the history is the RPC that is
  between its exchange and its guard's destructor, and the flag \<open>call_active_\<close> is set exactly when there is one.
\<close>

theorem service_refines_lock:
  assumes "history x ls"
  shows "\<exists>o'. lock_run ls None = Some o' \<and> (\<forall>r. inside x r \<longleftrightarrow> o' = Some r)
    \<and> sv_call_active (sy_service x) = (o' \<noteq> None)"
  using history_owned [OF assms] by (auto simp: owned_by_def)

text \<open>One call is admitted, a second one is refused meanwhile, and the first one ends.\<close>

lemma history_step:
  assumes "history x ls" and "step x x'" and "sy_phase x' = (sy_phase x)(r := p)"
    and "ls' = ls @ lock_call (sy_phase x r) r p"
  shows "history x' ls'"
  using went [OF assms(1-3)] assms(4) by simp

lemma busy_history: "\<exists>x. history x [Acquired 0, Refused 1, Released 0] \<and> sy_phase x 0 = Ended OK"
proof -
  let ?x0 = "boot Config 0 (\<lambda>_. demo_request)"
  let ?x1 = "?x0\<lparr>sy_service := touchActivity 1 (sy_service ?x0), sy_phase := (sy_phase ?x0)(0 := Entered)\<rparr>"
  let ?x2 = "?x1\<lparr>sy_service := snd (try_acquire (sy_service ?x1)), sy_phase := (sy_phase ?x1)(0 := Holding)\<rparr>"
  let ?x3 = "?x2\<lparr>sy_phase := (sy_phase ?x2)(0 := Running)\<rparr>"
  let ?x4 = "?x3\<lparr>sy_service := touchActivity 2 (sy_service ?x3), sy_phase := (sy_phase ?x3)(1 := Entered)\<rparr>"
  let ?busy = "Ended (ALREADY_EXISTS ''a call is already in progress'')"
  let ?x5 = "?x4\<lparr>sy_service := snd (try_acquire (sy_service ?x4)), sy_phase := (sy_phase ?x4)(1 := ?busy)\<rparr>"
  let ?x6 = "?x5\<lparr>sy_service := active_guard 3 (sy_service ?x5), sy_phase := (sy_phase ?x5)(0 := Ended OK)\<rparr>"
  note eval = boot_def try_acquire_def touchActivity_def CallAgentServiceImpl_def demo_request_valid
  have "history ?x1 []"
    by (rule history_step [where r = 0 and p = Entered, OF begun enter]) (simp_all add: eval)
  then have "history ?x2 [Acquired 0]"
    by (rule history_step [where r = 0 and p = Holding, OF _ admit]) (simp_all add: eval)
  then have "history ?x3 [Acquired 0]"
    by (rule history_step [where r = 0 and p = Running, OF _ start]) (simp_all add: eval)
  then have "history ?x4 [Acquired 0]"
    by (rule history_step [where r = 1 and p = Entered, OF _ enter]) (simp_all add: eval)
  then have "history ?x5 [Acquired 0, Refused 1]"
    by (rule history_step [where r = 1 and p = ?busy, OF _ refuse]) (simp_all add: eval)
  then have "history ?x6 [Acquired 0, Refused 1, Released 0]"
    by (rule history_step [where r = 0 and p = "Ended OK", OF _ finish]) (simp_all add: eval)
  then show ?thesis by (intro exI [of _ ?x6] conjI) simp_all
qed

theorem service_refines_lock_witness:
  "\<exists>x. history x [Acquired 0, Refused 1, Released 0] \<and> \<not> sv_call_active (sy_service x) \<and> (\<forall>r. \<not> inside x r)"
proof -
  obtain x where h: "history x [Acquired 0, Refused 1, Released 0]" using busy_history by blast
  from service_refines_lock [OF h] h show ?thesis by auto
qed

text \<open>
  C7: mutual exclusion: whatever the interleaving, two RPCs are never both past the exchange, the flag
  \<open>call_active_\<close> is set exactly while one is, and health checks say shutting down exactly after the
  watchdog stopped the server.
\<close>

theorem one_call_at_a_time:
  assumes "reachable x"
  shows "(inside x r1 \<and> inside x r2 \<longrightarrow> r1 = r2) \<and> sv_call_active (sy_service x) = (\<exists>r. inside x r)
    \<and> sv_shutting_down (sy_service x) = (sy_watchdog x = Stopped)"
  using reachable_owned [OF assms] by (auto simp: owned_by_def)

lemma reachable_running:
  "\<exists>x. reachable x \<and> sy_phase x 0 = Running \<and> sy_phase x 1 = Entered"
proof -
  let ?x0 = "boot Config 0 (\<lambda>_. demo_request)"
  let ?x1 = "?x0\<lparr>sy_service := touchActivity 1 (sy_service ?x0), sy_phase := (sy_phase ?x0)(0 := Entered)\<rparr>"
  let ?x2 = "?x1\<lparr>sy_service := snd (try_acquire (sy_service ?x1)), sy_phase := (sy_phase ?x1)(0 := Holding)\<rparr>"
  let ?x3 = "?x2\<lparr>sy_phase := (sy_phase ?x2)(0 := Running)\<rparr>"
  let ?x4 = "?x3\<lparr>sy_service := touchActivity 2 (sy_service ?x3), sy_phase := (sy_phase ?x3)(1 := Entered)\<rparr>"
  have r1: "reachable ?x1" by (rule stepped [OF booted], rule enter) (simp add: boot_def)
  have r2: "reachable ?x2"
    by (rule stepped [OF r1], rule admit)
      (simp_all add: boot_def try_acquire_def touchActivity_def CallAgentServiceImpl_def)
  have r3: "reachable ?x3" by (rule stepped [OF r2], rule start) (simp_all add: boot_def demo_request_valid)
  have r4: "reachable ?x4" by (rule stepped [OF r3], rule enter) (simp add: boot_def)
  show ?thesis by (rule exI [of _ ?x4], intro conjI, rule r4) simp_all
qed

theorem one_call_at_a_time_witness:
  "\<exists>x. reachable x \<and> inside x 0 \<and> \<not> inside x 1 \<and> sv_call_active (sy_service x)"
proof -
  obtain x where x: "reachable x" "sy_phase x 0 = Running" "sy_phase x 1 = Entered"
    using reachable_running by blast
  from one_call_at_a_time [OF x(1), of 0 1] x show ?thesis by (auto simp: inside_def)
qed




text \<open>
  A refused RPC is refused for a reason: whenever an RPC has ended with \<open>ALREADY_EXISTS\<close>, at the
  step that ended it another RPC held the slot.
\<close>

lemma refusal_means_busy:
  assumes "reachable x" and "step x x'" and "sy_phase x r = Entered" and "sy_phase x' r = Ended st"
  shows "\<exists>r'. r' \<noteq> r \<and> inside x r' \<and> inside x' r' \<and> (\<exists>m. st = ALREADY_EXISTS m)"
proof -
  from assms(2-4) have act: "sv_call_active (sy_service x) \<and> (\<exists>m. st = ALREADY_EXISTS m)
      \<and> (\<forall>r'. r' \<noteq> r \<longrightarrow> sy_phase x' r' = sy_phase x r')"
    by (elim step_elims) (auto simp: try_acquire_def split: if_splits)
  then obtain r' where r': "inside x r'"
    using reachable_owned [OF assms(1)] by (auto simp: owned_by_def)
  with assms(3) have "r' \<noteq> r" by (auto simp: inside_def)
  with act r' show ?thesis by (auto simp: inside_def)
qed

end
