(* ===== verification/Main_Program.thy ===== *)
theory Main_Program
  imports Grpc_Service
begin

text \<open>
  \<open>src/main.cpp\<close>: the choice between the command line and the server, and the command-line call. The
  process arguments, the standard input, the option library, the environment variables and the
  environment of the executor and of the server are arguments; the result is the exit status with the
  lines the program's own code prints on standard output (help texts are the option library's), a
  crash by an uncaught exception with the lines printed before it, or \<open>None\<close> for a process that never ends.
\<close>

section \<open>The program\<close>

fun server_mode_in :: "string list \<Rightarrow> bool" where
  "server_mode_in [] = False"
| "server_mode_in (a # rest) =
    (if a = ''--mode'' \<and> rest \<noteq> [] then hd rest = ''server''
     else if a = ''--mode=server'' then True
     else server_mode_in rest)"

definition isServerMode :: "string list \<Rightarrow> bool" where
  "isServerMode argv = server_mode_in (tl argv)"

definition getline :: "string \<Rightarrow> string" where
  "getline input = takeWhile (\<lambda>c. c \<noteq> CHR 0x0A) input"

datatype process_end = Exited int "string list" | Crashed "string list"

record world =
  w_app :: "string list \<Rightarrow> cli_vals \<Rightarrow> int + cli_vals"
  w_env :: "string \<Rightarrow> string option"
  w_stdin :: string
  w_call :: env
  w_server :: server_env
  w_listening :: bool
  w_boot :: u64
  w_dump :: "json_obj \<Rightarrow> string"
  w_ts :: "nat \<Rightarrow> nat"

text \<open>The sink of the command line prints each event as a JSON line, with its own time stamp.\<close>

fun print_lines :: "(json_obj \<Rightarrow> string) \<Rightarrow> (nat \<Rightarrow> nat) \<Rightarrow> nat \<Rightarrow> agent_event list \<Rightarrow> string list" where
  "print_lines dump ts n [] = []"
| "print_lines dump ts n (e # es) = toJson dump e (ts n) # print_lines dump ts (Suc n) es"

definition main :: "world \<Rightarrow> string list \<Rightarrow> process_end option" where
  "main w argv =
    (if length argv = 2 \<and> argv ! 1 = ''--version'' then Some (Exited 0 [''pjcppagent 0.1.0''])
     else let stdin_line = (if \<not> isServerMode argv then getline (w_stdin w) else '''') in
     case parse (w_app w) (w_env w) argv stdin_line of
       Inl (Exit code msgs) \<Rightarrow> Some (Exited code [])
     | Inl (Uncaught x) \<Rightarrow> Some (Crashed [])
     | Inr config \<Rightarrow>
         if mode config = SERVER then
           map_option (\<lambda>code. Exited code []) (runGrpcServer (w_listening w) config (w_server w) (w_boot w))
         else case run (w_call w) (CallExecutor config) of
           None \<Rightarrow> None
         | Some (Return s) \<Rightarrow> Some (Exited (statusToExitCode (status (x_result s)))
             (print_lines (w_dump w) (w_ts w) 0 (x_emitted s)))
         | Some (Throw s) \<Rightarrow> Some (Crashed (print_lines (w_dump w) (w_ts w) 0 (x_emitted s)))
         | Some (Next s) \<Rightarrow> None)"

section \<open>Properties\<close>

text \<open>The JSON objects the sink dumps, in the order of the events.\<close>

fun printed :: "(nat \<Rightarrow> nat) \<Rightarrow> nat \<Rightarrow> agent_event list \<Rightarrow> json_obj list" where
  "printed ts n [] = []"
| "printed ts n (e # es) = toJson_obj e (ts n) # printed ts (Suc n) es"

lemma print_lines_printed: "print_lines dump ts n es = map dump (printed ts n es)"
  by (induction es arbitrary: n) (auto simp: toJson_def)

lemma printed_objects: "printed ts n es = map (\<lambda>i. toJson_obj (es ! i) (ts (n + i))) [0..<length es]"
proof (induction es arbitrary: n)
  case (Cons e es)
  have "[0..<length (e # es)] = 0 # map Suc [0..<length es]"
    by (metis list.size(4) add.right_neutral add_Suc_right map_Suc_upt upt_conv_Cons zero_less_Suc)
  with Cons.IH [of "Suc n"] show ?case by (simp add: o_def)
qed simp

text \<open>What a process that runs a call from the command line does, for parsed arguments.\<close>

lemma main_cli:
  assumes "parse (w_app w) (w_env w) argv (if isServerMode argv then '''' else getline (w_stdin w)) = Inr c"
    and "mode c = CLI" and "\<not> (length argv = 2 \<and> argv ! 1 = ''--version'')"
  shows "main w argv = (case run (w_call w) (CallExecutor c) of None \<Rightarrow> None
      | Some (Return s) \<Rightarrow> Some (Exited (statusToExitCode (status (x_result s)))
          (print_lines (w_dump w) (w_ts w) 0 (x_emitted s)))
      | Some (Throw s) \<Rightarrow> Some (Crashed (print_lines (w_dump w) (w_ts w) 0 (x_emitted s)))
      | Some (Next s) \<Rightarrow> None)"
  using assms by (cases "isServerMode argv") (auto simp: main_def Let_def)

text \<open>
  C16: the output of a process whose arguments, not \<open>--version\<close> alone, parse to a command-line call, and which
  exits, so that no exception left the run. The run returned, and the exit status, 0, 3, 4, 5 or 6, is that of
  the status it returned. The output has one line per event the executor emitted, in their order: the \<open>i\<close>-th
  line is the JSON form of the \<open>i\<close>-th event with the time of its own printing. With exit status 6 no line is a
  result; otherwise the last line is, no other is, and it carries the status, the SIP code and the billed
  seconds the run returned. As long as nobody cancels, and nothing in the command-line mode does, the exit
  status is not 6.
\<close>

theorem cli_output:
  assumes "parse (w_app w) (w_env w) argv (if isServerMode argv then '''' else getline (w_stdin w)) = Inr c"
    and "mode c = CLI" and "\<not> (length argv = 2 \<and> argv ! 1 = ''--version'')"
    and "main w argv = Some (Exited code out)"
  shows "\<exists>s. run (w_call w) (CallExecutor c) = Some (Return s) \<and> code = statusToExitCode (status (x_result s))
    \<and> code \<in> {0, 3, 4, 5, 6} \<and> (no_cancel (w_call w) \<longrightarrow> code \<noteq> 6)
    \<and> (let js = map (\<lambda>i. toJson_obj (x_emitted s ! i) (w_ts w i)) [0..<length (x_emitted s)]
       in out = map (w_dump w) js
         \<and> (if code = 6 then \<forall>j \<in> set js. \<not> json_terminal j
            else js \<noteq> [] \<and> json_terminal (last js) \<and> (\<forall>j \<in> set (butlast js). \<not> json_terminal j)
              \<and> json_get (last js) ''status'' = Some (JStr (callStatusToString (status (x_result s))))
              \<and> json_get (last js) ''sip_code'' = Some (JInt (sip_code (x_result s)))
              \<and> json_get (last js) ''billing_seconds'' = Some (JInt (uint (billing_seconds (x_result s))))))"
proof -
  from main_cli [OF assms(1-3)] assms(4) obtain s where r: "run (w_call w) (CallExecutor c) = Some (Return s)"
      and code: "code = statusToExitCode (status (x_result s))"
      and out: "out = print_lines (w_dump w) (w_ts w) 0 (x_emitted s)"
    by (auto split: option.splits flow.splits)
  let ?es = "x_emitted s"
  let ?js = "map (\<lambda>i. toJson_obj (?es ! i) (w_ts w i)) [0..<length ?es]"
  have out': "out = map (w_dump w) ?js" unfolding out print_lines_printed printed_objects [of "w_ts w" 0] by simp
  have spared: "no_cancel (w_call w) \<longrightarrow> \<not> x_cancelled s" using uncancelled_run [OF _ r] by auto
  from run_from_start [of "w_call w" c] r have "finished s \<or> aborted s" by (simp add: returned_def)
  then have "code \<in> {0, 3, 4, 5, 6} \<and> (no_cancel (w_call w) \<longrightarrow> code \<noteq> 6)
      \<and> (if code = 6 then \<forall>j \<in> set ?js. \<not> json_terminal j
         else ?js \<noteq> [] \<and> json_terminal (last ?js) \<and> (\<forall>j \<in> set (butlast ?js). \<not> json_terminal j)
           \<and> json_get (last ?js) ''status'' = Some (JStr (callStatusToString (status (x_result s))))
           \<and> json_get (last ?js) ''sip_code'' = Some (JInt (sip_code (x_result s)))
           \<and> json_get (last ?js) ''billing_seconds'' = Some (JInt (uint (billing_seconds (x_result s)))))"
  proof
    assume fin: "finished s"
    have "code \<in> {0, 3, 4, 5}"
      using finished_outcome [OF fin] code by (auto simp: outcome_status_def statusToExitCode_def)
    moreover obtain as z where es: "?es = as @ [z]" "filter result_event as = []" "result_event z"
      using finished_results [OF fin] by (cases ?es rule: rev_cases) (auto split: if_splits simp: filter_eq_Cons_iff)
    moreover have "matches z (x_result s)" using fin es(1) by (simp add: finished_def)
    ultimately show ?thesis
      using json_result_fields(1-3) [OF es(3)]
      by (auto simp: json_lines.terminal_encode nth_append filter_empty_conv matches_def)
  next
    assume ab: "aborted s"
    then obtain q where "at q s" "q \<noteq> Finished" by (auto simp: aborted_def)
    from unfinished_results [OF this] ab code spared show ?thesis
      by (auto simp: aborted_def statusToExitCode_def json_lines.terminal_encode filter_empty_conv)
  qed
  with r code out' show ?thesis unfolding Let_def by blast
qed

definition demo_main :: "env \<Rightarrow> world" where
  "demo_main e = \<lparr>w_app = demo_app, w_env = demo_env, w_stdin = ''wav:/a.wav'', w_call = e,
     w_server = \<lparr>rpcs = (\<lambda>_ s. s), srv_clock = (\<lambda>_. 0)\<rparr>, w_listening = True, w_boot = 0,
     w_dump = (\<lambda>_. ''{}''), w_ts = (\<lambda>n. n)\<rparr>"

lemma demo_line: "isServerMode [''prog'', ''--dest'', ''200''] = False" "getline ''wav:/a.wav'' = ''wav:/a.wav''"
  by (simp_all add: isServerMode_def getline_def)

lemma demo_mode: "mode demo_config = CLI"
  by (simp add: demo_config_def Config_def)

lemma demo_main_call: "main (demo_main e) [''prog'', ''--dest'', ''200''] =
    (case run e (CallExecutor demo_config) of None \<Rightarrow> None
     | Some (Return s) \<Rightarrow> Some (Exited (statusToExitCode (status (x_result s)))
         (print_lines (\<lambda>_. ''{}'') (\<lambda>n. n) 0 (x_emitted s)))
     | Some (Throw s) \<Rightarrow> Some (Crashed (print_lines (\<lambda>_. ''{}'') (\<lambda>n. n) 0 (x_emitted s)))
     | Some (Next s) \<Rightarrow> None)"
  by (simp add: main_def demo_main_def demo_line demo_parse demo_mode cong: option.case_cong flow.case_cong)

theorem cli_output_witness:
  "\<exists>out s. main (demo_main unanswered_call) [''prog'', ''--dest'', ''200''] = Some (Exited 4 out)
     \<and> run unanswered_call (CallExecutor demo_config) = Some (Return s)
     \<and> length out = length (x_emitted s) \<and> x_emitted s \<noteq> []"
proof -
  let ?w = "demo_main unanswered_call" and ?argv = "[''prog'', ''--dest'', ''200'']"
  obtain s where r: "run unanswered_call (CallExecutor demo_config) = Some (Return s)"
      and st: "status (x_result s) = NO_ANSWER" by (rule unanswered_run)
  let ?out = "print_lines (\<lambda>_. ''{}'') (\<lambda>n. n) 0 (x_emitted s)"
  have m: "main ?w ?argv = Some (Exited 4 ?out)"
    by (simp add: demo_main_call r st statusToExitCode_def)
  have p: "parse (w_app ?w) (w_env ?w) ?argv (if isServerMode ?argv then '''' else getline (w_stdin ?w)) = Inr demo_config"
    by (simp add: demo_main_def demo_line demo_parse)
  have "w_call ?w = unanswered_call" by (simp add: demo_main_def)
  with cli_output [OF p demo_mode _ m] r have "length ?out = length (x_emitted s) \<and> x_emitted s \<noteq> []"
    by (auto simp: Let_def)
  with m r show ?thesis by blast
qed

text \<open>
  An exception of PJSIP that leaves the run is not reported: the command line crashes instead of
  ending with exit status 5, and prints no result, for instance when creating the library fails.
\<close>

lemma pjsip_exception_crashes:
  assumes "pj_fails (pjsip e) [] LibCreate"
  shows "main (demo_main e) [''prog'', ''--dest'', ''200''] = Some (Crashed [])"
proof -
  have "run e (CallExecutor demo_config) = Some (Throw ((set_status FAILED (CallExecutor demo_config))
      \<lparr>x_agent := pj_log LibCreate ((SipAgent demo_config)\<lparr>sa_ep := True\<rparr>)\<rparr>))"
    using assms by (simp add: run_def run_setup_def step_init_def init_def pj_do_def Let_def CallExecutor_def
        SipAgent_def set_status_def)
  then show ?thesis by (simp add: demo_main_call CallExecutor_def set_status_def)
qed

text \<open>
  The server never reads standard input: whatever is on it, the process behaves the same once the
  arguments select the server mode; the mode is selected by the first \<open>--mode\<close> with a value, or by a
  \<open>--mode=server\<close> before any such.
\<close>

lemma server_ignores_stdin:
  assumes "isServerMode argv"
  shows "main (w\<lparr>w_stdin := input\<rparr>) argv = main w argv
    \<and> (''--mode'' \<in> set (tl argv) \<or> ''--mode=server'' \<in> set (tl argv))"
proof -
  have "server_mode_in as \<Longrightarrow> ''--mode'' \<in> set as \<or> ''--mode=server'' \<in> set as" for as
    by (induction as rule: server_mode_in.induct) (auto split: if_splits)
  then have "''--mode'' \<in> set (tl argv) \<or> ''--mode=server'' \<in> set (tl argv)"
    using assms by (simp add: isServerMode_def)
  moreover have "main (w\<lparr>w_stdin := input\<rparr>) argv = main w argv"
    using assms by (simp add: main_def cong: if_cong option.case_cong flow.case_cong sum.case_cong parse_error.case_cong)
  ultimately show ?thesis by simp
qed

end
