(* ===== verification/Unit_Tests.thy ===== *)
theory Unit_Tests
  imports Grpc_Messages Silence Tts_Stub
begin

text \<open>
  The repository's unit tests (\<open>tests/unit/\<close>) on the model: every test case of the C++ suite, with its
  inputs and expectations, evaluated in the kernel. They tie the definitions to the behaviour the authors
  of the program wrote down. A lemma carries the name of its test. What a test fixture sets up (the
  environment, the command line that CLI11 binds) is the corresponding argument.
\<close>

section \<open>test_silence.cpp\<close>

fun fed :: "silence_detector \<Rightarrow> (u32 \<times> u64) list \<Rightarrow> bool list" where
  "fed sd [] = []"
| "fed sd ((level, now) # xs) = (case feed sd level now of (hit, sd') \<Rightarrow> hit # fed sd' xs)"

lemma test_NotArmedNeverTriggers:
  "fed (SilenceDetector 10 1000) xs = replicate (length xs) False"
  by (induction xs rule: list.induct) (auto simp: feed_def SilenceDetector_def)

lemma test_LoudAudioResetsWindow:
  "fed (arm (SilenceDetector 10 1000)) [(0, 100), (0, 200), (0, 300), (255, 400), (0, 500), (0, 600),
     (0, 1000), (0, 1300), (0, 1500)] = [False, False, False, False, False, False, False, False, True]"
  by (simp add: feed_def arm_def SilenceDetector_def Let_def)

lemma test_BoundaryJustBelowDoesNotTrigger:
  "fed (arm (SilenceDetector 10 10000)) (map (\<lambda>t. (0, t)) [1000, 1900, 2800, 3700, 4600, 5500, 6400, 7300,
     8200, 9100, 10000, 10950])
   = [False, False, False, False, False, False, False, False, False, False, False, False]"
  by (simp add: feed_def arm_def SilenceDetector_def Let_def)

lemma test_BoundaryExactTriggers:
  "fed (arm (SilenceDetector 10 10000)) [(0, 0), (0, 10000)] = [False, True]"
  by (simp add: feed_def arm_def SilenceDetector_def Let_def)

lemma test_TriggersOnlyOnce:
  "fed (arm (SilenceDetector 10 1000)) [(0, 0), (0, 1000), (0, 2000), (0, 3000), (0, 4000)]
     = [False, True, False, False, False]"
  by (simp add: feed_def arm_def SilenceDetector_def Let_def)

lemma test_ReArmWorks:
  "let (a, sd) = feed (arm (SilenceDetector 10 1000)) 0 0; (b, sd) = feed sd 0 1000; (c, sd) = feed sd 0 2000
   in [a, b, c] = [False, True, False] \<and> fed (arm sd) [(0, 3000), (0, 4000)] = [False, True]"
  by (simp add: feed_def arm_def SilenceDetector_def Let_def)

lemma test_ThresholdBoundary:
  "fed (arm (SilenceDetector 100 1000)) [(99, 100), (99, 200), (100, 300), (101, 400), (99, 500), (99, 1000),
     (99, 1500)] = [False, False, False, False, False, False, True]"
  by (simp add: feed_def arm_def SilenceDetector_def Let_def)

section \<open>test_events.cpp\<close>

lemma test_SipCodeMappingTable:
  "map sipCodeToCallStatus [200, 486, 600, 603, 408, 480, 487, 404, 500, 0]
     = [ANSWERED, BUSY, BUSY, BUSY, NO_ANSWER, NO_ANSWER, NO_ANSWER, FAILED, FAILED, FAILED]"
  by (simp add: sipCodeToCallStatus_def)

lemma test_SipCodeUnmappedCodesFallToFailed:
  "\<forall>code \<in> {401, 403, 404, 405, 406, 410, 412, 413, 414, 415, 416, 420, 421, 422, 423, 430, 433, 481, 482,
     483, 484, 485, 488, 489, 490, 491, 493, 494, 500, 501, 502, 503, 504, 505, 513, 580, 604, 606}.
   sipCodeToCallStatus code = FAILED"
  by (simp add: sipCodeToCallStatus_def)

lemma test_ExitCodes:
  "map statusToExitCode [ANSWERED, BUSY, NO_ANSWER, FAILED, CANCELLED, REGISTERING, DISCONNECTED] = [0, 3, 4, 5, 6, 1, 1]"
  by (simp add: statusToExitCode_def)

lemma test_InvStateValuesMatchPjsip:
  "[INV_STATE_NULL, INV_STATE_CALLING, INV_STATE_INCOMING, INV_STATE_EARLY, INV_STATE_CONNECTING,
     INV_STATE_CONFIRMED, INV_STATE_DISCONNECTED] = [0, 1, 2, 3, 4, 5, 6]"
  by (simp add: inv_state_defs)

lemma test_AnsweredIsStateUnlessFlaggedResult:
  "let js = toJson_obj (AgentEvent ANSWERED ''cid'' '''' 0 0 '''') now;
       jr = toJson_obj ((AgentEvent ANSWERED ''cid'' ''/r.wav'' 12 200 '''')\<lparr>is_result := True\<rparr>) now
   in json_get js ''event'' = Some (JStr ''state'') \<and> json_get js ''state'' = Some (JStr ''ANSWERED'')
     \<and> json_get jr ''event'' = Some (JStr ''result'') \<and> json_get jr ''status'' = Some (JStr ''ANSWERED'')
     \<and> json_get jr ''billing_seconds'' = Some (JInt 12) \<and> json_get jr ''recording'' = Some (JStr ''/r.wav'')"
  by (simp add: toJson_obj_def result_event_def callStatusToString_def Let_def)

lemma test_FinalStatusesAlwaysResults:
  "\<forall>s \<in> {BUSY, NO_ANSWER, CANCELLED, FAILED}.
     json_get (toJson_obj (AgentEvent s ''cid'' '''' 0 486 ''x'') now) ''event'' = Some (JStr ''result'')"
  by (simp add: toJson_obj_def result_event_def Let_def)

lemma test_StateEventFields:
  "let j = toJson_obj (AgentEvent RINGING ''cid'' '''' 0 0 '''') now
   in json_get j ''event'' = Some (JStr ''state'') \<and> json_get j ''state'' = Some (JStr ''RINGING'')
     \<and> json_get j ''call_id'' = Some (JStr ''cid'') \<and> json_get j ''ts'' \<noteq> None"
  by (simp add: toJson_obj_def result_event_def callStatusToString_def Let_def)

lemma test_RecordingReadyEvent:
  "let j = toJson_obj (AgentEvent RECORDING_READY ''cid'' ''/rec/a.wav'' 7 0 '''') now
   in json_get j ''event'' = Some (JStr ''recording_ready'') \<and> json_get j ''uri'' = Some (JStr ''/rec/a.wav'')
     \<and> json_get j ''duration'' = Some (JInt 7)"
  by (simp add: toJson_obj_def result_event_def Let_def)

text \<open>\<open>AllStatesProduceCorrectJson\<close>: the table of the test, by the kind of line.\<close>

lemma test_AllStates_state:
  "\<forall>s \<in> {REGISTERING, REGISTERED, DIALING, RINGING, ANSWERED, PLAYING, PLAYED, SILENCE_DETECTED, HANGING_UP,
      DISCONNECTED}.
     let j = toJson_obj (AgentEvent s ''test-call'' ''/rec'' 5 486 ''reason'') now
     in json_get j ''event'' = Some (JStr ''state'') \<and> json_get j ''state'' = Some (JStr (callStatusToString s))
       \<and> json_get j ''call_id'' = Some (JStr ''test-call'') \<and> json_get j ''ts'' \<noteq> None"
  by (simp add: toJson_obj_def result_event_def Let_def)

lemma test_AllStates_result:
  "\<forall>s \<in> {BUSY, NO_ANSWER, CANCELLED, FAILED, ANSWERED}.
     let j = toJson_obj ((AgentEvent s ''test-call'' ''/rec'' 5 486 ''reason'')\<lparr>is_result := True\<rparr>) now
     in json_get j ''event'' = Some (JStr ''result'') \<and> json_get j ''status'' = Some (JStr (callStatusToString s))
       \<and> json_get j ''sip_code'' = Some (JInt 486) \<and> json_get j ''reason'' = Some (JStr ''reason'')
       \<and> json_get j ''billing_seconds'' = Some (JInt 5) \<and> json_get j ''recording'' = Some (JStr ''/rec'')
       \<and> json_get j ''call_id'' = Some (JStr ''test-call'') \<and> json_get j ''ts'' \<noteq> None"
  by (simp add: toJson_obj_def result_event_def Let_def)

lemma test_AllStates_names:
  "map callStatusToString [REGISTERING, REGISTERED, DIALING, RINGING, ANSWERED, PLAYING, PLAYED, SILENCE_DETECTED,
     HANGING_UP, DISCONNECTED, BUSY, NO_ANSWER, CANCELLED, FAILED]
   = [''REGISTERING'', ''REGISTERED'', ''DIALING'', ''RINGING'', ''ANSWERED'', ''PLAYING'', ''PLAYED'',
     ''SILENCE_DETECTED'', ''HANGING_UP'', ''DISCONNECTED'', ''BUSY'', ''NO_ANSWER'', ''CANCELLED'', ''FAILED'']"
  by (simp add: callStatusToString_def)

lemma test_ResultEventOmitsEmptyFields:
  "let j = toJson_obj (AgentEvent BUSY ''cid'' '''' 0 486 '''') now
   in json_get j ''reason'' = None \<and> json_get j ''recording'' = None"
  by (simp add: toJson_obj_def result_event_def Let_def)

section \<open>test_args.cpp\<close>

text \<open>
  \<open>ScopedEnv\<close> and \<open>make_argv\<close>: the environment, and what CLI11 binds for the options that occur.
\<close>

definition env_of :: "(string \<times> string) list \<Rightarrow> string \<Rightarrow> string option" where
  "env_of = map_of"

definition binds :: "(cli_vals \<Rightarrow> cli_vals) \<Rightarrow> string list \<Rightarrow> cli_vals \<Rightarrow> int + cli_vals" where
  "binds f argv v = Inr (f v)"

definition full_env :: "string \<Rightarrow> string option" where
  "full_env = env_of [(''AGENT_SIP_HOST'', ''h''), (''AGENT_SIP_USER'', ''u''), (''AGENT_SIP_PASS'', ''p''),
     (''AGENT_DEST'', ''d'')]"

lemmas parsing = parse_def binds_def full_env_def env_of_def cli_defaults_def Config_def parse_mode_def or_env_def
  envOr_def env_port_def check_def required_errors_def parse_transport_def parse_audio_def

lemma test_Defaults:
  "parse (binds id) full_env [''prog''] '''' = Inr
     \<lparr>mode = CLI, sip_host = ''h'', sip_port = 5060, sip_transport = UDP, sip_user = ''u'', sip_pass = ''p'',
      destination = ''d'', caller_id = '''', answer_delay_s = 1, answer_timeout_s = 30, silence_s = 10,
      record_flag = True, record_dir = ''./recordings'', grpc_listen = ''0.0.0.0:50051'', idle_shutdown_s = 300,
      log_level = 3, silence_threshold = 10, audio_source = \<lparr>source_type = '''', path_or_text = ''''\<rparr>\<rparr>"
  by (simp add: parsing)

lemma test_AnswerTimeoutFlag:
  "\<exists>c. parse (binds (cli_answer_timeout_update (\<lambda>_. 8))) full_env [''prog'', ''--answer-timeout'', ''8''] '''' = Inr c
     \<and> answer_timeout_s c = 8"
  by (simp add: parsing)

lemma test_EnvFallback:
  "\<exists>c. parse (binds (cli_dest_update (\<lambda>_. ''200'')))
       (env_of [(''AGENT_SIP_HOST'', ''sip.example.com''), (''AGENT_SIP_USER'', ''alice''),
         (''AGENT_SIP_PASS'', ''secret123''), (''AGENT_DEST'', ''100''), (''AGENT_SIP_PORT'', ''5070'')])
       [''prog'', ''--dest'', ''200''] '''' = Inr c
     \<and> sip_host c = ''sip.example.com'' \<and> sip_user c = ''alice'' \<and> sip_pass c = ''secret123''
     \<and> destination c = ''200'' \<and> sip_port c = 5070"
  by (simp add: parsing stoi_5070)

lemma test_CliOverEnv:
  "\<exists>c. parse (binds (\<lambda>v. v\<lparr>cli_sip_host := ''cli-host'', cli_sip_user := ''cli-user'', cli_dest := ''cli-dest'',
         cli_sip_port := 5080, cli_sip_port_count := 1\<rparr>))
       (env_of [(''AGENT_SIP_HOST'', ''env-host''), (''AGENT_SIP_USER'', ''env-user''),
         (''AGENT_SIP_PASS'', ''env-pass''), (''AGENT_DEST'', ''env-dest'')]) argv '''' = Inr c
     \<and> sip_host c = ''cli-host'' \<and> sip_user c = ''cli-user'' \<and> destination c = ''cli-dest'' \<and> sip_port c = 5080
     \<and> sip_pass c = ''env-pass''"
  by (simp add: parsing)

lemma test_MissingRequiredDies:
  "parse (binds id) (env_of [(''AGENT_SIP_USER'', ''u''), (''AGENT_SIP_PASS'', ''p''), (''AGENT_DEST'', ''100'')])
     [''prog''] '''' = Inl (Exit 2 [''error: --sip-host (or AGENT_SIP_HOST) is required in cli mode''])"
  "parse (binds id) (env_of [(''AGENT_SIP_HOST'', ''h''), (''AGENT_SIP_PASS'', ''p''), (''AGENT_DEST'', ''100'')])
     [''prog''] '''' = Inl (Exit 2 [''error: --sip-user (or AGENT_SIP_USER) is required in cli mode''])"
  "parse (binds id) (env_of [(''AGENT_SIP_HOST'', ''h''), (''AGENT_SIP_USER'', ''u''), (''AGENT_DEST'', ''100'')])
     [''prog''] '''' = Inl (Exit 2 [''error: AGENT_SIP_PASS is required in cli mode''])"
  "parse (binds id) (env_of [(''AGENT_SIP_HOST'', ''h''), (''AGENT_SIP_USER'', ''u''), (''AGENT_SIP_PASS'', ''p'')])
     [''prog''] '''' = Inl (Exit 2 [''error: --dest (or AGENT_DEST) is required in cli mode''])"
  by (simp_all add: parsing)

lemma test_Stdin:
  "\<exists>c. parse (binds id) full_env [''prog''] ''wav:/tmp/hello.wav'' = Inr c
     \<and> audio_source c = \<lparr>source_type = ''wav'', path_or_text = ''/tmp/hello.wav''\<rparr>"
  "\<exists>c. parse (binds id) full_env [''prog''] ''text:hello world'' = Inr c
     \<and> audio_source c = \<lparr>source_type = ''text'', path_or_text = ''hello world''\<rparr>"
  "\<exists>msg. parse (binds id) full_env [''prog''] ''garbage'' = Inl (Exit 2 [''error: invalid audio source'' @ msg])"
  by (simp_all add: parsing Let_def)

lemma test_ToStringRedactsPassword:
  "json_get (toString_obj c) ''sip_pass'' = Some (JStr ''[REDACTED]'')"
  using toString_redacts_password by blast

section \<open>test_tts_stub.cpp\<close>

text \<open>The tests hold for every tone; a file is the one write \<open>synth\<close> makes.\<close>

lemma test_words: "words_of '''' = []" "words_of ''hello'' = [''hello'']" "words_of ''one two'' = [''one'', ''two'']"
  "words_of ''three four five six'' = [''three'', ''four'', ''five'', ''six'']"
  by (simp_all add: words_of.simps is_space_def)

lemma test_EmptyTextReturnsEmpty: "fst (synth tone '''' outdir) = ''''"
  by (simp add: synth_def test_words)

lemma test_DifferentTextProducesDifferentSizedWav:
  "length (word_samples tone (words_of ''one two'')) \<noteq> length (word_samples tone (words_of ''three four five six''))"
  by (simp add: test_words length_word_samples)

lemma test_WavHeaderIsValid:
  "\<exists>file h. snd (synth tone ''hello'' dir) = [Mkdir dir, WriteFile (dir @ ''/tts_stub.wav'') file] \<and> readWav file = Some h
     \<and> audio_format h = 1 \<and> channels h = 1 \<and> sample_rate h = 8000 \<and> bits_per_sample h = 16
     \<and> data_size h = 8000 \<and> riff_size h = 36 + data_size h"
proof -
  have "2 * length (word_samples tone [''hello'']) + 36 < 2 ^ 32" by (simp add: length_word_samples)
  from wav_data [OF this] show ?thesis by (simp add: synth_def test_words length_word_samples Let_def)
qed

section \<open>test_proto_events.cpp\<close>

lemma test_EveryStateMapsToCorrectProtoState:
  "map (\<lambda>s. ce_event (toProtoEvent (AgentEvent s ''cid'' '''' 0 0 '''') ''cid'' 0 now))
     [REGISTERING, REGISTERED, DIALING, RINGING, ANSWERED, PLAYING, PLAYED, HANGING_UP, DISCONNECTED]
   = map StateChange [State_REGISTERING, State_REGISTERED, State_DIALING, State_RINGING, State_ANSWERED,
       State_PLAYING, State_PLAYED, State_HANGING_UP, State_UNSPECIFIED]"
  by (simp add: toProtoEvent_def toProtoState_def)

lemma test_FinalAndSpecialEventsDontBecomeStateChange:
  "\<forall>s \<in> {BUSY, NO_ANSWER, CANCELLED, FAILED, SILENCE_DETECTED, RECORDING_READY}.
     \<forall>st. ce_event (toProtoEvent (AgentEvent s ''cid'' '''' 0 0 '''') ''cid'' 0 now) \<noteq> StateChange st"
  by (simp add: toProtoEvent_def)

lemma test_SetsCorrectOneof:
  "ce_event (toProtoEvent (AgentEvent SILENCE_DETECTED ''cid'' '''' 10 0 '''') ''call-001'' 0 now) = SilenceDetected 10"
  "ce_event (toProtoEvent (AgentEvent RECORDING_READY ''cid'' ''/rec/call.wav'' 7 0 '''') ''call-001'' 0 now)
     = RecordingReady ''/rec/call.wav'' 7"
  "ce_call_id (toProtoEvent (AgentEvent RINGING ''cid'' '''' 0 0 '''') ''call-001'' 0 now) = ''call-001''"
  by (simp_all add: toProtoEvent_def)

lemma test_ResultSetsCorrectOneofWithAllFields:
  assumes "started > 0"
  shows "ce_event (toProtoEvent ((AgentEvent ANSWERED ''cid'' ''/rec/r.wav'' 42 200 ''BYE'')\<lparr>is_result := True\<rparr>)
      ''call-001'' started now)
    = Result \<lparr>rm_status = Result_ANSWERED, rm_started_at = Some (setTimestamp started),
        rm_ended_at = Some (setTimestamp now), rm_billing_seconds = 42, rm_billing_tokens = 0,
        rm_recording_uri = ''/rec/r.wav'', rm_sip_code = 200, rm_error_message = ''BYE''\<rparr>"
  using assms by (simp add: toProtoEvent_def toProtoResultStatus_def)

lemma test_EveryFinalStatusMapsCorrectly:
  "map toProtoResultStatus [ANSWERED, BUSY, NO_ANSWER, CANCELLED, FAILED]
     = [Result_ANSWERED, Result_BUSY, Result_NO_ANSWER, Result_CANCELLED, Result_FAILED]"
  by (simp add: toProtoResultStatus_def)

lemma test_ResultWithoutStartedAtOmitsStartField:
  "\<exists>m. ce_event (toProtoEvent (AgentEvent BUSY ''cid'' '''' 0 486 '''') ''cid'' 0 now) = Result m
     \<and> rm_started_at m = None \<and> rm_ended_at m \<noteq> None"
  by (simp add: toProtoEvent_def)

end
