(* ===== verification/Spec2Isabelle.thy ===== *)
theory Spec2Isabelle
  imports Executor_Reasons Executor_Cause Executor_Resources Executor_Termination Executor_Config Grpc_Concurrency
    Main_Program Unit_Tests
begin

text \<open>
  A verification development for \<open>pjcppsipagent\<close>, a headless SIP call agent in C++: it registers with a
  SIP server, places one call, plays a file or synthesised text, listens for silence, hangs up and
  reports what happened, either from the command line or as a gRPC server with one call at a time.

  \<^bold>\<open>Parts and theories.\<close> The files are those under \<open>src/src\<close>; each theory names the functions it models
  by the names they have in the code, in the order of the code.

  \<^item> \<open>Events\<close> and \<open>Calendar\<close> (\<open>events.h\<close>, \<open>events.cpp\<close>): statuses, exit codes, agent and internal events,
    the JSON line of an event and its ISO time stamp.
  \<^item> \<open>Silence\<close> (\<open>silence.h\<close>, \<open>silence.cpp\<close>): the silence detector on 32- and 64-bit words.
  \<^item> \<open>Tts_Stub\<close> (\<open>tts_stub.cpp\<close>): splitting a text into words, the samples, the WAV file byte by byte.
  \<^item> \<open>Args\<close> (\<open>args.h\<close>, \<open>args.cpp\<close>): the configuration, its printing, and the parsing of options,
    environment and standard input.
  \<^item> \<open>Sip_Agent\<close> (\<open>sip_agent.h\<close>, \<open>sip_agent.cpp\<close>): the objects of PJSIP the agent owns, the requests it
    makes (a log), the event queue, the callbacks and the destructor.
  \<^item> \<open>Call_Executor\<close> (\<open>call_executor.h\<close>, \<open>call_executor.cpp\<close>): \<open>run()\<close> phase by phase, \<open>handleDisconnect\<close> and
    \<open>cancel\<close>. The state \<open>exec\<close> holds the members of the class and the locals of \<open>run()\<close>.
  \<^item> \<open>Grpc_Messages\<close>, \<open>Grpc_Relay\<close>, \<open>Grpc_Service\<close>, \<open>Grpc_Concurrency\<close> (\<open>grpc_server.cpp\<close>, \<open>call_agent.proto\<close>):
    the messages and their conversions; the relay between the call thread and the RPC thread; the
    service's procedures and the idle watchdog; all threads together as a step relation.
  \<^item> \<open>Main_Program\<close> (\<open>main.cpp\<close>): the choice of the mode, and the command-line call.

  \<^bold>\<open>How the parts interact.\<close> PJSIP's threads push internal events through the callbacks of \<open>Sip_Agent\<close>;
  \<open>run\<close> takes them out with \<open>waitEvent\<close>, drives the call through the agent's methods and hands agent
  events to a sink. The command line prints the sink's events as JSON lines; \<open>ExecuteCall\<close> queues them for
  the RPC thread, which writes them to the stream. Another thread may cancel a run at any moment; in
  \<open>ExecuteCall\<close> the relay does when the client has cancelled (\<open>relay_cancels\<close>).

  \<^bold>\<open>Conventions.\<close> A block of \<open>run()\<close> is a function from states to \<open>flow\<close>: falling through, returning from
  \<open>run()\<close>, or an exception of PJSIP. A loop of the code is \<open>loop\<close> of the definition of one round, a
  \<open>partial_function\<close>: a loop that never stops is \<open>None\<close>, so no fuel is chosen anywhere, and that a loop
  ends is a theorem of its own. What the code does not decide is an argument: the environment \<open>env\<close> of the
  executor (the actions of the other threads before every interaction and during every wait, the clock,
  which requests PJSIP fails, the levels it reads), \<open>relay_env\<close>, \<open>server_env\<close>, the option library, the
  environment variables, the JSON printer, the sine of a sample. No clock is assumed to be monotone and
  no order of callbacks is assumed, except where a property says so in its hypotheses. An exception of
  PJSIP that leaves \<open>run\<close> ends the process: the command line keeps the lines it has printed (\<open>Crashed\<close>), and
  \<open>ExecuteCall\<close> the messages the RPC thread has written by then (\<open>Terminated\<close>), a number that the scheduling
  decides and \<open>relay_env\<close> gives (\<open>crash_after\<close>).

  \<^bold>\<open>The library.\<close> \<open>Prelude\<close> holds the control flow with its rules (postconditions, termination, divergence,
  maps of the state), decimal numbers, bytes and JSON objects. \<open>Interfaces\<close> holds the contracts between
  components as locales: \<open>fifo\<close> (interpreted by the agent's queue and by the relay's), \<open>one_shot\<close> (the
  detector), \<open>exclusive_slot\<close> (the service's call flag), \<open>front_end\<close> (JSON lines and protobuf messages).
  \<open>Executor_Rules\<close> holds the frame rules of the executor and what callbacks have delivered up to a moment,
  \<open>Executor_Requests\<close> what the calls into the agent leave alone, \<open>Executor_Silence\<close> what the silence loop has
  heard when it stops, and \<open>Executor_Invariants\<close> two families of locales: \<open>exec_base\<close> up to
  \<open>exec_invariant\<close> (an invariant of the executor's state with what holds when the run returns: a locale for
  the registration, the wait for the answer (\<open>exec_overdue\<close>, \<open>exec_ring\<close>) and the time after it, and their
  sequence) and \<open>agent_steps\<close> up to \<open>agent_invariant\<close> (the same for an invariant of the agent, an instance of
  the first). \<open>Executor_Answer\<close> names the moment of the answer: the rounds of the wait a run goes through, and
  the clock reading that follows a \<open>CONFIRMED\<close> taken out of the queue in one of them. \<open>Scenarios\<close> evaluates three whole runs,
  an answered, an unanswered and a cancelled one, on which the witnesses rest.

  \<^bold>\<open>What the theorems show.\<close>
  \<^item> \<open>Executor_Safety\<close>: the events of a run form a word of the call lifecycle, the result is reported once
    and last, the exit code is a documented one.
  \<^item> \<open>Executor_Agent\<close>: PJSIP is used only from a registered thread; at most one call, after PJSIP has reported
    the registration with a code of success.
  \<^item> \<open>Executor_Hangup\<close>: a cancelled run has asked PJSIP to hang up, and the one phase where it has not.
  \<^item> \<open>Executor_Resources\<close>: PJSIP objects are used only while they exist, and none is leaked.
  \<^item> \<open>Executor_Timing\<close>: the arithmetic of the bill, and what the end of an overdue call is reported as.
  \<^item> \<open>Executor_Reasons\<close>: a run hangs up only when it was cancelled, the answer is overdue, it was silent for
    long enough or the call has lasted ten minutes.
  \<^item> \<open>Executor_Outcome\<close>: what whole runs bill and record, that they play only after the answer delay, both
    counted from the moment of the answer, and what an unanswered call leaves undone; each an instance of the
    executor's locales.
  \<^item> \<open>Executor_Cause\<close>: where the result of a run comes from: what PJSIP reported before the run ended, or a
    timeout, and which of the two where both apply.
  \<^item> \<open>Executor_Liveness\<close>: a cancelled run returns; which waits are bounded by a timeout, and which are not.
  \<^item> \<open>Executor_Disconnect\<close>: every phase that waits for the end of the call ends when it is reported, by a
    lexicographic measure. \<open>Executor_Termination\<close>: whole runs end, also without a cancellation, when PJSIP reports the
    outcome of the registration and of the call, or the call is never answered and the clock goes on; and the
    answered call without media, whose run never ends.
  \<^item> \<open>Executor_Config\<close>: which settings have no effect on a run, as an equivalence of two runs.
  \<^item> \<open>Grpc_Relay\<close>, \<open>Grpc_Service\<close>: the stream is the transcript a single thread would write, whatever the
    interleaving, and the relay ends; the result message and its times; the call slot; when the watchdog
    stops the server, as numbers of milliseconds, and that it does stop an idle one. \<open>Grpc_Concurrency\<close>: the
    history of admissions, refusals and releases under any interleaving is one of a lock with one owner.
  \<^item> \<open>Silence\<close>, \<open>Tts_Stub\<close>, \<open>Args\<close>, \<open>Calendar\<close>, \<open>Grpc_Messages\<close>, \<open>Sip_Agent\<close>: equivalence with a
    specification, round trips (a request and the call configuration made of it among them), precedence and
    failures of the parser, conversions, queue and destructor.
  \<^item> \<open>Main_Program\<close>: the command line prints the events of its run line by line and exits with its status, and
    when it crashes instead.
  \<^item> \<open>Unit_Tests\<close>: the unit tests of the repository, evaluated on the model.

  \<^bold>\<open>Not modelled.\<close> PJSIP, gRPC, protobuf, CLI11 and the JSON library are third-party code: parameters. The
  contents of the standard error stream, the creation of directories beyond an effect log, and the
  accessors of \<open>SipAgent\<close> that hand out its endpoint and configuration are left out, as are the build files, the scripts
  and the integration tests. The
  memory-level data races of the code (a member read by one thread while another writes it without a
  lock) are outside the model, whose steps are the interactions between the threads.
\<close>

end
